(* ===== verification/Agent_Enums.thy ===== *)
theory Agent_Enums
  imports Main
begin

text \<open>Data of \<open>hachimi-protocol/src/agent.rs\<close> that several components share.\<close>

datatype entry_profile = Workbench_Entry | PetConversation

record token_usage =
  tu_input_tokens :: nat
  tu_output_tokens :: nat

end
