(* ===== verification/Prelude.thy ===== *)
theory Prelude
  imports Main "HOL-Library.Char_ord" "HOL-Library.List_Lexorder" "HOL-Library.Product_Lexorder"
begin

text \<open>
  Shared vocabulary of the development: Rust results as sums, the machine integers the
  program saturates or checks (\<open>i64\<close>, \<open>u64\<close>, \<open>u32\<close>, \<open>u8\<close>) written out on \<open>int\<close> and
  \<open>nat\<close>, and the small list facts that several components use.
\<close>

named_theorems rust_simps \<open>unfolding rules for results and machine integers\<close>

section \<open>Results\<close>

type_synonym ('e, 'a) result = "'e + 'a"

definition rbind :: "('e, 'a) result \<Rightarrow> ('a \<Rightarrow> ('e, 'b) result) \<Rightarrow> ('e, 'b) result" where
  "rbind r f = (case r of Inl e \<Rightarrow> Inl e | Inr a \<Rightarrow> f a)"

definition ok_or :: "'e \<Rightarrow> 'a option \<Rightarrow> ('e, 'a) result" where
  "ok_or e x = (case x of None \<Rightarrow> Inl e | Some a \<Rightarrow> Inr a)"

fun is_ok :: "('e, 'a) result \<Rightarrow> bool" where
  "is_ok (Inl _) = False"
| "is_ok (Inr _) = True"

text \<open>\<open>iter().map(f).collect::<Result<Vec<_>, _>>()\<close>: the first error wins.\<close>

fun map_result :: "('a \<Rightarrow> ('e, 'b) result) \<Rightarrow> 'a list \<Rightarrow> ('e, 'b list) result" where
  "map_result f [] = Inr []"
| "map_result f (x # xs) =
     (case f x of Inl e \<Rightarrow> Inl e
      | Inr y \<Rightarrow> (case map_result f xs of Inl e \<Rightarrow> Inl e | Inr ys \<Rightarrow> Inr (y # ys)))"

lemma rbind_simps [simp]:
  "rbind (Inl e) f = Inl e"
  "rbind (Inr a) f = f a"
  by (simp_all add: rbind_def)

lemma rbind_Inr_iff: "rbind r f = Inr b \<longleftrightarrow> (\<exists>a. r = Inr a \<and> f a = Inr b)"
  by (cases r) auto

lemma ok_or_simps [simp]:
  "ok_or e None = Inl e"
  "ok_or e (Some a) = Inr a"
  by (simp_all add: ok_or_def)

lemma ok_or_Inr_iff [simp]: "ok_or e x = Inr a \<longleftrightarrow> x = Some a"
  by (cases x) auto

lemma map_result_Inr_iff:
  "map_result f xs = Inr ys \<longleftrightarrow> list_all2 (\<lambda>x y. f x = Inr y) xs ys"
proof (induction xs arbitrary: ys)
  case (Cons x xs)
  then show ?case
    by (cases ys; cases "f x"; cases "map_result f xs") (auto split: sum.splits)
qed auto

lemma map_result_Inr_set:
  assumes "map_result f xs = Inr ys" and "y \<in> set ys"
  shows "\<exists>x \<in> set xs. f x = Inr y"
  using assms by (fastforce simp: map_result_Inr_iff list_all2_conv_all_nth in_set_conv_nth)

lemma map_result_id:
  assumes "\<And>x. x \<in> set xs \<Longrightarrow> f x = Inr x"
  shows "map_result f xs = Inr xs"
  using assms by (induction xs) auto

section \<open>Machine integers\<close>

definition i64_max :: int where "i64_max = 2 ^ 63 - 1"
definition i64_min :: int where "i64_min = - (2 ^ 63)"
definition u64_max :: nat where "u64_max = 2 ^ 64 - 1"
definition u32_max :: nat where "u32_max = 2 ^ 32 - 1"

definition is_i64 :: "int \<Rightarrow> bool" where
  "is_i64 x \<longleftrightarrow> i64_min \<le> x \<and> x \<le> i64_max"

text \<open>A mathematical integer clamped to \<open>i64\<close>, and the saturating and checked operations.\<close>

definition sat_i64 :: "int \<Rightarrow> int" where
  "sat_i64 x = max i64_min (min i64_max x)"

definition checked_i64 :: "int \<Rightarrow> int option" where
  "checked_i64 x = (if is_i64 x then Some x else None)"

definition sat_add_u64 :: "nat \<Rightarrow> nat \<Rightarrow> nat" where
  "sat_add_u64 a b = min u64_max (a + b)"

definition sat_add_u32 :: "nat \<Rightarrow> nat \<Rightarrow> nat" where
  "sat_add_u32 a b = min u32_max (a + b)"

text \<open>\<open>i64::try_from(x).unwrap_or(i64::MAX)\<close> on an unsigned value.\<close>

definition i64_of_u64 :: "nat \<Rightarrow> int" where
  "i64_of_u64 n = min i64_max (int n)"

lemmas [rust_simps] = sat_i64_def checked_i64_def is_i64_def sat_add_u64_def sat_add_u32_def
  i64_of_u64_def i64_max_def i64_min_def u64_max_def u32_max_def

lemma is_i64_sat [simp]: "is_i64 (sat_i64 x)"
  by (simp add: rust_simps)

lemma sat_i64_id: "is_i64 x \<Longrightarrow> sat_i64 x = x"
  by (simp add: rust_simps)

lemma checked_i64_Some_iff [simp]: "checked_i64 x = Some y \<longleftrightarrow> is_i64 x \<and> y = x"
  by (auto simp: checked_i64_def)

lemma checked_i64_None_iff [simp]: "checked_i64 x = None \<longleftrightarrow> \<not> is_i64 x"
  by (simp add: checked_i64_def)

lemma sat_add_u64_mono: "a \<le> u64_max \<Longrightarrow> a \<le> sat_add_u64 a b"
  by (simp add: sat_add_u64_def)

section \<open>Lists\<close>

text \<open>\<open>dedup_by\<close>: an element equivalent to the last one kept is dropped.\<close>

fun dedup_by :: "('a \<Rightarrow> 'a \<Rightarrow> bool) \<Rightarrow> 'a list \<Rightarrow> 'a list" where
  "dedup_by r [] = []"
| "dedup_by r [x] = [x]"
| "dedup_by r (x # y # zs) = (if r y x then dedup_by r (x # zs) else x # dedup_by r (y # zs))"

lemma set_dedup_by: "set (dedup_by r xs) \<subseteq> set xs"
  by (induction r xs rule: dedup_by.induct) auto

lemma dedup_by_Nil_iff [simp]: "dedup_by r xs = [] \<longleftrightarrow> xs = []"
  by (induction r xs rule: dedup_by.induct) auto

lemma hd_dedup_by: "xs \<noteq> [] \<Longrightarrow> hd (dedup_by r xs) = hd xs"
  by (induction r xs rule: dedup_by.induct) auto

lemma sorted_dedup_by:
  "sorted (map f xs) \<Longrightarrow> sorted (map f (dedup_by r xs))"
proof (induction r xs rule: dedup_by.induct)
  case (3 r x y zs)
  have "\<forall>z \<in> set (dedup_by r (y # zs)). f x \<le> f z"
    using "3.prems" set_dedup_by [of r "y # zs"] by fastforce
  with 3 show ?case by auto
qed auto

fun adjacent_distinct :: "('a \<Rightarrow> 'a \<Rightarrow> bool) \<Rightarrow> 'a list \<Rightarrow> bool" where
  "adjacent_distinct r (x # y # zs) = (\<not> r y x \<and> adjacent_distinct r (y # zs))"
| "adjacent_distinct r xs = True"

lemma adjacent_distinct_Cons:
  "adjacent_distinct r (x # xs) \<longleftrightarrow> (xs = [] \<or> \<not> r (hd xs) x \<and> adjacent_distinct r xs)"
  by (cases xs) auto

lemma adjacent_distinct_dedup_by: "adjacent_distinct r (dedup_by r xs)"
proof (induction r xs rule: dedup_by.induct)
  case (3 r x y zs)
  then show ?case by (auto simp: adjacent_distinct_Cons hd_dedup_by)
qed auto

lemma dedup_by_id: "adjacent_distinct r xs \<Longrightarrow> dedup_by r xs = xs"
  by (induction r xs rule: dedup_by.induct) auto

lemma dedup_by_idem [simp]: "dedup_by r (dedup_by r xs) = dedup_by r xs"
  by (simp add: dedup_by_id adjacent_distinct_dedup_by)

lemma sort_key_id: "sorted (map f xs) \<Longrightarrow> sort_key f xs = xs"
  by (rule sort_key_id_if_sorted)

text \<open>Sorting after deduplication changes nothing: the pair is idempotent.\<close>

lemma sort_dedup_idem:
  "dedup_by r (sort_key f (dedup_by r (sort_key f xs))) = dedup_by r (sort_key f xs)"
  by (simp add: sort_key_id sorted_dedup_by)

lemma remdups_adj_dedup_by: "remdups_adj xs = dedup_by (=) xs"
  by (induction xs rule: remdups_adj.induct) auto

lemma sort_remdups_adj_idem:
  "remdups_adj (sort_key f (remdups_adj (sort_key f xs))) = remdups_adj (sort_key f xs)"
  by (simp add: remdups_adj_dedup_by sort_dedup_idem)

lemma distinct_remdups_adj_sort: "distinct (remdups_adj (sort xs))"
proof -
  have "sorted ys \<Longrightarrow> distinct (remdups_adj ys)" for ys :: "'a list"
    by (induction ys rule: remdups_adj.induct) auto
  then show ?thesis by simp
qed

lemma if_Some_iff:
  "((if b then Some x else r) = Some y) \<longleftrightarrow> (b \<and> x = y) \<or> (\<not> b \<and> r = Some y)"
  by simp

lemma find_Some_imp: "find p xs = Some x \<Longrightarrow> p x \<and> x \<in> set xs"
  by (auto simp: find_Some_iff)

lemma find_None_all: "find p xs = None \<longleftrightarrow> (\<forall>x \<in> set xs. \<not> p x)"
  by (auto simp: find_None_iff)

lemma find_Some_ex: "(\<exists>x \<in> set xs. p x) \<longleftrightarrow> (\<exists>x. find p xs = Some x)"
  using find_None_all [of p xs] by (cases "find p xs") (auto dest: find_Some_imp)

end
