(* ===== verification/Rust_String.thy ===== *)
theory Rust_String
  imports Prelude
begin

text \<open>
  Rust's \<open>str\<close> as its UTF-8 bytes: a \<open>string\<close> is a list of bytes, \<open>len()\<close> is \<open>length\<close>,
  the order of \<open>String\<close> is the lexicographic byte order, and a search for an ASCII
  character is a search for its byte. \<open>trim\<close> removes the UTF-8 encodings of the Unicode
  \<open>White_Space\<close> characters, \<open>chars()\<close> counts the bytes that are not continuation bytes.
\<close>

named_theorems str_simps \<open>facts about trimming, case folding and splitting\<close>

section \<open>Characters\<close>

abbreviation byte :: "char \<Rightarrow> nat" where "byte \<equiv> of_char"

definition ascii_lower :: "char \<Rightarrow> char" where
  "ascii_lower c = (if 65 \<le> byte c \<and> byte c \<le> 90 then char_of (byte c + 32) else c)"

definition ascii_upper :: "char \<Rightarrow> char" where
  "ascii_upper c = (if 97 \<le> byte c \<and> byte c \<le> 122 then char_of (byte c - 32) else c)"

definition is_ascii_alnum :: "char \<Rightarrow> bool" where
  "is_ascii_alnum c \<longleftrightarrow> (48 \<le> byte c \<and> byte c \<le> 57) \<or> (65 \<le> byte c \<and> byte c \<le> 90) \<or>
     (97 \<le> byte c \<and> byte c \<le> 122)"

definition is_utf8_cont :: "char \<Rightarrow> bool" where
  "is_utf8_cont c \<longleftrightarrow> 128 \<le> byte c \<and> byte c < 192"

definition to_ascii_lowercase :: "string \<Rightarrow> string" where
  "to_ascii_lowercase s = map ascii_lower s"

definition to_ascii_uppercase :: "string \<Rightarrow> string" where
  "to_ascii_uppercase s = map ascii_upper s"

definition eq_ignore_ascii_case :: "string \<Rightarrow> string \<Rightarrow> bool" where
  "eq_ignore_ascii_case a b \<longleftrightarrow> to_ascii_lowercase a = to_ascii_lowercase b"

definition chars_count :: "string \<Rightarrow> nat" where
  "chars_count s = length (filter (\<lambda>c. \<not> is_utf8_cont c) s)"

text \<open>\<open>chars().take(n).collect()\<close>: everything before the \<open>n + 1\<close>st leading byte.\<close>

fun take_chars :: "nat \<Rightarrow> string \<Rightarrow> string" where
  "take_chars n [] = []"
| "take_chars n (c # cs) =
     (if is_utf8_cont c then c # take_chars n cs
      else (case n of 0 \<Rightarrow> [] | Suc m \<Rightarrow> c # take_chars m cs))"

lemma byte_bound: "byte c < 256"
  using of_char_of [where 'a = nat, of "byte c"] by (metis mod_less_divisor of_char_mod_256 zero_less_numeral)

lemma byte_char_of [simp]: "n < 256 \<Longrightarrow> byte (char_of n) = n"
  by (simp add: of_char_of)

lemma byte_ascii_lower:
  "byte (ascii_lower c) = (if 65 \<le> byte c \<and> byte c \<le> 90 then byte c + 32 else byte c)"
  by (simp add: ascii_lower_def)

lemma ascii_lower_idem [simp]: "ascii_lower (ascii_lower c) = ascii_lower c"
  by (simp add: ascii_lower_def)

lemma to_ascii_lowercase_idem [simp]: "to_ascii_lowercase (to_ascii_lowercase s) = to_ascii_lowercase s"
  by (simp add: to_ascii_lowercase_def)

lemma to_ascii_lowercase_Nil_iff [simp]: "to_ascii_lowercase s = [] \<longleftrightarrow> s = []"
  by (simp add: to_ascii_lowercase_def)

lemma length_to_ascii_lowercase [simp]: "length (to_ascii_lowercase s) = length s"
  by (simp add: to_ascii_lowercase_def)

lemma eq_ignore_ascii_case_refl [simp]: "eq_ignore_ascii_case a a"
  by (simp add: eq_ignore_ascii_case_def)

lemma chars_count_le: "chars_count s \<le> length s"
  by (simp add: chars_count_def)

lemma chars_count_take_chars: "chars_count (take_chars n s) = min n (chars_count s)"
  by (induction n s rule: take_chars.induct) (auto simp: chars_count_def split: nat.splits)

lemma take_chars_id: "chars_count s \<le> n \<Longrightarrow> take_chars n s = s"
  by (induction n s rule: take_chars.induct) (auto simp: chars_count_def split: nat.splits if_splits)

section \<open>Prefixes\<close>

definition starts_with :: "string \<Rightarrow> string \<Rightarrow> bool" where
  "starts_with p s \<longleftrightarrow> take (length p) s = p"

definition ends_with :: "string \<Rightarrow> string \<Rightarrow> bool" where
  "ends_with p s \<longleftrightarrow> starts_with (rev p) (rev s)"

definition strip_prefix :: "string \<Rightarrow> string \<Rightarrow> string option" where
  "strip_prefix p s = (if starts_with p s then Some (drop (length p) s) else None)"

lemma starts_with_append: "starts_with p s \<longleftrightarrow> (\<exists>t. s = p @ t)"
  unfolding starts_with_def by (metis append_eq_conv_conj)

lemma starts_with_Nil [simp]: "starts_with [] s"
  by (simp add: starts_with_def)

lemma starts_with_Cons [simp]:
  "starts_with (c # p) s \<longleftrightarrow> (\<exists>t. s = c # t \<and> starts_with p t)"
  by (cases s) (auto simp: starts_with_def)

lemma starts_with_extend: "starts_with p s \<Longrightarrow> starts_with p (s @ t)"
  by (auto simp: starts_with_append)

lemma strip_prefix_Some_iff [simp]: "strip_prefix p s = Some t \<longleftrightarrow> s = p @ t"
  by (auto simp: strip_prefix_def starts_with_append)

lemma strip_prefix_None_iff: "strip_prefix p s = None \<longleftrightarrow> \<not> starts_with p s"
  by (simp add: strip_prefix_def)

section \<open>Trimming\<close>

text \<open>The UTF-8 encodings of the characters with the Unicode property \<open>White_Space\<close>.\<close>

definition ws_encodings :: "string list" where
  "ws_encodings =
     [[CHR 0x09], [CHR 0x0A], [CHR 0x0B], [CHR 0x0C], [CHR 0x0D], [CHR 0x20],
      [CHR 0xC2, CHR 0x85], [CHR 0xC2, CHR 0xA0], [CHR 0xE1, CHR 0x9A, CHR 0x80],
      [CHR 0xE2, CHR 0x80, CHR 0x80], [CHR 0xE2, CHR 0x80, CHR 0x81],
      [CHR 0xE2, CHR 0x80, CHR 0x82], [CHR 0xE2, CHR 0x80, CHR 0x83],
      [CHR 0xE2, CHR 0x80, CHR 0x84], [CHR 0xE2, CHR 0x80, CHR 0x85],
      [CHR 0xE2, CHR 0x80, CHR 0x86], [CHR 0xE2, CHR 0x80, CHR 0x87],
      [CHR 0xE2, CHR 0x80, CHR 0x88], [CHR 0xE2, CHR 0x80, CHR 0x89],
      [CHR 0xE2, CHR 0x80, CHR 0x8A], [CHR 0xE2, CHR 0x80, CHR 0xA8],
      [CHR 0xE2, CHR 0x80, CHR 0xA9], [CHR 0xE2, CHR 0x80, CHR 0xAF],
      [CHR 0xE2, CHR 0x81, CHR 0x9F], [CHR 0xE3, CHR 0x80, CHR 0x80]]"

definition leading_ws :: "string list \<Rightarrow> string \<Rightarrow> string option" where
  "leading_ws ws s = find (\<lambda>w. w \<noteq> [] \<and> starts_with w s) ws"

function strip_leading :: "string list \<Rightarrow> string \<Rightarrow> string" where
  "strip_leading ws s =
     (case leading_ws ws s of None \<Rightarrow> s | Some w \<Rightarrow> strip_leading ws (drop (length w) s))"
  by pat_completeness auto
termination
proof (relation "measure (\<lambda>(ws, s). length s)", simp)
  fix ws s w
  assume "leading_ws ws s = Some w"
  then have "w \<noteq> []" and "starts_with w s"
    by (auto simp: leading_ws_def find_Some_iff)
  then show "((ws, drop (length w) s), ws, s) \<in> measure (\<lambda>(ws, s). length s)"
    by (cases s) (auto simp: starts_with_append)
qed

declare strip_leading.simps [simp del]

definition trim_start :: "string \<Rightarrow> string" where
  "trim_start s = strip_leading ws_encodings s"

definition trim_end :: "string \<Rightarrow> string" where
  "trim_end s = rev (strip_leading (map rev ws_encodings) (rev s))"

definition trim :: "string \<Rightarrow> string" where
  "trim s = trim_end (trim_start s)"

lemma leading_ws_strip_leading [simp]: "leading_ws ws (strip_leading ws s) = None"
proof (induction ws s rule: strip_leading.induct)
  case (1 ws s)
  then show ?case
    by (cases "leading_ws ws s") (simp_all add: strip_leading.simps [of ws s])
qed

lemma strip_leading_id: "leading_ws ws s = None \<Longrightarrow> strip_leading ws s = s"
  by (simp add: strip_leading.simps)

lemma strip_leading_suffix: "\<exists>p. s = p @ strip_leading ws s"
proof (induction ws s rule: strip_leading.induct)
  case (1 ws s)
  show ?case
  proof (cases "leading_ws ws s")
    case None
    then show ?thesis by (simp add: strip_leading_id)
  next
    case (Some w)
    with 1 obtain p where "drop (length w) s = p @ strip_leading ws (drop (length w) s)"
      by blast
    with Some have "s = (take (length w) s @ p) @ strip_leading ws s"
      by (metis append.assoc append_take_drop_id option.simps(5) strip_leading.simps)
    then show ?thesis by blast
  qed
qed

lemma leading_ws_prefix_None: "leading_ws ws (s @ t) = None \<Longrightarrow> leading_ws ws s = None"
  by (auto simp: leading_ws_def find_None_iff dest: starts_with_extend)

lemma trim_end_prefix: "\<exists>t. s = trim_end s @ t"
  using strip_leading_suffix [of "rev s" "map rev ws_encodings"]
  by (metis trim_end_def rev_append rev_rev_ident)

lemma trim_end_idem [simp]: "trim_end (trim_end s) = trim_end s"
  by (simp add: trim_end_def strip_leading_id)

lemma trim_start_idem [simp]: "trim_start (trim_start s) = trim_start s"
  by (simp add: trim_start_def strip_leading_id)

lemma trim_start_trim: "trim_start (trim s) = trim s"
proof -
  obtain t where "trim_start s = trim s @ t"
    using trim_end_prefix unfolding trim_def by blast
  then have "leading_ws ws_encodings (trim s) = None"
    by (metis leading_ws_prefix_None leading_ws_strip_leading trim_start_def)
  then show ?thesis by (simp add: trim_start_def strip_leading_id)
qed

lemma trim_idem [simp, str_simps]: "trim (trim s) = trim s"
  by (metis trim_def trim_end_idem trim_start_trim)

lemma trim_Nil [simp]: "trim [] = []"
proof -
  have "strip_leading ws [] = []" for ws
    using strip_leading_suffix [of "[]" ws] by simp
  then show ?thesis by (simp add: trim_def trim_start_def trim_end_def)
qed

subsection \<open>Character maps that keep white space\<close>

text \<open>
  A map on bytes that fixes the bytes occurring in white space and sends no other byte to
  them commutes with trimming: case folding and the replacement of backslashes do.
\<close>

definition ws_bytes :: "char set" where
  "ws_bytes = (\<Union>w \<in> set ws_encodings. set w)"

definition keeps_ws :: "(char \<Rightarrow> char) \<Rightarrow> bool" where
  "keeps_ws f \<longleftrightarrow> (\<forall>c. (c \<in> ws_bytes \<longrightarrow> f c = c) \<and> (f c \<in> ws_bytes \<longrightarrow> c \<in> ws_bytes))"

lemma ws_bytes_code:
  "c \<in> ws_bytes \<longleftrightarrow> list_ex (\<lambda>w. List.member w c) ws_encodings"
  by (auto simp: ws_bytes_def list_ex_iff)

lemma starts_with_map_keeps:
  assumes "keeps_ws f" and "set w \<subseteq> ws_bytes"
  shows "starts_with w (map f s) \<longleftrightarrow> starts_with w s"
  using assms(2)
proof (induction w arbitrary: s)
  case (Cons c w)
  have iff: "f d = c \<longleftrightarrow> d = c" for d
    using assms(1) Cons.prems unfolding keeps_ws_def by (metis list.set_intros(1) subsetD)
  have IH: "starts_with w (map f t) = starts_with w t" for t
    using Cons by simp
  show ?case
  proof (cases s)
    case (Cons d t)
    then show ?thesis using iff [of d] IH [of t] by simp
  qed simp
qed simp

lemma leading_ws_map_keeps:
  assumes "keeps_ws f" and "\<And>w. w \<in> set ws \<Longrightarrow> set w \<subseteq> ws_bytes"
  shows "leading_ws ws (map f s) = leading_ws ws s"
  unfolding leading_ws_def
  by (rule find_cong) (auto simp: starts_with_map_keeps assms)

lemma strip_leading_map_keeps:
  assumes "keeps_ws f" and "\<And>w. w \<in> set ws \<Longrightarrow> set w \<subseteq> ws_bytes"
  shows "strip_leading ws (map f s) = map f (strip_leading ws s)"
  using assms(2)
proof (induction ws s rule: strip_leading.induct)
  case (1 ws s)
  have eq: "leading_ws ws (map f s) = leading_ws ws s"
    by (rule leading_ws_map_keeps) (use assms(1) "1.prems" in auto)
  show ?case
  proof (cases "leading_ws ws s")
    case None
    with eq show ?thesis by (simp add: strip_leading_id)
  next
    case (Some w)
    have "strip_leading ws (drop (length w) (map f s)) = map f (strip_leading ws (drop (length w) s))"
      using "1.IH" [OF Some] "1.prems" by (simp add: drop_map)
    with Some eq show ?thesis
      by (simp add: strip_leading.simps [of ws s] strip_leading.simps [of ws "map f s"])
  qed
qed

lemma trim_map_keeps:
  assumes "keeps_ws f" shows "trim (map f s) = map f (trim s)"
proof -
  have "strip_leading ws_encodings (map f t) = map f (strip_leading ws_encodings t)" for t
    by (rule strip_leading_map_keeps [OF assms]) (auto simp: ws_bytes_def)
  moreover have "strip_leading (map rev ws_encodings) (map f t)
      = map f (strip_leading (map rev ws_encodings) t)" for t
    by (rule strip_leading_map_keeps [OF assms]) (auto simp: ws_bytes_def)
  ultimately show ?thesis
    by (simp add: trim_def trim_start_def trim_end_def rev_map)
qed

lemma keeps_ws_lower: "keeps_ws ascii_lower"
proof -
  have "\<forall>c \<in> ws_bytes. byte c < 65 \<or> 122 < byte c"
    by (auto simp: ws_bytes_def ws_encodings_def)
  then show ?thesis
    unfolding keeps_ws_def by (auto simp: ascii_lower_def)
qed

lemma trim_lower [str_simps]: "trim (to_ascii_lowercase s) = to_ascii_lowercase (trim s)"
  by (simp add: to_ascii_lowercase_def trim_map_keeps keeps_ws_lower)

subsection \<open>Replacing a character\<close>

definition replace_char :: "char \<Rightarrow> char \<Rightarrow> string \<Rightarrow> string" where
  "replace_char a b s = map (\<lambda>c. if c = a then b else c) s"

lemma replace_char_absent: "a \<notin> set s \<Longrightarrow> replace_char a b s = s"
  unfolding replace_char_def by (rule map_idI) auto

lemma replace_char_removes: "a \<noteq> b \<Longrightarrow> a \<notin> set (replace_char a b s)"
  by (auto simp: replace_char_def)

lemma replace_char_idem [simp]:
  "a \<noteq> b \<Longrightarrow> replace_char a b (replace_char a b s) = replace_char a b s"
  by (rule replace_char_absent) (rule replace_char_removes)

lemma keeps_ws_replace:
  "a \<notin> ws_bytes \<Longrightarrow> b \<notin> ws_bytes \<Longrightarrow> keeps_ws (\<lambda>c. if c = a then b else c)"
  by (auto simp: keeps_ws_def)

text \<open>Backslashes (the byte 92) replaced by slashes.\<close>

definition slashed :: "string \<Rightarrow> string" where
  "slashed s = replace_char (CHR 92) (CHR ''/'') s"

lemma ws_bytes_not_slash: "CHR 92 \<notin> ws_bytes" "CHR ''/'' \<notin> ws_bytes"
  by (simp_all add: ws_bytes_def ws_encodings_def)

lemma trim_slashed: "trim (slashed s) = slashed (trim s)"
  unfolding slashed_def replace_char_def
  by (rule trim_map_keeps, rule keeps_ws_replace) (rule ws_bytes_not_slash)+

lemma slashed_idem [simp]: "slashed (slashed s) = slashed s"
  by (simp add: slashed_def)

section \<open>Splitting and joining\<close>

text \<open>\<open>split(c)\<close> always yields at least one piece.\<close>

fun split_on :: "char \<Rightarrow> string \<Rightarrow> string list" where
  "split_on d [] = [[]]"
| "split_on d (c # cs) =
     (if c = d then [] # split_on d cs
      else (case split_on d cs of [] \<Rightarrow> [[c]] | p # ps \<Rightarrow> (c # p) # ps))"

fun join :: "string \<Rightarrow> string list \<Rightarrow> string" where
  "join d [] = []"
| "join d [p] = p"
| "join d (p # q # ps) = p @ d @ join d (q # ps)"

lemma split_on_not_Nil [simp]: "split_on d s \<noteq> []"
  by (cases s) (auto split: list.splits)

lemma join_Cons: "join d (p # ps) = (if ps = [] then p else p @ d @ join d ps)"
  by (cases ps) auto

lemma join_split_on: "join [d] (split_on d s) = s"
proof (induction s)
  case (Cons c cs)
  then show ?case
    by (cases "split_on d cs") (auto simp: join_Cons)
qed simp

lemma split_on_free: "p \<in> set (split_on d s) \<Longrightarrow> d \<notin> set p"
proof (induction s arbitrary: p)
  case (Cons c cs)
  then show ?case by (cases "split_on d cs") (auto split: if_splits)
qed simp

lemma split_on_append: "d \<notin> set p \<Longrightarrow> split_on d (p @ d # s) = p # split_on d s"
  by (induction p) auto

lemma split_on_single: "d \<notin> set p \<Longrightarrow> split_on d p = [p]"
  by (induction p) auto

lemma split_on_join:
  "ps \<noteq> [] \<Longrightarrow> (\<And>p. p \<in> set ps \<Longrightarrow> d \<notin> set p) \<Longrightarrow> split_on d (join [d] ps) = ps"
  by (induction "[d]" ps rule: join.induct) (auto simp: split_on_append split_on_single)

text \<open>\<open>contains(p)\<close> for a string pattern.\<close>

fun contains :: "string \<Rightarrow> string \<Rightarrow> bool" where
  "contains p [] = (p = [])"
| "contains p (c # cs) = (starts_with p (c # cs) \<or> contains p cs)"

section \<open>Decimal digits\<close>

function decimal :: "nat \<Rightarrow> string" where
  "decimal n = (if n < 10 then [char_of (48 + n)] else decimal (n div 10) @ [char_of (48 + n mod 10)])"
  by pat_completeness auto
termination by (relation "measure id") auto

declare decimal.simps [simp del]

definition is_digit :: "char \<Rightarrow> bool" where
  "is_digit c \<longleftrightarrow> 48 \<le> byte c \<and> byte c \<le> 57"

definition digit_value :: "char \<Rightarrow> nat" where
  "digit_value c = byte c - 48"

definition decimal_value :: "string \<Rightarrow> nat" where
  "decimal_value s = foldl (\<lambda>n c. 10 * n + digit_value c) 0 s"

text \<open>\<open>str::parse\<close> for an unsigned integer of at most \<open>limit\<close>: an optional plus sign, digits.\<close>

definition parse_unsigned :: "nat \<Rightarrow> string \<Rightarrow> nat option" where
  "parse_unsigned limit s =
     (let digits = (case strip_prefix ''+'' s of Some d \<Rightarrow> d | None \<Rightarrow> s) in
      if digits \<noteq> [] \<and> list_all is_digit digits \<and> decimal_value digits \<le> limit
      then Some (decimal_value digits) else None)"

lemma digit_value_char_of [simp]: "(d::nat) < 10 \<Longrightarrow> digit_value (char_of (48 + d)) = d"
  by (simp add: digit_value_def)

lemma is_digit_char_of [simp]: "(d::nat) < 10 \<Longrightarrow> is_digit (char_of (48 + d))"
  by (simp add: is_digit_def)

lemma decimal_digits: "list_all is_digit (decimal n)" "decimal n \<noteq> []"
  by (induction n rule: decimal.induct) (subst decimal.simps, simp)+

lemma decimal_value_decimal [simp]: "decimal_value (decimal n) = n"
proof (induction n rule: decimal.induct)
  case (1 n)
  show ?case
  proof (cases "n < 10")
    case True
    then show ?thesis by (subst decimal.simps) (simp add: decimal_value_def)
  next
    case False
    with 1 have "foldl (\<lambda>n c. 10 * n + digit_value c) 0 (decimal (n div 10)) = n div 10"
      by (simp add: decimal_value_def)
    with False show ?thesis
      by (subst decimal.simps) (simp add: decimal_value_def)
  qed
qed

lemma decimal_inj: "decimal m = decimal n \<longleftrightarrow> m = n"
  by (metis decimal_value_decimal)

lemma parse_unsigned_decimal: "n \<le> limit \<Longrightarrow> parse_unsigned limit (decimal n) = Some n"
proof -
  have "strip_prefix ''+'' (decimal n) = None"
    using decimal_digits [of n] by (cases "decimal n") (auto simp: strip_prefix_None_iff is_digit_def)
  then show "n \<le> limit \<Longrightarrow> ?thesis"
    by (simp add: parse_unsigned_def decimal_digits)
qed

end
