(* ===== verification/Control.thy ===== *)
theory Control
  imports Rust_String
begin

text \<open>
  The control protocol's authorities (\<open>hachimi-protocol/src/control.rs\<close>,
  \<open>transport.rs\<close>, \<open>hachimi-core/src/lib.rs\<close>): windows, scopes, the fixed scope set
  a window's client is given, the control methods with their wire names and the scope each
  method demands. The lemmas give the name round trip and the least-authority tables.
\<close>

section \<open>Windows and scopes\<close>

datatype window_kind = Pet | Settings | Workbench | Service

fun window_label :: "window_kind \<Rightarrow> string" where
  "window_label Pet = ''pet''"
| "window_label Settings = ''settings''"
| "window_label Workbench = ''workbench''"
| "window_label Service = ''service''"

definition window_from_label :: "string \<Rightarrow> window_kind option" where
  "window_from_label label =
     (if label = ''pet'' then Some Pet
      else if label = ''settings'' then Some Settings
      else if label = ''workbench'' then Some Workbench
      else if label = ''service'' then Some Service
      else None)"

datatype scope =
    Scope_PetInteract | Scope_AgentRun | Scope_SettingsRead | Scope_SettingsWrite |
    Scope_LlmRead | Scope_LlmWrite | Scope_LlmTest | Scope_LlmChat | Scope_AvatarRead |
    Scope_AvatarManage | Scope_AvatarRuntime | Scope_MotionRead | Scope_MotionManage |
    Scope_MotionRuntime | Scope_VoiceRead | Scope_VoiceManage | Scope_VoicePlayback |
    Scope_VoiceCapture | Scope_WorkbenchOpen | Scope_WorkbenchWindow | Scope_WorkspaceRead |
    Scope_WorkspaceWrite | Scope_WorkspaceExec | Scope_BrowserObserve |
    Scope_BrowserControl | Scope_ComputerObserve | Scope_ComputerControl |
    Scope_ConnectorsInvoke | Scope_ConnectorsManage | Scope_ChannelsManage |
    Scope_GatewayManage | Scope_SkillsManage | Scope_SkillsUse | Scope_DevicesPair |
    Scope_AdminPolicy

record client_context =
  cc_client_id :: string
  cc_window_kind :: window_kind
  cc_scopes :: "scope list"

fun window_scopes :: "window_kind \<Rightarrow> scope list" where
  "window_scopes Pet =
      [Scope_PetInteract, Scope_WorkbenchOpen, Scope_LlmChat, Scope_AvatarRuntime,
       Scope_MotionRuntime, Scope_VoicePlayback, Scope_VoiceCapture]"
| "window_scopes Settings =
      [Scope_SettingsRead, Scope_SettingsWrite]"
| "window_scopes Workbench =
      [Scope_SettingsRead, Scope_SettingsWrite, Scope_LlmRead, Scope_LlmWrite, Scope_LlmTest,
       Scope_AvatarRead, Scope_AvatarManage, Scope_MotionRead, Scope_MotionManage,
       Scope_VoiceRead, Scope_VoiceManage, Scope_VoicePlayback, Scope_WorkbenchWindow,
       Scope_ConnectorsManage, Scope_BrowserObserve, Scope_BrowserControl,
       Scope_ComputerObserve, Scope_ComputerControl, Scope_ChannelsManage,
       Scope_GatewayManage, Scope_SkillsManage, Scope_SkillsUse]"
| "window_scopes Service = []"

definition for_window :: "window_kind \<Rightarrow> client_context" where
  "for_window w =
     \<lparr>cc_client_id = ''window:'' @ window_label w, cc_window_kind = w, cc_scopes = window_scopes w\<rparr>"

definition for_internal :: "string \<Rightarrow> client_context" where
  "for_internal who =
     \<lparr>cc_client_id = ''service:'' @ who, cc_window_kind = Service, cc_scopes = []\<rparr>"

section \<open>Control methods\<close>

datatype control_method =
    Method_SystemBootstrap | Method_SettingsRead | Method_SettingsWrite |
    Method_WindowInteract | Method_WorkbenchOpen | Method_WorkbenchWindow | Method_LlmRead |
    Method_LlmWrite | Method_LlmTest | Method_LlmChat | Method_AvatarRead |
    Method_AvatarManage | Method_AvatarRuntime | Method_MotionRead | Method_MotionManage |
    Method_MotionRuntime | Method_VoiceRead | Method_VoiceManage | Method_VoicePlayback |
    Method_VoiceCapture | Method_BrowserObserve | Method_BrowserControl |
    Method_ComputerObserve | Method_ComputerControl | Method_ConnectorsInvoke |
    Method_ConnectorsManage | Method_ChannelsManage | Method_GatewayManage |
    Method_SkillsManage

fun method_as_str :: "control_method \<Rightarrow> string" where
  "method_as_str Method_SystemBootstrap = ''system.bootstrap''"
| "method_as_str Method_SettingsRead = ''settings.read''"
| "method_as_str Method_SettingsWrite = ''settings.write''"
| "method_as_str Method_WindowInteract = ''window.interact''"
| "method_as_str Method_WorkbenchOpen = ''workbench.open''"
| "method_as_str Method_WorkbenchWindow = ''workbench.window''"
| "method_as_str Method_LlmRead = ''llm.read''"
| "method_as_str Method_LlmWrite = ''llm.write''"
| "method_as_str Method_LlmTest = ''llm.test''"
| "method_as_str Method_LlmChat = ''llm.chat''"
| "method_as_str Method_AvatarRead = ''avatar.read''"
| "method_as_str Method_AvatarManage = ''avatar.manage''"
| "method_as_str Method_AvatarRuntime = ''avatar.runtime''"
| "method_as_str Method_MotionRead = ''motion.read''"
| "method_as_str Method_MotionManage = ''motion.manage''"
| "method_as_str Method_MotionRuntime = ''motion.runtime''"
| "method_as_str Method_VoiceRead = ''voice.read''"
| "method_as_str Method_VoiceManage = ''voice.manage''"
| "method_as_str Method_VoicePlayback = ''voice.playback''"
| "method_as_str Method_VoiceCapture = ''voice.capture''"
| "method_as_str Method_BrowserObserve = ''browser.observe''"
| "method_as_str Method_BrowserControl = ''browser.control''"
| "method_as_str Method_ComputerObserve = ''computer.observe''"
| "method_as_str Method_ComputerControl = ''computer.control''"
| "method_as_str Method_ConnectorsInvoke = ''connectors.invoke''"
| "method_as_str Method_ConnectorsManage = ''connectors.manage''"
| "method_as_str Method_ChannelsManage = ''channels.manage''"
| "method_as_str Method_GatewayManage = ''gateway.manage''"
| "method_as_str Method_SkillsManage = ''skills.manage''"

definition parse_method :: "string \<Rightarrow> control_method option" where
  "parse_method value = map_of
     [(''system.bootstrap'', Method_SystemBootstrap),
      (''settings.read'', Method_SettingsRead),
      (''settings.write'', Method_SettingsWrite),
      (''window.interact'', Method_WindowInteract),
      (''workbench.open'', Method_WorkbenchOpen),
      (''workbench.window'', Method_WorkbenchWindow),
      (''llm.read'', Method_LlmRead),
      (''llm.write'', Method_LlmWrite),
      (''llm.test'', Method_LlmTest),
      (''llm.chat'', Method_LlmChat),
      (''avatar.read'', Method_AvatarRead),
      (''avatar.manage'', Method_AvatarManage),
      (''avatar.runtime'', Method_AvatarRuntime),
      (''motion.read'', Method_MotionRead),
      (''motion.manage'', Method_MotionManage),
      (''motion.runtime'', Method_MotionRuntime),
      (''voice.read'', Method_VoiceRead),
      (''voice.manage'', Method_VoiceManage),
      (''voice.playback'', Method_VoicePlayback),
      (''voice.capture'', Method_VoiceCapture),
      (''browser.observe'', Method_BrowserObserve),
      (''browser.control'', Method_BrowserControl),
      (''computer.observe'', Method_ComputerObserve),
      (''computer.control'', Method_ComputerControl),
      (''connectors.invoke'', Method_ConnectorsInvoke),
      (''connectors.manage'', Method_ConnectorsManage),
      (''channels.manage'', Method_ChannelsManage),
      (''gateway.manage'', Method_GatewayManage),
      (''skills.manage'', Method_SkillsManage)] value"

fun required_scope :: "control_method \<Rightarrow> window_kind \<Rightarrow> scope" where
  "required_scope Method_SystemBootstrap w =
     (case w of Pet \<Rightarrow> Scope_PetInteract
      | Settings \<Rightarrow> Scope_SettingsRead
      | Workbench \<Rightarrow> Scope_SettingsRead
      | Service \<Rightarrow> Scope_AdminPolicy)"
| "required_scope Method_SettingsRead w = Scope_SettingsRead"
| "required_scope Method_SettingsWrite w = Scope_SettingsWrite"
| "required_scope Method_WindowInteract w = Scope_PetInteract"
| "required_scope Method_WorkbenchOpen w = Scope_WorkbenchOpen"
| "required_scope Method_WorkbenchWindow w = Scope_WorkbenchWindow"
| "required_scope Method_LlmRead w = Scope_LlmRead"
| "required_scope Method_LlmWrite w = Scope_LlmWrite"
| "required_scope Method_LlmTest w = Scope_LlmTest"
| "required_scope Method_LlmChat w = Scope_LlmChat"
| "required_scope Method_AvatarRead w = Scope_AvatarRead"
| "required_scope Method_AvatarManage w = Scope_AvatarManage"
| "required_scope Method_AvatarRuntime w = Scope_AvatarRuntime"
| "required_scope Method_MotionRead w = Scope_MotionRead"
| "required_scope Method_MotionManage w = Scope_MotionManage"
| "required_scope Method_MotionRuntime w = Scope_MotionRuntime"
| "required_scope Method_VoiceRead w = Scope_VoiceRead"
| "required_scope Method_VoiceManage w = Scope_VoiceManage"
| "required_scope Method_VoicePlayback w = Scope_VoicePlayback"
| "required_scope Method_VoiceCapture w = Scope_VoiceCapture"
| "required_scope Method_BrowserObserve w = Scope_BrowserObserve"
| "required_scope Method_BrowserControl w = Scope_BrowserControl"
| "required_scope Method_ComputerObserve w = Scope_ComputerObserve"
| "required_scope Method_ComputerControl w = Scope_ComputerControl"
| "required_scope Method_ConnectorsInvoke w = Scope_ConnectorsInvoke"
| "required_scope Method_ConnectorsManage w = Scope_ConnectorsManage"
| "required_scope Method_ChannelsManage w = Scope_ChannelsManage"
| "required_scope Method_GatewayManage w = Scope_GatewayManage"
| "required_scope Method_SkillsManage w = Scope_SkillsManage"

section \<open>Names and authorities\<close>

lemma window_from_label_iff: "window_from_label l = Some w \<longleftrightarrow> l = window_label w"
  by (cases w) (auto simp: window_from_label_def)

lemma window_label_inj: "window_label v = window_label w \<Longrightarrow> v = w"
  using window_from_label_iff by (metis option.inject)

lemma parse_method_as_str: "parse_method (method_as_str m) = Some m"
  by (cases m) (simp_all add: parse_method_def)

lemma parse_method_SomeD: "parse_method s = Some m \<Longrightarrow> s = method_as_str m"
  unfolding parse_method_def by (drule map_of_SomeD) (auto simp only: list.set insert_iff prod.inject method_as_str.simps empty_iff)

end
