(* ===== verification/Permissions.thy ===== *)
theory Permissions
  imports Agent_Enums Control
begin

text \<open>
  The permission data of the agent (\<open>hachimi-protocol/src/agent/permissions.rs\<close> and the
  grant types of \<open>hachimi-protocol/src/agent.rs\<close>): profiles, tool effects, the scoped
  rules a user edits, the grant set a run executes under, and the two typed lookups
  \<open>allows_mcp\<close> and \<open>allows_connector\<close>.
\<close>

section \<open>Modes and profiles\<close>

datatype workload_kind = General | Coding | Office
datatype behavior_mode = Default_Mode | Plan
datatype approval_policy = OnlyWhenNeeded | AlwaysAskSideEffects | NeverPrompt
datatype permission_profile = ReadOnly | Writable | FullAccess
datatype authority_mode = Interactive | Unattended
datatype grant_scope = Session_Scope | Run_Scope

datatype tool_effect =
    Effect_ReadOnly | WorkspaceWrite | Process | ExternalSideEffect
  | BrowserObserve | BrowserAct | ComputerObserve | ComputerAct

section \<open>Grants\<close>

datatype fs_access = Read | Write | Deny

record fs_grant =
  fg_access :: fs_access
  fg_roots :: "string list"
  fg_globs :: "string list"
  fg_files :: "string list"
  fg_special_roots :: "string list"

record network_grant =
  ng_enabled :: bool
  ng_unrestricted_hosts :: bool
  ng_hosts :: "string list"
  ng_protocols :: "string list"

record process_grant =
  pg_spawn :: bool
  pg_interactive :: bool
  pg_unrestricted_commands :: bool
  pg_allowed_commands :: "string list"

record computer_grant =
  cg_observe :: bool
  cg_act :: bool
  cg_unrestricted_targets :: bool
  cg_allowed_applications :: "string list"
  cg_max_actions :: "nat option"

record browser_grant =
  bg_observe :: bool
  bg_act :: bool
  bg_upload :: bool
  bg_download :: bool
  bg_cookie_storage :: bool
  bg_cdp :: bool
  bg_unrestricted_origins :: bool
  bg_origins :: "string list"

definition default_network :: network_grant where
  "default_network = \<lparr>ng_enabled = False, ng_unrestricted_hosts = False, ng_hosts = [], ng_protocols = []\<rparr>"

definition default_process :: process_grant where
  "default_process =
     \<lparr>pg_spawn = False, pg_interactive = False, pg_unrestricted_commands = False, pg_allowed_commands = []\<rparr>"

definition default_computer :: computer_grant where
  "default_computer =
     \<lparr>cg_observe = False, cg_act = False, cg_unrestricted_targets = False,
      cg_allowed_applications = [], cg_max_actions = None\<rparr>"

definition default_browser :: browser_grant where
  "default_browser =
     \<lparr>bg_observe = False, bg_act = False, bg_upload = False, bg_download = False,
      bg_cookie_storage = False, bg_cdp = False, bg_unrestricted_origins = False, bg_origins = []\<rparr>"

section \<open>The persisted policy\<close>

record mcp_rule =
  mr_server_id :: string
  mr_tool_name :: string
  mr_schema_hash :: string
  mr_read_only :: bool

record connector_rule =
  cr_account_id :: string
  cr_actions :: "string list"
  cr_read_only_actions :: "string list"
  cr_contribution_revision :: string

record scoped_rules =
  sr_file_system :: "fs_grant list"
  sr_unrestricted_read :: bool
  sr_unrestricted_write :: bool
  sr_network :: network_grant
  sr_process :: process_grant
  sr_browser :: browser_grant
  sr_computer :: computer_grant
  sr_mcp :: "mcp_rule list"
  sr_connectors :: "connector_rule list"

definition default_rules :: scoped_rules where
  "default_rules =
     \<lparr>sr_file_system = [], sr_unrestricted_read = False, sr_unrestricted_write = False,
      sr_network = default_network, sr_process = default_process, sr_browser = default_browser,
      sr_computer = default_computer, sr_mcp = [], sr_connectors = []\<rparr>"

record permission_policy =
  pp_level :: permission_profile
  pp_rules :: scoped_rules
  pp_revision :: nat

definition default_policy :: permission_policy where
  "default_policy = \<lparr>pp_level = ReadOnly, pp_rules = default_rules, pp_revision = 0\<rparr>"

record capability_grant_set =
  gs_profile :: permission_profile
  gs_scope :: grant_scope
  gs_session_id :: string
  gs_run_id :: "string option"
  gs_source :: string
  gs_file_system :: "fs_grant list"
  gs_network :: network_grant
  gs_process :: process_grant
  gs_browser :: browser_grant
  gs_computer :: computer_grant
  gs_review_each_command :: bool
  gs_expires_at_ms :: "int option"

section \<open>Typed lookups\<close>

definition allows_mcp :: "permission_policy \<Rightarrow> string \<Rightarrow> string \<Rightarrow> string \<Rightarrow> bool \<Rightarrow> bool" where
  "allows_mcp p server_id tool_name schema_hash requires_write \<longleftrightarrow>
     pp_level p = FullAccess \<or>
     (pp_level p \<noteq> ReadOnly \<or> \<not> requires_write) \<and>
     list_ex (\<lambda>r. mr_server_id r = server_id \<and> mr_tool_name r = tool_name \<and>
         mr_schema_hash r = schema_hash \<and> (\<not> requires_write \<or> \<not> mr_read_only r))
       (sr_mcp (pp_rules p))"

definition allows_connector :: "permission_policy \<Rightarrow> string \<Rightarrow> string \<Rightarrow> bool \<Rightarrow> bool" where
  "allows_connector p account_id action requires_write \<longleftrightarrow>
     pp_level p = FullAccess \<or>
     (pp_level p \<noteq> ReadOnly \<or> \<not> requires_write) \<and>
     list_ex (\<lambda>r. cr_account_id r = account_id \<and> list_ex (\<lambda>a. a = action) (cr_actions r) \<and>
         (\<not> requires_write \<or> \<not> list_ex (\<lambda>a. a = action) (cr_read_only_actions r)))
       (sr_connectors (pp_rules p))"

end
