(* ===== verification/Policy_Normalize.thy ===== *)
theory Policy_Normalize
  imports Permissions
begin

text \<open>
  \<open>normalize_permission_policy\<close> of \<open>hachimi-policy/src/lib.rs\<close> and its helpers. The file
  system, the platform's path syntax, Unicode lower-casing and the \<open>url\<close> crate are the
  fields of the record \<open>os_env\<close>; a \<open>path\<close> is what \<open>std::path\<close> makes of it, a root and its
  components. The result is an error or the normalised policy; what a failing call leaves in
  its argument is not modelled, since its callers discard it.
\<close>

section \<open>The environment\<close>

datatype component = Normal string | CurDir | ParentDir

record path =
  path_root :: string
  path_comps :: "component list"

record url =
  url_scheme :: string
  url_host_str :: "string option"
  url_username :: string
  url_password :: "string option"
  url_path :: string
  url_query :: "string option"
  url_fragment :: "string option"
  url_origin :: string

record os_env =
  cfg_windows :: bool
  parse_path :: "string \<Rightarrow> path"
  show_path :: "path \<Rightarrow> string"
  canonicalize :: "path \<Rightarrow> path option"
  is_dir :: "path \<Rightarrow> bool"
  is_file :: "path \<Rightarrow> bool"
  to_lowercase :: "string \<Rightarrow> string"
  parse_url :: "string \<Rightarrow> url option"

definition display_path :: "os_env \<Rightarrow> path \<Rightarrow> string" where
  "display_path env p =
     (let value = show_path env p in
      if cfg_windows env then
        (case strip_prefix [CHR 92, CHR 92, CHR ''?'', CHR 92, CHR ''U'', CHR ''N'', CHR ''C'', CHR 92] value of
           Some rest \<Rightarrow> [CHR 92, CHR 92] @ rest
         | None \<Rightarrow>
             (case strip_prefix [CHR 92, CHR 92, CHR ''?'', CHR 92] value of
                Some rest \<Rightarrow> rest
              | None \<Rightarrow> value))
      else value)"

section \<open>String lists\<close>

definition trimmed_non_empty :: "string list \<Rightarrow> string list" where
  "trimmed_non_empty vals = filter (\<lambda>v. v \<noteq> []) (map trim vals)"

definition normalize_strings :: "string list \<Rightarrow> string list" where
  "normalize_strings vals = remdups_adj (sort (trimmed_non_empty vals))"

definition normalize_strings_ci :: "string list \<Rightarrow> string list" where
  "normalize_strings_ci vals =
     dedup_by eq_ignore_ascii_case (sort_key to_ascii_lowercase (trimmed_non_empty vals))"

section \<open>Single vals\<close>

datatype policy_error =
    Permission_Directory_Invalid string
  | Permission_Directory_Not_Directory string
  | Permission_File_Rule_Missing_Root
  | Permission_Command_Invalid string
  | Permission_Command_Not_File string
  | Permission_Glob_Invalid string
  | Permission_File_Invalid string
  | Permission_Network_Host_Invalid string
  | Permission_Browser_Origin_Invalid string

fun policy_error_code :: "policy_error \<Rightarrow> string" where
  "policy_error_code (Permission_Directory_Invalid _) = ''permission_directory_invalid''"
| "policy_error_code (Permission_Directory_Not_Directory _) = ''permission_directory_not_directory''"
| "policy_error_code Permission_File_Rule_Missing_Root = ''permission_file_rule_missing_root''"
| "policy_error_code (Permission_Command_Invalid _) = ''permission_command_invalid''"
| "policy_error_code (Permission_Command_Not_File _) = ''permission_command_not_file''"
| "policy_error_code (Permission_Glob_Invalid _) = ''permission_glob_invalid''"
| "policy_error_code (Permission_File_Invalid _) = ''permission_file_invalid''"
| "policy_error_code (Permission_Network_Host_Invalid _) = ''permission_network_host_invalid''"
| "policy_error_code (Permission_Browser_Origin_Invalid _) = ''permission_browser_origin_invalid''"

definition relative_rule_invalid :: "bool \<Rightarrow> string \<Rightarrow> bool" where
  "relative_rule_invalid allow_glob value \<longleftrightarrow>
     value = [] \<or> starts_with ''/'' value \<or> List.member value (CHR '':'') \<or>
     list_ex (\<lambda>comp. comp = [] \<or> comp = ''.'' \<or> comp = ''..'' \<or>
         \<not> allow_glob \<and> (List.member comp (CHR ''*'') \<or> List.member comp (CHR ''?'')))
       (split_on (CHR ''/'') value)"

definition normalize_relative_rule :: "bool \<Rightarrow> string \<Rightarrow> (policy_error, string) result" where
  "normalize_relative_rule allow_glob value =
     (let value = slashed (trim value) in
      if relative_rule_invalid allow_glob value then
        Inl (if allow_glob then Permission_Glob_Invalid value else Permission_File_Invalid value)
      else Inr value)"

definition valid_host_label :: "string \<Rightarrow> bool" where
  "valid_host_label label \<longleftrightarrow>
     label \<noteq> [] \<and> length label \<le> 63 \<and> \<not> starts_with ''-'' label \<and> \<not> ends_with ''-'' label \<and>
     list_all (\<lambda>b. is_ascii_alnum b \<or> b = CHR ''-'') label"

definition valid_network_host :: "string \<Rightarrow> bool" where
  "valid_network_host value \<longleftrightarrow>
     (let candidate = (case strip_prefix ''*.'' value of Some c \<Rightarrow> c | None \<Rightarrow> value) in
      candidate \<noteq> [] \<and> length candidate \<le> 253 \<and>
      list_all valid_host_label (split_on (CHR ''.'') candidate))"

definition normalize_network_host :: "string \<Rightarrow> (policy_error, string) result" where
  "normalize_network_host value =
     (let value = to_ascii_lowercase (trim value) in
      if valid_network_host value then Inr value else Inl (Permission_Network_Host_Invalid value))"

definition bare_origin_url :: "url \<Rightarrow> bool" where
  "bare_origin_url u \<longleftrightarrow>
     (url_scheme u = ''http'' \<or> url_scheme u = ''https'' \<or> url_scheme u = ''ws'' \<or> url_scheme u = ''wss'') \<and>
     url_host_str u \<noteq> None \<and> url_username u = [] \<and> url_password u = None \<and>
     url_path u = ''/'' \<and> url_query u = None \<and> url_fragment u = None"

definition normalize_browser_origin :: "os_env \<Rightarrow> string \<Rightarrow> (policy_error, string) result" where
  "normalize_browser_origin env value =
     (case parse_url env (trim value) of
        None \<Rightarrow> Inl (Permission_Browser_Origin_Invalid value)
      | Some u \<Rightarrow>
          if bare_origin_url u then Inr (url_origin u)
          else Inl (Permission_Browser_Origin_Invalid value))"

section \<open>Grants\<close>

text \<open>A root that is empty after trimming is skipped: the list of results is concatenated.\<close>

definition normalize_root :: "os_env \<Rightarrow> string \<Rightarrow> (policy_error, string list) result" where
  "normalize_root env root =
     (let root = trim root in
      if root = [] then Inr []
      else case canonicalize env (parse_path env root) of
          None \<Rightarrow> Inl (Permission_Directory_Invalid root)
        | Some canonical \<Rightarrow>
            if \<not> is_dir env canonical then Inl (Permission_Directory_Not_Directory root)
            else Inr [display_path env canonical])"

definition normalize_fs_grant :: "os_env \<Rightarrow> fs_grant \<Rightarrow> (policy_error, fs_grant) result" where
  "normalize_fs_grant env g =
     rbind (map_result (normalize_root env) (fg_roots g)) (\<lambda>root_lists.
     let roots = normalize_strings_ci (concat root_lists) in
     rbind (map_result (normalize_relative_rule True) (fg_globs g)) (\<lambda>globs.
     let globs = normalize_strings_ci globs in
     rbind (map_result (normalize_relative_rule False) (fg_files g)) (\<lambda>files.
     let files = normalize_strings_ci files;
         special_roots = normalize_strings (fg_special_roots g) in
     if (globs \<noteq> [] \<or> files \<noteq> []) \<and> roots = [] \<and> special_roots = []
     then Inl Permission_File_Rule_Missing_Root
     else Inr (g\<lparr>fg_roots := roots, fg_globs := globs, fg_files := files,
                  fg_special_roots := special_roots\<rparr>))))"

fun file_system_access_rank :: "fs_access \<Rightarrow> nat" where
  "file_system_access_rank Read = 0"
| "file_system_access_rank Write = 1"
| "file_system_access_rank Deny = 2"

definition fs_grant_key ::
    "fs_grant \<Rightarrow> nat \<times> string list \<times> string list \<times> string list \<times> string list" where
  "fs_grant_key g =
     (file_system_access_rank (fg_access g), fg_roots g, fg_globs g, fg_files g, fg_special_roots g)"

definition normalize_command :: "os_env \<Rightarrow> string \<Rightarrow> (policy_error, string) result" where
  "normalize_command env command =
     (let command = trim command in
      case canonicalize env (parse_path env command) of
        None \<Rightarrow> Inl (Permission_Command_Invalid command)
      | Some canonical \<Rightarrow>
          if \<not> is_file env canonical then Inl (Permission_Command_Not_File command)
          else Inr (display_path env canonical))"

definition normalize_mcp_rule :: "mcp_rule \<Rightarrow> mcp_rule" where
  "normalize_mcp_rule r = r\<lparr>mr_tool_name := trim (mr_tool_name r), mr_schema_hash := trim (mr_schema_hash r)\<rparr>"

definition mcp_rule_key :: "mcp_rule \<Rightarrow> string \<times> string \<times> string \<times> bool" where
  "mcp_rule_key r = (mr_server_id r, mr_tool_name r, mr_schema_hash r, mr_read_only r)"

definition normalize_connector_rule :: "connector_rule \<Rightarrow> connector_rule" where
  "normalize_connector_rule r =
     r\<lparr>cr_actions := normalize_strings (cr_actions r),
       cr_read_only_actions := normalize_strings (cr_read_only_actions r),
       cr_contribution_revision := trim (cr_contribution_revision r)\<rparr>"

definition connector_rule_key :: "connector_rule \<Rightarrow> string \<times> string \<times> string list \<times> string list" where
  "connector_rule_key r =
     (cr_account_id r, cr_contribution_revision r, cr_actions r, cr_read_only_actions r)"

definition normalize_network :: "network_grant \<Rightarrow> (policy_error, network_grant) result" where
  "normalize_network n =
     rbind (map_result normalize_network_host (ng_hosts n)) (\<lambda>hosts.
     let hosts = normalize_strings_ci hosts;
         protocols = normalize_strings_ci
           (filter (\<lambda>p. p \<noteq> []) (map (\<lambda>p. to_ascii_lowercase (trim p)) (ng_protocols n))) in
     Inr (n\<lparr>ng_hosts := hosts, ng_protocols := protocols,
            ng_enabled := ng_unrestricted_hosts n \<or> hosts \<noteq> [] \<or> protocols \<noteq> []\<rparr>))"

definition normalize_permission_policy ::
    "os_env \<Rightarrow> permission_policy \<Rightarrow> (policy_error, permission_policy) result" where
  "normalize_permission_policy env p =
     (if pp_level p = FullAccess then Inr (p\<lparr>pp_rules := default_rules\<rparr>)
      else
        let rules = pp_rules p in
        rbind (map_result (normalize_fs_grant env) (sr_file_system rules)) (\<lambda>grants.
        rbind (normalize_network (sr_network rules)) (\<lambda>network.
        rbind (map_result (normalize_command env) (pg_allowed_commands (sr_process rules))) (\<lambda>commands.
        rbind (map_result (normalize_browser_origin env) (bg_origins (sr_browser rules))) (\<lambda>origins.
        Inr (p\<lparr>pp_rules := rules\<lparr>
          sr_file_system := remdups_adj (sort_key fs_grant_key grants),
          sr_network := network,
          sr_process := (sr_process rules)\<lparr>pg_allowed_commands := normalize_strings_ci commands\<rparr>,
          sr_browser := (sr_browser rules)\<lparr>bg_origins := normalize_strings_ci origins\<rparr>,
          sr_computer := (sr_computer rules)\<lparr>cg_allowed_applications :=
            normalize_strings_ci (cg_allowed_applications (sr_computer rules))\<rparr>,
          sr_mcp := remdups_adj (sort_key mcp_rule_key (map normalize_mcp_rule (sr_mcp rules))),
          sr_connectors := remdups_adj (sort_key connector_rule_key
            (map normalize_connector_rule (sr_connectors rules)))\<rparr>\<rparr>))))))"

section \<open>The Unix path syntax\<close>

text \<open>\<open>std::path\<close> on Unix: repeated separators and inner \<open>.\<close> components vanish.\<close>

fun unix_component :: "string \<Rightarrow> component" where
  "unix_component s = (if s = ''..'' then ParentDir else if s = ''.'' then CurDir else Normal s)"

definition unix_parse :: "string \<Rightarrow> path" where
  "unix_parse s =
     (let absolute = starts_with ''/'' s;
          comps = map unix_component (filter (\<lambda>c. c \<noteq> []) (split_on (CHR ''/'') s)) in
      \<lparr>path_root = (if absolute then ''/'' else []),
       path_comps = (case comps of
          CurDir # rest \<Rightarrow> (if absolute then [] else [CurDir]) @ filter (\<lambda>c. c \<noteq> CurDir) rest
        | _ \<Rightarrow> filter (\<lambda>c. c \<noteq> CurDir) comps)\<rparr>)"

fun component_text :: "component \<Rightarrow> string" where
  "component_text (Normal s) = s"
| "component_text CurDir = ''.''"
| "component_text ParentDir = ''..''"

definition unix_show :: "path \<Rightarrow> string" where
  "unix_show p = path_root p @ join ''/'' (map component_text (path_comps p))"

section \<open>Normalised string lists\<close>

definition trimmed :: "string list \<Rightarrow> bool" where
  "trimmed vals \<longleftrightarrow> list_all (\<lambda>v. trim v = v \<and> v \<noteq> []) vals"

lemma trimmed_non_empty_trimmed [simp]: "trimmed (trimmed_non_empty vals)"
  by (auto simp: trimmed_def trimmed_non_empty_def list_all_iff)

lemma trimmed_non_empty_id: "trimmed vals \<Longrightarrow> trimmed_non_empty vals = vals"
  by (induction vals) (auto simp: trimmed_def trimmed_non_empty_def)

lemma trimmed_subset: "trimmed xs \<Longrightarrow> set ys \<subseteq> set xs \<Longrightarrow> trimmed ys"
  by (auto simp: trimmed_def list_all_iff)

lemma set_normalize_strings: "set (normalize_strings vals) = set (trimmed_non_empty vals)"
  by (simp add: normalize_strings_def)

lemma set_normalize_strings_ci: "set (normalize_strings_ci vals) \<subseteq> set (trimmed_non_empty vals)"
  unfolding normalize_strings_ci_def using set_dedup_by by fastforce

lemma trimmed_normalize_strings [simp]: "trimmed (normalize_strings vals)"
  by (rule trimmed_subset [OF trimmed_non_empty_trimmed [of vals]]) (simp add: set_normalize_strings)

lemma trimmed_normalize_strings_ci [simp]: "trimmed (normalize_strings_ci vals)"
  by (rule trimmed_subset [OF trimmed_non_empty_trimmed set_normalize_strings_ci])

lemma normalize_strings_Nil [simp]: "normalize_strings [] = []" "normalize_strings_ci [] = []"
  by (simp_all add: normalize_strings_def normalize_strings_ci_def trimmed_non_empty_def)

lemma normalize_strings_idem [simp]: "normalize_strings (normalize_strings vals) = normalize_strings vals"
  unfolding normalize_strings_def [of "normalize_strings vals"]
  by (simp add: trimmed_non_empty_id) (simp add: normalize_strings_def sort_remdups_adj_idem [where f = "\<lambda>x. x"])

lemma normalize_strings_ci_idem [simp]:
  "normalize_strings_ci (normalize_strings_ci vals) = normalize_strings_ci vals"
  unfolding normalize_strings_ci_def [of "normalize_strings_ci vals"]
  by (simp add: trimmed_non_empty_id) (simp add: normalize_strings_ci_def sort_dedup_idem)

section \<open>Normalisers of single values\<close>

text \<open>
  What every rule of \<open>normalize_permission_policy\<close> that maps one string to one string promises:
  what it accepts it accepts again unchanged, already trimmed and not empty.
\<close>

locale value_normalizer =
  fixes nf :: "string \<Rightarrow> (policy_error, string) result"
  assumes accepted_again: "nf v = Inr w \<Longrightarrow> nf w = Inr w"
    and accepted_trimmed: "nf v = Inr w \<Longrightarrow> trim w = w"
    and accepted_non_empty: "nf v = Inr w \<Longrightarrow> w \<noteq> []"
begin

lemma list_accepted:
  assumes "map_result nf xs = Inr ys" and "y \<in> set ys"
  shows "nf y = Inr y"
  using map_result_Inr_set [OF assms] accepted_again by blast

lemma list_trimmed: "map_result nf xs = Inr ys \<Longrightarrow> trimmed ys"
  unfolding trimmed_def list_all_iff
  using map_result_Inr_set accepted_trimmed accepted_non_empty by metis

lemma list_normalized:
  assumes "map_result nf xs = Inr ys"
  shows "map_result nf (normalize_strings_ci ys) = Inr (normalize_strings_ci ys)"
proof (rule map_result_id)
  fix y assume "y \<in> set (normalize_strings_ci ys)"
  then have "y \<in> set ys"
    using set_normalize_strings_ci trimmed_non_empty_id [OF list_trimmed [OF assms]] by fastforce
  then show "nf y = Inr y" by (rule list_accepted [OF assms])
qed

end

interpretation relative_rule: value_normalizer "normalize_relative_rule allow_glob" for allow_glob
proof
  fix v w assume "normalize_relative_rule allow_glob v = Inr w"
  then have w: "w = slashed (trim v)" and ok: "\<not> relative_rule_invalid allow_glob w"
    by (auto simp: normalize_relative_rule_def Let_def split: if_splits)
  show tw: "trim w = w" by (simp add: w trim_slashed)
  show "w \<noteq> []" using ok by (auto simp: relative_rule_invalid_def)
  have "slashed w = w" by (simp add: w)
  with tw ok show "normalize_relative_rule allow_glob w = Inr w"
    by (simp add: normalize_relative_rule_def)
qed

interpretation network_host: value_normalizer normalize_network_host
proof
  fix v w assume "normalize_network_host v = Inr w"
  then have w: "w = to_ascii_lowercase (trim v)" and ok: "valid_network_host w"
    by (auto simp: normalize_network_host_def Let_def split: if_splits)
  show tw: "trim w = w" by (simp add: w trim_lower)
  show "w \<noteq> []" using ok by (auto simp: valid_network_host_def strip_prefix_def)
  have "to_ascii_lowercase w = w" by (simp add: w)
  with tw ok show "normalize_network_host w = Inr w"
    by (simp add: normalize_network_host_def)
qed

section \<open>Normalising twice\<close>

text \<open>
  What the operating system and the \<open>url\<close> crate promise: a canonical path is its own canonical
  path once displayed and parsed again, and the ASCII serialisation of a bare origin parses to
  a bare origin that serialises the same way. That no canonical path has white space at its
  ends restricts the file system, since the code trims the displayed path.
\<close>

definition os_env_ok :: "os_env \<Rightarrow> bool" where
  "os_env_ok env \<longleftrightarrow>
     (\<forall>q c. canonicalize env q = Some c \<longrightarrow>
        canonicalize env (parse_path env (display_path env c)) = Some c \<and>
        trim (display_path env c) = display_path env c \<and> display_path env c \<noteq> []) \<and>
     (\<forall>s u. parse_url env s = Some u \<and> bare_origin_url u \<longrightarrow>
        trim (url_origin u) = url_origin u \<and> url_origin u \<noteq> [] \<and>
        (\<exists>v. parse_url env (url_origin u) = Some v \<and> bare_origin_url v \<and> url_origin v = url_origin u))"

lemma os_env_ok_path:
  assumes "os_env_ok env" and "canonicalize env q = Some c"
  shows "canonicalize env (parse_path env (display_path env c)) = Some c"
    and "trim (display_path env c) = display_path env c" and "display_path env c \<noteq> []"
    and "[] \<noteq> display_path env c"
  using assms unfolding os_env_ok_def by (blast, blast, blast, metis)

lemma command_normalizer: "os_env_ok env \<Longrightarrow> value_normalizer (normalize_command env)"
  by unfold_locales
    (auto simp: normalize_command_def Let_def os_env_ok_path split: option.splits if_splits)

lemma origin_normalizer: "os_env_ok env \<Longrightarrow> value_normalizer (normalize_browser_origin env)"
  by unfold_locales
    (fastforce simp: normalize_browser_origin_def os_env_ok_def Let_def split: option.splits if_splits)+

lemma normalize_root_again:
  assumes "os_env_ok env" and "normalize_root env v = Inr ws" and "w \<in> set ws"
  shows "normalize_root env w = Inr [w]" and "trim w = w \<and> w \<noteq> []"
  using assms by (auto simp: normalize_root_def os_env_ok_path Let_def split: option.splits if_splits)

lemma map_result_concat_single:
  "(\<And>x. x \<in> set xs \<Longrightarrow> f x = Inr [x]) \<Longrightarrow> map_result f xs = Inr (map (\<lambda>x. [x]) xs)"
  by (induction xs) auto

lemma concat_singles: "concat (map (\<lambda>x. [x]) xs) = xs"
  by (induction xs) auto

lemma roots_normalized:
  assumes env: "os_env_ok env" and "map_result (normalize_root env) vs = Inr wss"
    and r: "r = normalize_strings_ci (concat wss)"
  shows "map_result (normalize_root env) r = Inr (map (\<lambda>x. [x]) r)"
proof (rule map_result_concat_single)
  have *: "\<exists>v. normalize_root env v = Inr ws" if "ws \<in> set wss" for ws
    using map_result_Inr_set [OF assms(2) that] by blast
  then have "trimmed (concat wss)"
    using normalize_root_again(2) [OF env] by (fastforce simp: trimmed_def list_all_iff)
  moreover fix w assume "w \<in> set r"
  ultimately have "w \<in> set (concat wss)"
    using set_normalize_strings_ci r trimmed_non_empty_id by fastforce
  with * show "normalize_root env w = Inr [w]"
    using normalize_root_again(1) [OF env] by auto
qed

lemma normalize_fs_grant_again:
  assumes env: "os_env_ok env" and g: "normalize_fs_grant env g = Inr g'"
  shows "normalize_fs_grant env g' = Inr g'"
proof -
  from g obtain wss globs files where
    w: "map_result (normalize_root env) (fg_roots g) = Inr wss" and
    gl: "map_result (normalize_relative_rule True) (fg_globs g) = Inr globs" and
    fi: "map_result (normalize_relative_rule False) (fg_files g) = Inr files"
    by (auto simp: normalize_fs_grant_def rbind_Inr_iff Let_def)
  show ?thesis
    using g w gl fi roots_normalized [OF env w refl]
      relative_rule.list_normalized [OF gl] relative_rule.list_normalized [OF fi]
    by (auto simp: normalize_fs_grant_def concat_singles Let_def split: if_splits)
qed

lemma normalize_network_again:
  assumes "normalize_network n = Inr n'"
  shows "normalize_network n' = Inr n'"
proof -
  from assms obtain hosts where h: "map_result normalize_network_host (ng_hosts n) = Inr hosts"
    by (auto simp: normalize_network_def rbind_Inr_iff)
  define ps where "ps = filter (\<lambda>p. p \<noteq> []) (map (\<lambda>p. to_ascii_lowercase (trim p)) (ng_protocols n))"
  define qs where "qs = normalize_strings_ci ps"
  have "trimmed ps" by (auto simp: ps_def trimmed_def list_all_iff trim_lower)
  then have "set qs \<subseteq> set ps"
    using set_normalize_strings_ci trimmed_non_empty_id unfolding qs_def by fastforce
  then have "\<forall>p \<in> set qs. to_ascii_lowercase (trim p) = p \<and> p \<noteq> []"
    by (auto simp: ps_def trim_lower)
  then have "filter (\<lambda>p. p \<noteq> []) (map (\<lambda>p. to_ascii_lowercase (trim p)) qs) = qs"
    by (induction qs) auto
  moreover have "normalize_strings_ci qs = qs" by (simp add: qs_def)
  ultimately show ?thesis
    using assms h network_host.list_normalized [OF h]
    by (auto simp: normalize_network_def Let_def ps_def [symmetric] qs_def [symmetric])
qed

lemma normalize_mcp_rule_idem [simp]: "normalize_mcp_rule (normalize_mcp_rule r) = normalize_mcp_rule r"
  by (simp add: normalize_mcp_rule_def)

lemma normalize_connector_rule_idem [simp]:
  "normalize_connector_rule (normalize_connector_rule r) = normalize_connector_rule r"
  by (simp add: normalize_connector_rule_def)

text \<open>Sorted, deduplicated images of an idempotent map are fixed by all three steps.\<close>

lemma sort_dedup_map_idem:
  assumes "\<And>x. f (f x) = f x" and "ys = remdups_adj (sort_key k (map f xs))"
  shows "remdups_adj (sort_key k (map f ys)) = ys"
proof -
  have "set ys \<subseteq> f ` set xs" by (simp add: assms(2))
  then have "map f ys = ys" using assms(1) by (intro map_idI) auto
  then show ?thesis by (simp add: assms(2) sort_remdups_adj_idem)
qed

lemma sort_dedup_map_result_idem:
  assumes "map_result f xs = Inr ys" and "\<And>x y. f x = Inr y \<Longrightarrow> f y = Inr y"
  shows "map_result f (remdups_adj (sort_key k ys)) = Inr (remdups_adj (sort_key k ys))"
  by (rule map_result_id) (use map_result_Inr_set [OF assms(1)] assms(2) in fastforce)

lemma normalize_permission_policy_again:
  assumes env: "os_env_ok env" and p: "normalize_permission_policy env p = Inr p'"
  shows "normalize_permission_policy env p' = Inr p'"
proof (cases "pp_level p = FullAccess")
  case False
  let ?r = "pp_rules p"
  from p False obtain grants network commands origins where
    g: "map_result (normalize_fs_grant env) (sr_file_system ?r) = Inr grants" and
    n: "normalize_network (sr_network ?r) = Inr network" and
    c: "map_result (normalize_command env) (pg_allowed_commands (sr_process ?r)) = Inr commands" and
    o: "map_result (normalize_browser_origin env) (bg_origins (sr_browser ?r)) = Inr origins"
    by (auto simp: normalize_permission_policy_def rbind_Inr_iff Let_def)
  note again = sort_dedup_map_result_idem [OF g normalize_fs_grant_again [OF env], where k = fs_grant_key]
    normalize_network_again [OF n]
    value_normalizer.list_normalized [OF command_normalizer [OF env] c]
    value_normalizer.list_normalized [OF origin_normalizer [OF env] o]
    sort_dedup_map_idem [OF normalize_mcp_rule_idem refl]
    sort_dedup_map_idem [OF normalize_connector_rule_idem refl]
  from p False g n c o show ?thesis
    by (auto simp: normalize_permission_policy_def Let_def again sort_remdups_adj_idem)
qed (use p in \<open>auto simp: normalize_permission_policy_def\<close>)

end
