(* ===== verification/Policy.thy ===== *)
theory Policy
  imports Policy_Normalize
begin

text \<open>
  The decisions of \<open>hachimi-policy/src/lib.rs\<close>: the grant set a permission profile expands
  to, the match of a file system grant with its globs, the coarse gate of a tool effect, the
  coverage test between two policies and the default policy engine.
\<close>

section \<open>Globs\<close>

text \<open>
  \<open>matches_from\<close> threads its memo table; \<open>pattern_index\<close> never exceeds the pattern's length,
  so the test \<open>==\<close> of the source is written \<open>\<le>\<close> here.
\<close>

type_synonym glob_memo = "nat \<times> nat \<Rightarrow> bool option"

function matches_from :: "string \<Rightarrow> string \<Rightarrow> nat \<Rightarrow> nat \<Rightarrow> glob_memo \<Rightarrow> bool \<times> glob_memo" where
  "matches_from p v i j memo =
     (case memo (i, j) of
        Some r \<Rightarrow> (r, memo)
      | None \<Rightarrow>
         (let (r, memo) =
            (if length p \<le> i then (j = length v, memo)
             else if p ! i = CHR ''*'' then
               (let recursive = (i + 1 < length p \<and> p ! (i + 1) = CHR ''*'');
                    next = i + (if recursive then 2 else 1);
                    (r1, memo) = matches_from p v next j memo in
                if r1 then (True, memo)
                else
                  (let (r2, memo) =
                     (if recursive \<and> next < length p \<and> p ! next = CHR ''/''
                      then matches_from p v (next + 1) j memo else (False, memo)) in
                   if r2 then (True, memo)
                   else if j < length v \<and> (recursive \<or> v ! j \<noteq> CHR ''/'')
                   then matches_from p v i (j + 1) memo
                   else (False, memo)))
             else if j < length v \<and> (p ! i = v ! j \<or> (p ! i = CHR ''?'' \<and> v ! j \<noteq> CHR ''/''))
             then matches_from p v (i + 1) (j + 1) memo
             else (False, memo)) in
          (r, memo((i, j) \<mapsto> r))))"
  by pat_completeness auto
termination
  by (relation "measure (\<lambda>(p, v, i, j, memo). (length p - i) + (length v - j))") auto

declare matches_from.simps [simp del]

definition glob_matches :: "string \<Rightarrow> string \<Rightarrow> bool" where
  "glob_matches pattern v = fst (matches_from pattern v 0 0 (\<lambda>_. None))"

section \<open>File system grants\<close>

definition path_parent :: "path \<Rightarrow> path option" where
  "path_parent p = (if path_comps p = [] then None else Some (p\<lparr>path_comps := butlast (path_comps p)\<rparr>))"

definition path_file_name :: "path \<Rightarrow> string option" where
  "path_file_name p =
     (if path_comps p = [] then None
      else case last (path_comps p) of Normal s \<Rightarrow> Some s | _ \<Rightarrow> None)"

text \<open>The loop walks up to the first existing ancestor and puts the missing names back.\<close>

function canonicalize_up :: "os_env \<Rightarrow> path \<Rightarrow> string list \<Rightarrow> path option" where
  "canonicalize_up env ancestor missing =
     (case canonicalize env ancestor of
        Some resolved \<Rightarrow> Some (resolved\<lparr>path_comps := path_comps resolved @ map Normal (rev missing)\<rparr>)
      | None \<Rightarrow>
          (case path_file_name ancestor of
             None \<Rightarrow> None
           | Some name \<Rightarrow>
               (case path_parent ancestor of
                  None \<Rightarrow> None
                | Some up \<Rightarrow> canonicalize_up env up (missing @ [name]))))"
  by pat_completeness auto
termination
  by (relation "measure (\<lambda>(env, p, missing). length (path_comps p))")
    (auto simp: path_parent_def split: if_splits)

declare canonicalize_up.simps [simp del]

definition canonicalize_with_missing_suffix :: "os_env \<Rightarrow> path \<Rightarrow> path option" where
  "canonicalize_with_missing_suffix env p = canonicalize_up env p []"

definition normalize_case :: "os_env \<Rightarrow> string \<Rightarrow> string" where
  "normalize_case env v = (if cfg_windows env then to_lowercase env v else v)"

definition trim_end_slashes :: "string \<Rightarrow> string" where
  "trim_end_slashes s = rev (dropWhile (\<lambda>c. c = CHR ''/'') (rev s))"

definition trim_start_slashes :: "string \<Rightarrow> string" where
  "trim_start_slashes s = dropWhile (\<lambda>c. c = CHR ''/'') s"

definition normalized_path :: "os_env \<Rightarrow> path \<Rightarrow> string" where
  "normalized_path env p =
     (let resolved = (case canonicalize_with_missing_suffix env p of Some r \<Rightarrow> r | None \<Rightarrow> p);
          v = slashed (show_path env resolved) in
      normalize_case env (if 1 < length v then trim_end_slashes v else v))"

definition relative_to_root :: "string \<Rightarrow> string \<Rightarrow> string option" where
  "relative_to_root target root =
     (if root = [] then None
      else if target = root then Some []
      else Option.bind (strip_prefix root target) (strip_prefix ''/''))"

definition grant_candidates :: "os_env \<Rightarrow> fs_grant \<Rightarrow> string \<Rightarrow> string list" where
  "grant_candidates env g target =
     List.map_filter (\<lambda>root. relative_to_root target (normalized_path env (parse_path env root))) (fg_roots g)
     @ (if list_ex (\<lambda>r. r = '':root'') (fg_special_roots g) then [trim_start_slashes target] else [])
     @ (if fg_roots g = [] \<and> fg_special_roots g = [] then [trim_start_slashes target] else [])"

definition fs_grant_matches :: "os_env \<Rightarrow> fs_grant \<Rightarrow> path \<Rightarrow> bool" where
  "fs_grant_matches env g target_path =
     (let candidates = grant_candidates env g (normalized_path env target_path) in
      candidates \<noteq> [] \<and>
      (fg_globs g = [] \<and> fg_files g = [] \<or>
       list_ex (\<lambda>candidate.
           list_ex (\<lambda>file. normalize_case env (slashed file) = candidate) (fg_files g) \<or>
           list_ex (\<lambda>pattern. glob_matches (normalize_case env (slashed pattern)) candidate) (fg_globs g))
         candidates))"

definition file_system_grants_allow :: "os_env \<Rightarrow> fs_grant list \<Rightarrow> fs_access \<Rightarrow> path \<Rightarrow> bool" where
  "file_system_grants_allow env grants required target_path =
     (if required = Deny then False
      else if list_ex (\<lambda>g. fg_access g = Deny \<and> fs_grant_matches env g target_path) grants then False
      else list_ex (\<lambda>g. (fg_access g = required \<or> required = Read \<and> fg_access g = Write) \<and>
             fs_grant_matches env g target_path) grants)"

section \<open>Expansion\<close>

definition fs_grant_of :: "fs_access \<Rightarrow> string list \<Rightarrow> string list \<Rightarrow> fs_grant" where
  "fs_grant_of access roots special_roots =
     \<lparr>fg_access = access, fg_roots = roots, fg_globs = [], fg_files = [], fg_special_roots = special_roots\<rparr>"

fun authority_mode_name :: "authority_mode \<Rightarrow> string" where
  "authority_mode_name Interactive = ''interactive''"
| "authority_mode_name Unattended = ''unattended''"

abbreviation browser_protocols :: "string list" where
  "browser_protocols \<equiv> [''http'', ''https'', ''ws'', ''wss'']"

definition expand_file_system :: "permission_policy \<Rightarrow> behavior_mode \<Rightarrow> string \<Rightarrow> fs_grant list" where
  "expand_file_system p mode root =
     (let rules = pp_rules p; level = pp_level p;
          file_system = [fs_grant_of Read [root] []]
            @ filter (\<lambda>g. level \<noteq> ReadOnly \<or> fg_access g \<noteq> Write) (sr_file_system rules)
            @ (if sr_unrestricted_read rules then [fs_grant_of Read [] ['':root'']] else [])
            @ (if level \<noteq> ReadOnly then
                 [fs_grant_of Write [root] []]
                 @ (if sr_unrestricted_write rules then [fs_grant_of Write [] ['':root'']] else [])
                 @ (if level = FullAccess then [fs_grant_of Write [] ['':root'']] else [])
               else []) in
      if mode = Plan then filter (\<lambda>g. fg_access g = Read) file_system else file_system)"

definition expand_network :: "permission_policy \<Rightarrow> behavior_mode \<Rightarrow> network_grant" where
  "expand_network p mode =
     (let rules = pp_rules p; level = pp_level p; n = sr_network rules;
          n = (if ng_unrestricted_hosts n
               then n\<lparr>ng_enabled := True, ng_hosts := [''*''], ng_protocols := browser_protocols\<rparr> else n);
          n = (if sr_connectors rules \<noteq> []
               then n\<lparr>ng_protocols := ng_protocols n @ [''managed-connector'']\<rparr> else n);
          n = (if level \<noteq> ReadOnly then
                 (let n = (if list_ex (\<lambda>r. \<not> mr_read_only r) (sr_mcp rules)
                           then n\<lparr>ng_enabled := True, ng_protocols := ng_protocols n @ [''mcp'']\<rparr> else n);
                      n = (if sr_connectors rules \<noteq> [] then n\<lparr>ng_enabled := True\<rparr> else n);
                      n = n\<lparr>ng_protocols := remdups_adj (sort (ng_protocols n))\<rparr> in
                  if level = FullAccess
                  then n\<lparr>ng_enabled := True, ng_unrestricted_hosts := True, ng_hosts := [''*''],
                         ng_protocols := browser_protocols\<rparr>
                  else n)
               else n) in
      if mode = Plan then default_network else n)"

definition expand_process :: "permission_policy \<Rightarrow> behavior_mode \<Rightarrow> process_grant" where
  "expand_process p mode =
     (let q = sr_process (pp_rules p);
          q = (if pp_level p \<noteq> ReadOnly then
                 (let q = q\<lparr>pg_spawn := True\<rparr> in
                  if pp_level p = FullAccess
                  then q\<lparr>pg_interactive := True, pg_unrestricted_commands := True, pg_allowed_commands := []\<rparr>
                  else q)
               else default_process) in
      if mode = Plan then default_process else q)"

definition browser_without_effects :: "browser_grant \<Rightarrow> browser_grant" where
  "browser_without_effects b =
     b\<lparr>bg_act := False, bg_upload := False, bg_download := False, bg_cookie_storage := False, bg_cdp := False\<rparr>"

definition expand_browser :: "permission_policy \<Rightarrow> behavior_mode \<Rightarrow> browser_grant" where
  "expand_browser p mode =
     (let b = sr_browser (pp_rules p);
          b = (if pp_level p = ReadOnly then browser_without_effects b
               else if pp_level p = FullAccess
               then b\<lparr>bg_observe := True, bg_act := True, bg_upload := True, bg_download := True,
                      bg_unrestricted_origins := True\<rparr>
               else b) in
      if mode = Plan then browser_without_effects b else b)"

definition expand_computer :: "permission_policy \<Rightarrow> behavior_mode \<Rightarrow> computer_grant" where
  "expand_computer p mode =
     (let c = sr_computer (pp_rules p);
          c = (if pp_level p = ReadOnly then c\<lparr>cg_act := False\<rparr>
               else if pp_level p = FullAccess
               then c\<lparr>cg_observe := True, cg_act := True, cg_unrestricted_targets := True\<rparr>
               else c) in
      if mode = Plan then c\<lparr>cg_act := False\<rparr> else c)"

definition expand_permission_policy ::
    "permission_policy \<Rightarrow> authority_mode \<Rightarrow> behavior_mode \<Rightarrow> string \<Rightarrow> string \<Rightarrow> string \<Rightarrow> capability_grant_set" where
  "expand_permission_policy p authority mode session_id run_id root =
     \<lparr>gs_profile = (if mode = Plan then ReadOnly else pp_level p),
      gs_scope = Run_Scope,
      gs_session_id = session_id,
      gs_run_id = Some run_id,
      gs_source = ''agent_permission_policy:'' @ decimal (pp_revision p) @ '':'' @ authority_mode_name authority,
      gs_file_system = expand_file_system p mode root,
      gs_network = expand_network p mode,
      gs_process = expand_process p mode,
      gs_browser = expand_browser p mode,
      gs_computer = expand_computer p mode,
      gs_review_each_command = True,
      gs_expires_at_ms = None\<rparr>"

definition expand_permission_profile ::
    "permission_profile \<Rightarrow> behavior_mode \<Rightarrow> string \<Rightarrow> string \<Rightarrow> string \<Rightarrow> capability_grant_set" where
  "expand_permission_profile profile mode session_id run_id root =
     expand_permission_policy \<lparr>pp_level = profile, pp_rules = default_rules, pp_revision = 0\<rparr>
       Interactive mode session_id run_id root"

section \<open>The coarse gate\<close>

fun capability_grant_allows :: "capability_grant_set \<Rightarrow> tool_effect \<Rightarrow> bool" where
  "capability_grant_allows s Effect_ReadOnly = list_ex (\<lambda>g. fg_access g = Read) (gs_file_system s)"
| "capability_grant_allows s WorkspaceWrite = list_ex (\<lambda>g. fg_access g = Write) (gs_file_system s)"
| "capability_grant_allows s Process = pg_spawn (gs_process s)"
| "capability_grant_allows s ExternalSideEffect = ng_enabled (gs_network s)"
| "capability_grant_allows s BrowserObserve = bg_observe (gs_browser s)"
| "capability_grant_allows s BrowserAct =
     (bg_act (gs_browser s) \<or> bg_upload (gs_browser s) \<or> bg_download (gs_browser s) \<or>
      bg_cookie_storage (gs_browser s) \<or> bg_cdp (gs_browser s))"
| "capability_grant_allows s ComputerObserve = cg_observe (gs_computer s)"
| "capability_grant_allows s ComputerAct = cg_act (gs_computer s)"

section \<open>Coverage\<close>

fun permission_rank :: "permission_profile \<Rightarrow> nat" where
  "permission_rank ReadOnly = 0"
| "permission_rank Writable = 1"
| "permission_rank FullAccess = 2"

definition string_scope_covers :: "string list \<Rightarrow> string list \<Rightarrow> bool \<Rightarrow> bool" where
  "string_scope_covers candidate baseline empty_is_all \<longleftrightarrow>
     empty_is_all \<and> candidate = [] \<or>
     list_all (\<lambda>v. list_ex (\<lambda>allowed. allowed = v \<or> allowed = ''*'') candidate) baseline"

definition browser_covers :: "browser_grant \<Rightarrow> browser_grant \<Rightarrow> bool" where
  "browser_covers c b \<longleftrightarrow>
     (\<not> bg_observe b \<or> bg_observe c) \<and> (\<not> bg_act b \<or> bg_act c) \<and> (\<not> bg_upload b \<or> bg_upload c) \<and>
     (\<not> bg_download b \<or> bg_download c) \<and> (\<not> bg_cookie_storage b \<or> bg_cookie_storage c) \<and>
     (\<not> bg_cdp b \<or> bg_cdp c) \<and>
     (\<not> (bg_observe b \<or> bg_act b \<or> bg_upload b \<or> bg_download b \<or> bg_cookie_storage b \<or> bg_cdp b) \<or>
      bg_unrestricted_origins b \<and> bg_unrestricted_origins c \<or>
      string_scope_covers (bg_origins c) (bg_origins b) True)"

definition computer_covers :: "computer_grant \<Rightarrow> computer_grant \<Rightarrow> bool" where
  "computer_covers c b \<longleftrightarrow>
     (\<not> cg_observe b \<or> cg_observe c) \<and> (\<not> cg_act b \<or> cg_act c) \<and>
     (\<not> (cg_observe b \<or> cg_act b) \<or>
      cg_unrestricted_targets b \<and> cg_unrestricted_targets c \<or>
      string_scope_covers (cg_allowed_applications c) (cg_allowed_applications b) True) \<and>
     (case (cg_max_actions c, cg_max_actions b) of
        (None, _) \<Rightarrow> True
      | (Some m, Some n) \<Rightarrow> n \<le> m
      | (Some _, None) \<Rightarrow> False)"

definition fs_rules_cover :: "scoped_rules \<Rightarrow> scoped_rules \<Rightarrow> bool" where
  "fs_rules_cover c b \<longleftrightarrow>
     list_all (\<lambda>g. List.member (sr_file_system b) g) (filter (\<lambda>g. fg_access g = Deny) (sr_file_system c)) \<and>
     (\<not> sr_unrestricted_read b \<or> sr_unrestricted_read c) \<and>
     (\<not> sr_unrestricted_write b \<or> sr_unrestricted_write c) \<and>
     list_all (\<lambda>g. list_ex (\<lambda>h. fg_access h = fg_access g \<and>
         string_scope_covers (fg_roots h) (fg_roots g) False \<and>
         string_scope_covers (fg_globs h) (fg_globs g) False \<and>
         string_scope_covers (fg_files h) (fg_files g) False \<and>
         string_scope_covers (fg_special_roots h) (fg_special_roots g) False) (sr_file_system c))
       (filter (\<lambda>g. fg_access g \<noteq> Deny) (sr_file_system b))"

definition network_covers :: "network_grant \<Rightarrow> network_grant \<Rightarrow> bool" where
  "network_covers c b \<longleftrightarrow>
     \<not> ng_enabled b \<or>
     ng_enabled c \<and> (\<not> ng_unrestricted_hosts b \<or> ng_unrestricted_hosts c) \<and>
     string_scope_covers (ng_hosts c) (ng_hosts b) True \<and>
     string_scope_covers (ng_protocols c) (ng_protocols b) False"

definition process_covers :: "process_grant \<Rightarrow> process_grant \<Rightarrow> bool" where
  "process_covers c b \<longleftrightarrow>
     (\<not> pg_spawn b \<or> pg_spawn c) \<and> (\<not> pg_interactive b \<or> pg_interactive c) \<and>
     (\<not> pg_spawn b \<or> (\<not> pg_unrestricted_commands b \<or> pg_unrestricted_commands c) \<or>
      string_scope_covers (pg_allowed_commands c) (pg_allowed_commands b) True)"

definition permission_policy_covers :: "permission_policy \<Rightarrow> permission_policy \<Rightarrow> bool" where
  "permission_policy_covers candidate baseline =
     (if pp_level candidate = FullAccess then True
      else if pp_level baseline = FullAccess \<or>
        permission_rank (pp_level candidate) < permission_rank (pp_level baseline) then False
      else
        let c = pp_rules candidate; b = pp_rules baseline in
        fs_rules_cover c b \<and> network_covers (sr_network c) (sr_network b) \<and>
        process_covers (sr_process c) (sr_process b) \<and>
        browser_covers (sr_browser c) (sr_browser b) \<and>
        computer_covers (sr_computer c) (sr_computer b) \<and>
        list_all (\<lambda>r. list_ex (\<lambda>q. mr_server_id q = mr_server_id r \<and> mr_tool_name q = mr_tool_name r \<and>
            mr_schema_hash q = mr_schema_hash r \<and> (mr_read_only r \<or> \<not> mr_read_only q)) (sr_mcp c)) (sr_mcp b) \<and>
        list_all (\<lambda>r. list_ex (\<lambda>q. cr_account_id q = cr_account_id r \<and>
            cr_contribution_revision q = cr_contribution_revision r \<and>
            list_all (\<lambda>action. List.member (cr_actions q) action \<and>
                (List.member (cr_read_only_actions r) action \<or>
                 \<not> List.member (cr_read_only_actions q) action)) (cr_actions r)) (sr_connectors c))
          (sr_connectors b))"

section \<open>The policy engine\<close>

datatype policy_decision = Allow | Deny_Decision string | RequireApproval string

record policy_context =
  pc_client :: client_context
  pc_method :: "control_method option"
  pc_required_scope :: scope
  pc_entry_profile :: entry_profile
  pc_workload :: workload_kind
  pc_behavior_mode :: behavior_mode
  pc_approval_policy :: approval_policy
  pc_permission_profile :: permission_profile
  pc_effect :: tool_effect
  pc_action :: string
  pc_resource :: string
  pc_capability_host :: "string option"

definition control_context :: "client_context \<Rightarrow> control_method \<Rightarrow> scope \<Rightarrow> policy_context" where
  "control_context client m s =
     \<lparr>pc_client = client, pc_method = Some m, pc_required_scope = s,
      pc_entry_profile = Workbench_Entry, pc_workload = General, pc_behavior_mode = Default_Mode,
      pc_approval_policy = OnlyWhenNeeded, pc_permission_profile = Writable,
      pc_effect = Effect_ReadOnly, pc_action = method_as_str m, pc_resource = ''control-plane'',
      pc_capability_host = None\<rparr>"

definition is_side_effect :: "tool_effect \<Rightarrow> bool" where
  "is_side_effect e \<longleftrightarrow> e \<notin> {Effect_ReadOnly, BrowserObserve, ComputerObserve}"

fun needs_approval :: "approval_policy \<Rightarrow> tool_effect \<Rightarrow> bool" where
  "needs_approval AlwaysAskSideEffects e = is_side_effect e"
| "needs_approval OnlyWhenNeeded e = (e \<in> {ExternalSideEffect, BrowserAct, ComputerAct})"
| "needs_approval NeverPrompt e = False"

definition evaluate :: "policy_context \<Rightarrow> policy_decision" where
  "evaluate ctx =
     (if pc_required_scope ctx \<notin> set (cc_scopes (pc_client ctx)) then Deny_Decision ''missing_scope''
      else if pc_behavior_mode ctx = Plan \<and> is_side_effect (pc_effect ctx)
        then Deny_Decision ''plan_mode_read_only''
      else if pc_permission_profile ctx = ReadOnly \<and> is_side_effect (pc_effect ctx)
        then Deny_Decision ''permission_profile_read_only''
      else if pc_permission_profile ctx = FullAccess then Allow
      else if needs_approval (pc_approval_policy ctx) (pc_effect ctx)
        then RequireApproval ''side_effect_requires_approval''
      else Allow)"

end
