(* ===== verification/Policy_Glob.thy ===== *)
theory Policy_Glob
  imports Policy
begin

text \<open>
  The glob matcher of file system grants. \<open>glob\<close> is the matcher on suffixes without the memo
  table, \<open>glob_lang\<close> the language a pattern denotes. The memo table changes no answer, and the
  matcher accepts exactly that language: \<open>*\<close> stays inside a path segment, \<open>**\<close> crosses
  segments, and the slash after \<open>**\<close> may be absent at any position.
\<close>

section \<open>The matcher without memo\<close>

function glob :: "string \<Rightarrow> string \<Rightarrow> bool" where
  "glob [] v = (v = [])"
| "glob (c # p) v =
     (if c = CHR ''*'' then
        (let deep = starts_with ''*'' p; rest = (if deep then tl p else p) in
         glob rest v \<or>
         deep \<and> starts_with ''/'' rest \<and> glob (tl rest) v \<or>
         (case v of [] \<Rightarrow> False | d # w \<Rightarrow> (deep \<or> d \<noteq> CHR ''/'') \<and> glob (c # p) w))
      else (case v of [] \<Rightarrow> False
            | d # w \<Rightarrow> (c = d \<or> c = CHR ''?'' \<and> d \<noteq> CHR ''/'') \<and> glob p w))"
  by pat_completeness auto
termination
  by (relation "measure (\<lambda>(p, v). length p + length v)") auto

declare glob.simps(2) [simp del]

section \<open>The language of a pattern\<close>

inductive glob_lang :: "string \<Rightarrow> string \<Rightarrow> bool" where
  glob_end: "glob_lang [] []"
| glob_char: "c \<noteq> CHR ''*'' \<Longrightarrow> c = d \<or> c = CHR ''?'' \<and> d \<noteq> CHR ''/'' \<Longrightarrow> glob_lang p v
    \<Longrightarrow> glob_lang (c # p) (d # v)"
| glob_star: "\<not> starts_with ''*'' p \<Longrightarrow> CHR ''/'' \<notin> set w \<Longrightarrow> glob_lang p v
    \<Longrightarrow> glob_lang (CHR ''*'' # p) (w @ v)"
| glob_deep: "glob_lang p v \<Longrightarrow> glob_lang (CHR ''*'' # CHR ''*'' # p) (w @ v)"
| glob_deep_slash: "glob_lang p v \<Longrightarrow> glob_lang (CHR ''*'' # CHR ''*'' # CHR ''/'' # p) (w @ v)"

text \<open>One unfolding of the matcher, without the case distinctions that do not apply.\<close>

lemma glob_star_iff:
  "glob (CHR ''*'' # p) v \<longleftrightarrow>
     (let deep = starts_with ''*'' p; rest = (if deep then tl p else p) in
      glob rest v \<or> deep \<and> starts_with ''/'' rest \<and> glob (tl rest) v \<or>
      (\<exists>d w. v = d # w \<and> (deep \<or> d \<noteq> CHR ''/'') \<and> glob (CHR ''*'' # p) w))"
  by (subst glob.simps(2)) (simp add: Let_def split: list.splits)

lemma glob_other_iff:
  "c \<noteq> CHR ''*'' \<Longrightarrow> glob (c # p) v \<longleftrightarrow>
     (\<exists>d w. v = d # w \<and> (c = d \<or> c = CHR ''?'' \<and> d \<noteq> CHR ''/'') \<and> glob p w)"
  by (subst glob.simps(2)) (simp split: list.splits)

lemma glob_lang_star_absorb:
  assumes "glob_lang (CHR ''*'' # p) v" and "starts_with ''*'' p \<or> d \<noteq> CHR ''/''"
  shows "glob_lang (CHR ''*'' # p) (d # v)"
  using assms(1)
proof (cases rule: glob_lang.cases)
  case (glob_star w v')
  with assms(2) show ?thesis using glob_lang.glob_star [of p "d # w" v'] by simp
next
  case (glob_deep p' v' w)
  then show ?thesis using glob_lang.glob_deep [of p' v' "d # w"] by simp
next
  case (glob_deep_slash p' v' w)
  then show ?thesis using glob_lang.glob_deep_slash [of p' v' "d # w"] by simp
qed auto

lemma glob_imp_lang: "glob p v \<Longrightarrow> glob_lang p v"
proof (induction "length p + length v" arbitrary: p v rule: less_induct)
  case less
  note IH = less.hyps
  show ?case
  proof (cases p)
    case Nil
    with less.prems show ?thesis by (auto intro: glob_end)
  next
    case (Cons c q)
    show ?thesis
    proof (cases "c = CHR ''*''")
      case False
      from less.prems Cons have "glob (c # q) v" by simp
      then obtain d w where
        v: "v = d # w" "c = d \<or> c = CHR ''?'' \<and> d \<noteq> CHR ''/''" "glob q w"
        unfolding glob_other_iff [OF False] by blast
      with IH [of q w] Cons have "glob_lang q w" by simp
      from glob_char [OF False v(2) this] v Cons show ?thesis by simp
    next
      case True
      define rest where "rest = (if starts_with ''*'' q then tl q else q)"
      have q: "starts_with ''*'' q \<Longrightarrow> q = CHR ''*'' # rest" by (cases q) (auto simp: rest_def)
      have short: "length rest \<le> length q" by (simp add: rest_def)
      from less.prems Cons True have "glob (CHR ''*'' # q) v" by simp
      then have "glob rest v \<or> starts_with ''*'' q \<and> starts_with ''/'' rest \<and> glob (tl rest) v \<or>
          (\<exists>d w. v = d # w \<and> (starts_with ''*'' q \<or> d \<noteq> CHR ''/'') \<and> glob (CHR ''*'' # q) w)"
        by (subst (asm) glob_star_iff) (simp only: Let_def rest_def)
      then consider "glob rest v"
        | "starts_with ''*'' q" "starts_with ''/'' rest" "glob (tl rest) v"
        | d w where "v = d # w" "starts_with ''*'' q \<or> d \<noteq> CHR ''/''" "glob (CHR ''*'' # q) w"
        by blast
      then show ?thesis
      proof cases
        case 1
        with IH short Cons have "glob_lang rest v" by simp
        then show ?thesis
          using q glob_deep [of rest v "[]"] glob_star [of q "[]" v]
          by (cases "starts_with ''*'' q") (simp_all add: rest_def Cons True)
      next
        case 2
        with IH [of "tl rest" v] short Cons have "glob_lang (tl rest) v" by simp
        moreover have "rest = CHR ''/'' # tl rest" using 2 by (cases rest) auto
        ultimately show ?thesis
          using Cons True q [OF 2(1)] glob_deep_slash [of "tl rest" v "[]"] by simp
      next
        case (3 d w)
        with IH [of p w] Cons True glob_lang_star_absorb [of q w d] show ?thesis by simp
      qed
    qed
  qed
qed

lemma glob_star_skip:
  assumes "glob (CHR ''*'' # p) v" and "starts_with ''*'' p \<or> CHR ''/'' \<notin> set w"
  shows "glob (CHR ''*'' # p) (w @ v)"
  using assms(2)
proof (induction w)
  case (Cons c w)
  then have "glob (CHR ''*'' # p) (w @ v)" by auto
  moreover have "starts_with ''*'' p \<or> c \<noteq> CHR ''/''" using Cons.prems by auto
  ultimately show ?case by (subst glob_star_iff) (simp add: Let_def del: starts_with_Cons)
qed (use assms(1) in simp)

lemma glob_lang_imp: "glob_lang p v \<Longrightarrow> glob p v"
proof (induction rule: glob_lang.induct)
  case (glob_star p w v)
  then have "glob (CHR ''*'' # p) v" by (subst glob_star_iff) (simp add: Let_def)
  with glob_star show ?case by (intro glob_star_skip) auto
next
  case (glob_deep p v w)
  then have "glob (CHR ''*'' # CHR ''*'' # p) v" by (subst glob_star_iff) (simp add: Let_def)
  then show ?case by (intro glob_star_skip) auto
next
  case (glob_deep_slash p v w)
  then have "glob (CHR ''*'' # CHR ''*'' # CHR ''/'' # p) v"
    by (subst glob_star_iff) (simp add: Let_def)
  then show ?case by (intro glob_star_skip) auto
qed (auto simp: glob_other_iff)

section \<open>The memo table\<close>

definition memo_ok :: "string \<Rightarrow> string \<Rightarrow> glob_memo \<Rightarrow> bool" where
  "memo_ok p v memo \<longleftrightarrow> (\<forall>i j r. memo (i, j) = Some r \<longrightarrow> r = glob (drop i p) (drop j v))"

definition sound_at :: "string \<Rightarrow> string \<Rightarrow> nat \<Rightarrow> nat \<Rightarrow> bool \<times> glob_memo \<Rightarrow> bool" where
  "sound_at p v i j r \<longleftrightarrow> fst r = glob (drop i p) (drop j v) \<and> memo_ok p v (snd r)"

lemma memo_ok_update: "memo_ok p v memo \<Longrightarrow> r = glob (drop i p) (drop j v) \<Longrightarrow> memo_ok p v (memo((i, j) \<mapsto> r))"
  by (simp add: memo_ok_def)

lemma starts_with_drop: "starts_with [c] (drop i p) \<longleftrightarrow> i < length p \<and> p ! i = c"
  by (cases "i < length p") (auto simp: starts_with_def Cons_nth_drop_Suc [symmetric])

lemma glob_drop:
  assumes "i < length p"
  shows "glob (drop i p) (drop j v) =
    (if p ! i = CHR ''*'' then
       (let deep = (i + 1 < length p \<and> p ! (i + 1) = CHR ''*''); next = i + (if deep then 2 else 1) in
        glob (drop next p) (drop j v) \<or>
        deep \<and> next < length p \<and> p ! next = CHR ''/'' \<and> glob (drop (next + 1) p) (drop j v) \<or>
        j < length v \<and> (deep \<or> v ! j \<noteq> CHR ''/'') \<and> glob (drop i p) (drop (j + 1) v))
     else j < length v \<and> (p ! i = v ! j \<or> p ! i = CHR ''?'' \<and> v ! j \<noteq> CHR ''/'') \<and>
       glob (drop (i + 1) p) (drop (j + 1) v))"
proof -
  have dp: "drop i p = p ! i # drop (i + 1) p" using assms by (simp add: Cons_nth_drop_Suc)
  have tv: "tl (drop j v) = drop (j + 1) v" by (simp add: tl_drop drop_Suc)
  have hv: "j < length v \<Longrightarrow> hd (drop j v) = v ! j" by (simp add: hd_drop_conv_nth)
  have tp: "tl (drop k p) = drop (k + 1) p" for k by (simp add: tl_drop drop_Suc)
  have dv: "drop j v = d # w \<longleftrightarrow> j < length v \<and> d = v ! j \<and> w = drop (j + 1) v" for d w
    by (cases "j < length v") (auto simp: Cons_nth_drop_Suc [symmetric])
  show ?thesis
  proof (cases "p ! i = CHR ''*''")
    case True
    with dp have dp': "CHR ''*'' # drop (i + 1) p = drop i p" by simp
    show ?thesis
      using glob_star_iff [of "drop (i + 1) p" "drop j v"] True unfolding dp'
      by (simp add: starts_with_drop tp dv Let_def del: starts_with_Cons)
  next
    case False
    with dp show ?thesis by (simp add: glob_other_iff dv)
  qed
qed

lemma matches_from_sound:
  assumes "memo_ok p v memo" and "i \<le> length p" and "j \<le> length v"
  shows "sound_at p v i j (matches_from p v i j memo)"
  using assms
proof (induction "(length p - i) + (length v - j)" arbitrary: i j memo rule: less_induct)
  case less
  note IH = less.hyps
  define store where "store = (\<lambda>(r, m :: glob_memo). (r :: bool, m((i, j) \<mapsto> r)))"
  have store: "sound_at p v i j (store rm)" if "sound_at p v i j rm" for rm
    using that by (auto simp: sound_at_def store_def memo_ok_update split: prod.splits)
  show ?case
  proof (cases "memo (i, j)")
    case (Some r)
    with less.prems(1) show ?thesis
      by (subst matches_from.simps) (auto simp: sound_at_def memo_ok_def)
  next
    case None
    show ?thesis
    proof (cases "i = length p")
      case True
      with less.prems have "sound_at p v i j (j = length v, memo)" by (auto simp: sound_at_def)
      from store [OF this] True None show ?thesis
        by (subst matches_from.simps) (simp add: store_def)
    next
      case False
      with less.prems have i: "i < length p" by simp
      note drop_eq = glob_drop [OF i, of j v]
      show ?thesis
      proof (cases "p ! i = CHR ''*''")
        case star: True
        define deep where "deep = (i + 1 < length p \<and> p ! (i + 1) = CHR ''*'')"
        define nxt where "nxt = i + (if deep then 2 else 1)"
        have nxt: "nxt \<le> length p" "i < nxt" using i by (auto simp: nxt_def deep_def)
        obtain r1 m1 where m1: "matches_from p v nxt j memo = (r1, m1)" by fastforce
        with IH [of nxt j memo] nxt i less.prems have s1: "sound_at p v nxt j (r1, m1)" by simp
        define slash where "slash = (deep \<and> nxt < length p \<and> p ! nxt = CHR ''/'')"
        obtain r2 m2 where m2: "(if slash then matches_from p v (nxt + 1) j m1 else (False, m1)) = (r2, m2)"
          by fastforce
        have s2: "memo_ok p v m2 \<and> r2 = (slash \<and> glob (drop (nxt + 1) p) (drop j v))"
        proof (cases slash)
          case True
          with nxt i less.prems s1 have "sound_at p v (nxt + 1) j (matches_from p v (nxt + 1) j m1)"
            by (intro IH) (auto simp: sound_at_def slash_def)
          with m2 True show ?thesis by (simp add: sound_at_def)
        qed (use m2 s1 in \<open>auto simp: sound_at_def\<close>)
        define step where "step = (j < length v \<and> (deep \<or> v ! j \<noteq> CHR ''/''))"
        define r3 where "r3 = (if step then matches_from p v i (j + 1) m2 else (False, m2))"
        have s3: "memo_ok p v (snd r3) \<and> fst r3 = (step \<and> glob (drop i p) (drop (j + 1) v))"
        proof (cases step)
          case True
          with i less.prems s2 have "sound_at p v i (j + 1) (matches_from p v i (j + 1) m2)"
            by (intro IH) (auto simp: step_def)
          with True show ?thesis by (simp add: sound_at_def r3_def)
        qed (use s2 in \<open>auto simp: r3_def\<close>)
        have g: "glob (drop i p) (drop j v) = (r1 \<or> r2 \<or> fst r3)"
          using drop_eq s1 s2 s3
          unfolding if_P [OF star] Let_def deep_def [symmetric] nxt_def [symmetric]
          by (simp add: sound_at_def slash_def step_def)
        have "sound_at p v i j (if r1 then (True, m1) else if r2 then (True, m2) else r3)"
          using g s1 s2 s3 by (simp add: sound_at_def) blast
        moreover have "matches_from p v i j memo = store (if r1 then (True, m1) else if r2 then (True, m2) else r3)"
        proof -
          have facts: "(length p \<le> i) = False" "(p ! i = CHR ''*'') = True" using i star by auto
          show ?thesis
            by (subst matches_from.simps)
              (simp only: None option.case facts if_False if_True Let_def deep_def [symmetric]
                nxt_def [symmetric] m1 prod.case slash_def [symmetric] m2 step_def [symmetric]
                r3_def [symmetric] store_def; cases r1; cases r2; simp split: prod.splits)
        qed
        ultimately show ?thesis using store by simp
      next
        case other: False
        define step where "step = (j < length v \<and> (p ! i = v ! j \<or> p ! i = CHR ''?'' \<and> v ! j \<noteq> CHR ''/''))"
        define r where "r = (if step then matches_from p v (i + 1) (j + 1) memo else (False, memo))"
        have "sound_at p v i j r"
        proof (cases step)
          case True
          with i less.prems have "sound_at p v (i + 1) (j + 1) (matches_from p v (i + 1) (j + 1) memo)"
            by (intro IH) (auto simp: step_def)
          with True other drop_eq show ?thesis by (simp add: sound_at_def r_def step_def)
        qed (use drop_eq other less.prems in \<open>auto simp: sound_at_def r_def step_def\<close>)
        moreover have "matches_from p v i j memo = store r"
          using None i other
          by (subst matches_from.simps) (simp add: store_def r_def step_def [symmetric])
        ultimately show ?thesis using store by simp
      qed
    qed
  qed
qed

lemma glob_matches_glob: "glob_matches p v = glob p v"
  using matches_from_sound [of p v "\<lambda>_. None" 0 0]
  by (simp add: glob_matches_def sound_at_def memo_ok_def)

lemma glob_matches_lang: "glob_matches p v = glob_lang p v"
  using glob_matches_glob glob_imp_lang glob_lang_imp by blast

end
