(* ===== verification/Policy_Props.thy ===== *)
theory Policy_Props
  imports Policy_Glob
begin

text \<open>
  The properties of the policy component: what a normalised policy looks like, which
  paths and effects an expanded grant set admits, what coverage between policies preserves
  and where it is blind, and the control methods each window may call.
\<close>

section \<open>Normalisation\<close>

definition rule_contained :: "string \<Rightarrow> bool" where
  "rule_contained rule \<longleftrightarrow>
     rule \<noteq> [] \<and> hd rule \<noteq> CHR ''/'' \<and> CHR '':'' \<notin> set rule \<and> CHR 92 \<notin> set rule \<and>
     (\<forall>c \<in> set (split_on (CHR ''/'') rule). c \<noteq> [] \<and> c \<noteq> ''.'' \<and> c \<noteq> ''..'')"

lemma normalize_relative_rule_contained:
  assumes "normalize_relative_rule b v = Inr w" shows "rule_contained w"
proof -
  have w: "w = slashed (trim v)" and ok: "\<not> relative_rule_invalid b w"
    using assms by (auto simp: normalize_relative_rule_def Let_def split: if_splits)
  have "CHR 92 \<notin> set w" unfolding w slashed_def by (rule replace_char_removes) simp
  with ok show ?thesis
    by (cases w) (auto simp: rule_contained_def relative_rule_invalid_def list_ex_iff)
qed

lemma normalize_strings_ci_subset:
  assumes "trimmed vals" shows "set (normalize_strings_ci vals) \<subseteq> set vals"
  using set_normalize_strings_ci [of vals] trimmed_non_empty_id [OF assms] by simp

lemma normalize_fs_grant_contained:
  assumes "normalize_fs_grant env g = Inr g'"
  shows "(\<forall>r \<in> set (fg_files g') \<union> set (fg_globs g'). rule_contained r) \<and>
    (fg_files g' \<noteq> [] \<or> fg_globs g' \<noteq> [] \<longrightarrow> fg_roots g' \<noteq> [] \<or> fg_special_roots g' \<noteq> []) \<and>
    fg_access g' = fg_access g"
proof -
  from assms obtain wss globs files where
    gl: "map_result (normalize_relative_rule True) (fg_globs g) = Inr globs" and
    fi: "map_result (normalize_relative_rule False) (fg_files g) = Inr files" and
    g': "g' = g\<lparr>fg_roots := normalize_strings_ci (concat wss), fg_globs := normalize_strings_ci globs,
      fg_files := normalize_strings_ci files, fg_special_roots := normalize_strings (fg_special_roots g)\<rparr>" and
    root: "\<not> ((normalize_strings_ci globs \<noteq> [] \<or> normalize_strings_ci files \<noteq> []) \<and>
      normalize_strings_ci (concat wss) = [] \<and> normalize_strings (fg_special_roots g) = [])"
    by (auto simp: normalize_fs_grant_def rbind_Inr_iff Let_def split: if_splits)
  have "\<forall>r \<in> set globs. rule_contained r" "\<forall>r \<in> set files. rule_contained r"
    using map_result_Inr_set [OF gl] map_result_Inr_set [OF fi] normalize_relative_rule_contained
    by blast+
  then show ?thesis
    using normalize_strings_ci_subset [OF relative_rule.list_trimmed [OF gl]]
      normalize_strings_ci_subset [OF relative_rule.list_trimmed [OF fi]] root
    by (auto simp: g')
qed

text \<open>Normalising a policy is idempotent: a policy that \<open>normalize_permission_policy\<close> accepted is
  accepted again unchanged, so a revision comparison after a second pass sees no difference.\<close>

theorem normalize_permission_policy_idem:
  assumes "os_env_ok env" and "normalize_permission_policy env p = Inr p'"
  shows "normalize_permission_policy env p' = Inr p'"
  using assms by (rule normalize_permission_policy_again)

definition sample_url :: url where
  "sample_url = \<lparr>url_scheme = ''https'', url_host_str = Some ''a.b'', url_username = [], url_password = None,
     url_path = ''/'', url_query = None, url_fragment = None, url_origin = ''https://a.b''\<rparr>"

definition sample_env :: os_env where
  "sample_env =
     \<lparr>cfg_windows = False, parse_path = unix_parse, show_path = unix_show,
      canonicalize = (\<lambda>p. if p = unix_parse ''/w'' \<or> p = unix_parse ''/w/s'' \<or> p = unix_parse ''/b'' then Some p else None),
      is_dir = (\<lambda>p. p \<noteq> unix_parse ''/b''), is_file = (\<lambda>p. p = unix_parse ''/b''),
      to_lowercase = to_ascii_lowercase,
      parse_url = (\<lambda>s. if s = ''https://a.b'' \<or> s = ''https://a.b/'' then Some sample_url else None)\<rparr>"

definition sample_policy :: permission_policy where
  "sample_policy =
     \<lparr>pp_level = Writable,
      pp_rules = default_rules\<lparr>
        sr_file_system := [\<lparr>fg_access = Deny, fg_roots = ['' /w ''], fg_globs = [''s/**''], fg_files = [],
          fg_special_roots = []\<rparr>],
        sr_network := default_network\<lparr>ng_hosts := [''*.A.b'']\<rparr>,
        sr_process := default_process\<lparr>pg_allowed_commands := [''/b'']\<rparr>,
        sr_browser := default_browser\<lparr>bg_origins := [''https://a.b/'']\<rparr>\<rparr>,
      pp_revision = 1\<rparr>"

lemma unix_sample_paths:
  "unix_show (unix_parse ''/w'') = ''/w''" "unix_show (unix_parse ''/w/s'') = ''/w/s''"
  "unix_show (unix_parse ''/b'') = ''/b''"
  by code_simp+

lemma trim_sample_paths:
  "trim ''/w'' = ''/w''" "trim ''/w/s'' = ''/w/s''" "trim ''/b'' = ''/b''" "trim ''https://a.b'' = ''https://a.b''"
  by code_simp+

lemma sample_env_ok: "os_env_ok sample_env"
  by (auto simp: os_env_ok_def sample_env_def display_path_def unix_sample_paths trim_sample_paths
      sample_url_def bare_origin_url_def)

lemma sample_policy_normalizes: "is_ok (normalize_permission_policy sample_env sample_policy)"
  by code_simp

lemma normalize_permission_policy_idem_witness:
  "\<exists>p'. normalize_permission_policy sample_env sample_policy = Inr p' \<and>
        normalize_permission_policy sample_env p' = Inr p'"
proof (cases "normalize_permission_policy sample_env sample_policy")
  case (Inl e)
  with sample_policy_normalizes show ?thesis by simp
next
  case (Inr p')
  with normalize_permission_policy_idem [OF sample_env_ok Inr] show ?thesis by blast
qed

lemma normalize_network_switch:
  "normalize_network n = Inr m \<Longrightarrow>
     ng_enabled m = (ng_unrestricted_hosts m \<or> ng_hosts m \<noteq> [] \<or> ng_protocols m \<noteq> [])"
  by (auto simp: normalize_network_def rbind_Inr_iff Let_def)

lemma normalized_network_switch:
  assumes "normalize_permission_policy env p = Inr p'"
  shows "let n = sr_network (pp_rules p') in
    ng_enabled n = (ng_unrestricted_hosts n \<or> ng_hosts n \<noteq> [] \<or> ng_protocols n \<noteq> [])"
proof (cases "pp_level p = FullAccess")
  case True
  with assms show ?thesis
    by (auto simp: normalize_permission_policy_def default_rules_def default_network_def)
next
  case False
  then obtain network where "normalize_network (sr_network (pp_rules p)) = Inr network"
    and "sr_network (pp_rules p') = network"
    using assms by (auto simp: normalize_permission_policy_def rbind_Inr_iff Let_def)
  then show ?thesis using normalize_network_switch by (simp add: Let_def)
qed

text \<open>C27: A normalised policy cannot name a file outside the roots it lists: every file and glob rule
  is a relative path without empty, \<open>.\<close> or \<open>..\<close> components, without drive or stream separator
  and without backslashes, every grant with such rules has a root, and the network switch is
  on exactly when some host or protocol is allowed.\<close>

theorem normalized_policy_contained:
  assumes "normalize_permission_policy env p = Inr p'"
  shows "(\<forall>g \<in> set (sr_file_system (pp_rules p')).
      (\<forall>r \<in> set (fg_files g) \<union> set (fg_globs g). rule_contained r) \<and>
      (fg_files g \<noteq> [] \<or> fg_globs g \<noteq> [] \<longrightarrow> fg_roots g \<noteq> [] \<or> fg_special_roots g \<noteq> [])) \<and>
    (let n = sr_network (pp_rules p') in
      ng_enabled n = (ng_unrestricted_hosts n \<or> ng_hosts n \<noteq> [] \<or> ng_protocols n \<noteq> []))"
proof (cases "pp_level p = FullAccess")
  case True
  with assms normalized_network_switch [OF assms] show ?thesis
    by (auto simp: normalize_permission_policy_def default_rules_def)
next
  case False
  then obtain grants where
    g: "map_result (normalize_fs_grant env) (sr_file_system (pp_rules p)) = Inr grants" and
    p': "set (sr_file_system (pp_rules p')) = set grants"
    using assms by (auto simp: normalize_permission_policy_def rbind_Inr_iff Let_def)
  have "\<exists>g0. normalize_fs_grant env g0 = Inr g" if "g \<in> set grants" for g
    using map_result_Inr_set [OF g that] by blast
  then show ?thesis
    using normalize_fs_grant_contained normalized_network_switch [OF assms] unfolding p' by blast
qed

lemma normalized_policy_contained_witness:
  "\<exists>p'. normalize_permission_policy sample_env sample_policy = Inr p' \<and>
     (\<forall>g \<in> set (sr_file_system (pp_rules p')). \<forall>r \<in> set (fg_globs g). rule_contained r)"
proof (cases "normalize_permission_policy sample_env sample_policy")
  case (Inr p')
  with normalized_policy_contained [OF Inr] show ?thesis by auto
qed (use sample_policy_normalizes in simp)

section \<open>File system grants\<close>

lemma relative_to_root_iff:
  "relative_to_root target root = Some rest \<longleftrightarrow>
     root \<noteq> [] \<and> (target = root \<and> rest = [] \<or> target \<noteq> root \<and> target = root @ ''/'' @ rest)"
  by (auto simp: relative_to_root_def bind_eq_Some_conv)

definition inside_root :: "os_env \<Rightarrow> string \<Rightarrow> path \<Rightarrow> bool" where
  "inside_root env root target \<longleftrightarrow>
     (let t = normalized_path env target; r = normalized_path env (parse_path env root) in
      r \<noteq> [] \<and> (t = r \<or> (\<exists>rest. t = r @ ''/'' @ rest)))"

lemma relative_to_root_None_iff:
  "relative_to_root target root = None \<longleftrightarrow> root = [] \<or> (target \<noteq> root \<and> (\<forall>rest. target \<noteq> root @ ''/'' @ rest))"
proof (cases "relative_to_root target root")
  case None
  have "\<not> (root \<noteq> [] \<and> target = root)"
    using None relative_to_root_iff [of target root "[]"] by auto
  moreover have "\<not> (root \<noteq> [] \<and> target = root @ ''/'' @ rest)" for rest
    using None relative_to_root_iff [of target root rest] by auto
  ultimately show ?thesis using None by blast
next
  case (Some rest)
  with relative_to_root_iff [of target root rest] show ?thesis by simp blast
qed

lemma fs_grant_matches_root [simp]:
  "fs_grant_matches env (fs_grant_of a [root] []) target \<longleftrightarrow> inside_root env root target"
  using relative_to_root_None_iff [of "normalized_path env target" "normalized_path env (parse_path env root)"]
  by (auto simp: fs_grant_matches_def grant_candidates_def fs_grant_of_def inside_root_def
      List.map_filter_def Let_def)

lemma fs_grant_matches_special_root [simp]:
  "fs_grant_matches env (fs_grant_of a [] ['':root'']) target"
  by (simp add: fs_grant_matches_def grant_candidates_def fs_grant_of_def List.map_filter_def)

lemma fg_access_fs_grant_of [simp]: "fg_access (fs_grant_of a rs ss) = a"
  by (simp add: fs_grant_of_def)

text \<open>The profiles without extra rules draw an exact line: a read is allowed in the workspace root
  (compared by whole path components), full access outside plan mode reads everything, a
  write needs a profile that may write, and plan mode never writes.\<close>

theorem default_profile_file_access:
  "file_system_grants_allow env (gs_file_system (expand_permission_profile profile mode sid rid root)) access target
   \<longleftrightarrow> (case access of
          Read \<Rightarrow> inside_root env root target \<or> profile = FullAccess \<and> mode \<noteq> Plan
        | Write \<Rightarrow> mode \<noteq> Plan \<and> (profile = FullAccess \<or> profile = Writable \<and> inside_root env root target)
        | Deny \<Rightarrow> False)"
  by (cases access; cases profile; cases mode)
    (simp_all add: file_system_grants_allow_def expand_permission_profile_def
      expand_permission_policy_def expand_file_system_def default_rules_def)

text \<open>Plan mode forgets deny rules. Outside plan mode a deny rule that matches forbids a target
  whatever else is granted; the expansion for plan mode keeps only the read grants, so the
  same policy then lets every file of the workspace be read, denied or not.\<close>

theorem plan_mode_ignores_deny:
  assumes "g \<in> set (sr_file_system (pp_rules p))" and "fg_access g = Deny"
    and "fs_grant_matches env g target" and "inside_root env root target"
  shows "\<not> file_system_grants_allow env (gs_file_system (expand_permission_policy p am Default_Mode sid rid root)) access target \<and>
    file_system_grants_allow env (gs_file_system (expand_permission_policy p am Plan sid rid root)) Read target"
proof
  let ?plan = "expand_file_system p Plan root"
  have "g \<in> set (expand_file_system p Default_Mode root)"
    using assms(1,2) by (auto simp: expand_file_system_def Let_def)
  then have "list_ex (\<lambda>g. fg_access g = Deny \<and> fs_grant_matches env g target)
      (expand_file_system p Default_Mode root)"
    using assms(2,3) by (auto simp: list_ex_iff)
  then show "\<not> file_system_grants_allow env (gs_file_system (expand_permission_policy p am Default_Mode sid rid root)) access target"
    by (simp add: file_system_grants_allow_def expand_permission_policy_def)
  have "\<not> list_ex (\<lambda>g. fg_access g = Deny \<and> fs_grant_matches env g target) ?plan"
    by (auto simp: expand_file_system_def Let_def list_ex_iff)
  moreover have "fs_grant_of Read [root] [] \<in> set ?plan"
    by (simp add: expand_file_system_def Let_def)
  then have "list_ex (\<lambda>g. fg_access g = Read \<and> fs_grant_matches env g target) ?plan"
    using assms(4) by (auto simp: list_ex_iff intro!: bexI [of _ "fs_grant_of Read [root] []"])
  ultimately show "file_system_grants_allow env (gs_file_system (expand_permission_policy p am Plan sid rid root)) Read target"
    by (auto simp: file_system_grants_allow_def expand_permission_policy_def list_ex_iff)
qed

lemma plan_mode_ignores_deny_witness:
  "let g = \<lparr>fg_access = Deny, fg_roots = [''/w/s''], fg_globs = [], fg_files = [], fg_special_roots = []\<rparr>;
       p = \<lparr>pp_level = Writable, pp_rules = default_rules\<lparr>sr_file_system := [g]\<rparr>, pp_revision = 0\<rparr> in
   \<not> file_system_grants_allow sample_env
       (gs_file_system (expand_permission_policy p Interactive Default_Mode [] [] ''/w'')) Read (unix_parse ''/w/s'') \<and>
   file_system_grants_allow sample_env
       (gs_file_system (expand_permission_policy p Interactive Plan [] [] ''/w'')) Read (unix_parse ''/w/s'')"
proof -
  let ?g = "\<lparr>fg_access = Deny, fg_roots = [''/w/s''], fg_globs = [], fg_files = [], fg_special_roots = []\<rparr>"
  let ?p = "\<lparr>pp_level = Writable, pp_rules = default_rules\<lparr>sr_file_system := [?g]\<rparr>, pp_revision = 0\<rparr>"
  have m: "fs_grant_matches sample_env ?g (unix_parse ''/w/s'')" by code_simp
  have "normalized_path sample_env (unix_parse ''/w/s'') = ''/w/s''"
       "normalized_path sample_env (parse_path sample_env ''/w'') = ''/w''" by code_simp+
  then have i: "inside_root sample_env ''/w'' (unix_parse ''/w/s'')" by (simp add: inside_root_def)
  show ?thesis
    using plan_mode_ignores_deny [of ?g ?p sample_env "unix_parse ''/w/s''" "''/w''"] m i by simp
qed

text \<open>C28: The glob matcher with its memo table decides exactly the language \<open>glob_lang\<close>: a star
  matches inside one segment, a double star across segments, and the slash that follows a double
  star may be skipped at any position.\<close>

theorem glob_matches_iff_lang: "glob_matches pattern v \<longleftrightarrow> glob_lang pattern v"
  by (rule glob_matches_lang)

text \<open>A pattern \<open>**/name\<close> also accepts a file whose name merely ends in \<open>name\<close>, since the matcher
  skips the slash after the double star in the middle of a segment.\<close>

theorem glob_double_star_suffix:
  assumes "CHR ''*'' \<notin> set name"
  shows "glob_matches (''**/'' @ name) (before @ name)"
proof -
  have "glob_lang name name" using assms
    by (induction name) (auto intro: glob_end glob_char)
  then show ?thesis using glob_deep_slash [of name name before] by (simp add: glob_matches_lang)
qed

lemma glob_double_star_suffix_witness:
  "glob_matches ''**/a'' ''xa''"
  using glob_double_star_suffix [of "''a''" "''x''"] by simp

section \<open>The coarse gate of an expanded policy\<close>

definition may_write :: "permission_policy \<Rightarrow> behavior_mode \<Rightarrow> bool" where
  "may_write p mode \<longleftrightarrow> mode \<noteq> Plan \<and> pp_level p \<noteq> ReadOnly"

fun gate_spec :: "permission_policy \<Rightarrow> behavior_mode \<Rightarrow> tool_effect \<Rightarrow> bool" where
  "gate_spec p mode Effect_ReadOnly = True"
| "gate_spec p mode WorkspaceWrite = may_write p mode"
| "gate_spec p mode Process = may_write p mode"
| "gate_spec p mode ExternalSideEffect =
     (mode \<noteq> Plan \<and>
      (ng_enabled (sr_network (pp_rules p)) \<or> ng_unrestricted_hosts (sr_network (pp_rules p)) \<or>
       pp_level p = FullAccess \<or>
       pp_level p = Writable \<and>
         ((\<exists>r \<in> set (sr_mcp (pp_rules p)). \<not> mr_read_only r) \<or> sr_connectors (pp_rules p) \<noteq> [])))"
| "gate_spec p mode BrowserObserve = (bg_observe (sr_browser (pp_rules p)) \<or> pp_level p = FullAccess)"
| "gate_spec p mode BrowserAct =
     (may_write p mode \<and>
      (pp_level p = FullAccess \<or>
       (let b = sr_browser (pp_rules p) in
        bg_act b \<or> bg_upload b \<or> bg_download b \<or> bg_cookie_storage b \<or> bg_cdp b)))"
| "gate_spec p mode ComputerObserve = (cg_observe (sr_computer (pp_rules p)) \<or> pp_level p = FullAccess)"
| "gate_spec p mode ComputerAct =
     (may_write p mode \<and> (pp_level p = FullAccess \<or> cg_act (sr_computer (pp_rules p))))"

lemma expand_fs_has:
  "list_ex (\<lambda>g. fg_access g = Read) (expand_file_system p mode root)"
  "list_ex (\<lambda>g. fg_access g = Write) (expand_file_system p mode root) \<longleftrightarrow> may_write p mode"
  by (auto simp: expand_file_system_def may_write_def Let_def list_ex_iff
      intro!: bexI [of _ "fs_grant_of Write [root] []"])

lemma expand_network_enabled:
  "ng_enabled (expand_network p mode) = gate_spec p mode ExternalSideEffect"
  by (cases "pp_level p"; cases mode)
    (auto simp: expand_network_def default_network_def Let_def list_ex_iff)

lemma expanded_gate:
  "capability_grant_allows (expand_permission_policy p am mode sid rid root) effect \<longleftrightarrow> gate_spec p mode effect"
proof (cases effect)
  case BrowserAct
  then show ?thesis
    by (cases "pp_level p")
      (auto simp: expand_permission_policy_def expand_browser_def browser_without_effects_def may_write_def Let_def)
next
  case BrowserObserve
  then show ?thesis
    by (cases "pp_level p")
      (auto simp: expand_permission_policy_def expand_browser_def browser_without_effects_def Let_def)
next
  case Process
  then show ?thesis
    by (cases "pp_level p")
      (auto simp: expand_permission_policy_def expand_process_def default_process_def may_write_def Let_def)
next
  case ComputerObserve
  then show ?thesis
    by (cases "pp_level p") (auto simp: expand_permission_policy_def expand_computer_def Let_def)
next
  case ComputerAct
  then show ?thesis
    by (cases "pp_level p") (auto simp: expand_permission_policy_def expand_computer_def may_write_def Let_def)
qed (simp_all add: expand_permission_policy_def expand_fs_has expand_network_enabled)

text \<open>The effects an expanded grant set lets through are exactly these: plan mode admits no side
  effect; the read-only level admits none but the network one; full access admits all outside
  plan mode; a writable level writes, spawns processes and acts where its rules say so.\<close>

theorem expanded_gate_exact:
  "capability_grant_allows (expand_permission_policy p am mode sid rid root) effect \<longleftrightarrow> gate_spec p mode effect"
  by (rule expanded_gate)

text \<open>Plan mode is safe under every policy: the engine denies each side effect, and the grants of the
  plan expansion admit none either, whatever the profile, the approval policy and the rules.\<close>

theorem plan_mode_no_side_effect:
  assumes "is_side_effect effect"
  shows "\<not> capability_grant_allows (expand_permission_policy p am Plan sid rid root) effect \<and>
    (pc_behavior_mode ctx = Plan \<and> pc_effect ctx = effect \<longrightarrow> (\<exists>code. evaluate ctx = Deny_Decision code))"
  using assms unfolding expanded_gate
  by (cases effect) (auto simp: is_side_effect_def evaluate_def may_write_def)

lemma plan_mode_no_side_effect_witness:
  "\<not> capability_grant_allows (expand_permission_policy default_policy Interactive Plan [] [] ''/w'') Process"
  using plan_mode_no_side_effect [of Process default_policy Interactive "[]" "[]" "''/w''"]
  by (simp add: is_side_effect_def)

section \<open>Coverage\<close>

lemma string_scope_covers_refl: "string_scope_covers vals vals b"
  by (auto simp: string_scope_covers_def list_all_iff list_ex_iff)

text \<open>Every policy covers itself, so an unchanged policy is never reported as revoked.\<close>

theorem permission_policy_covers_refl: "permission_policy_covers p p"
  by (fastforce simp: permission_policy_covers_def fs_rules_cover_def network_covers_def process_covers_def
      browser_covers_def computer_covers_def string_scope_covers_refl list_all_iff list_ex_iff Let_def
      split: option.splits)

lemma covers_rank:
  assumes "permission_policy_covers c b" and "pp_level c \<noteq> FullAccess"
  shows "pp_level b \<noteq> FullAccess" and "pp_level b = Writable \<Longrightarrow> pp_level c = Writable"
    and "pp_level c = ReadOnly \<Longrightarrow> pp_level b = ReadOnly"
  using assms by (cases "pp_level c"; cases "pp_level b"; simp add: permission_policy_covers_def)+

lemma covers_parts:
  assumes "permission_policy_covers c b" and "pp_level c \<noteq> FullAccess"
  shows "network_covers (sr_network (pp_rules c)) (sr_network (pp_rules b))"
    and "browser_covers (sr_browser (pp_rules c)) (sr_browser (pp_rules b))"
    and "computer_covers (sr_computer (pp_rules c)) (sr_computer (pp_rules b))"
    and "\<forall>r \<in> set (sr_mcp (pp_rules b)). \<exists>q \<in> set (sr_mcp (pp_rules c)).
        mr_server_id q = mr_server_id r \<and> mr_tool_name q = mr_tool_name r \<and>
        mr_schema_hash q = mr_schema_hash r \<and> (mr_read_only r \<or> \<not> mr_read_only q)"
    and "\<forall>r \<in> set (sr_connectors (pp_rules b)). \<exists>q \<in> set (sr_connectors (pp_rules c)).
        cr_account_id q = cr_account_id r \<and> (\<forall>a \<in> set (cr_actions r). a \<in> set (cr_actions q) \<and>
          (a \<in> set (cr_read_only_actions r) \<or> a \<notin> set (cr_read_only_actions q)))"
  using assms by (auto simp: permission_policy_covers_def Let_def list_all_iff list_ex_iff split: if_splits)

text \<open>C29: Coverage preserves the coarse gate: when a candidate covers a normalised baseline, every
  effect the baseline's grants admit in a mode is admitted by the candidate's grants as well.\<close>

theorem covers_preserves_gate:
  assumes "permission_policy_covers c b" and "normalize_permission_policy env b0 = Inr b"
    and "capability_grant_allows (expand_permission_policy b am mode sid rid root) effect"
  shows "capability_grant_allows (expand_permission_policy c am mode sid rid root) effect"
proof (cases "pp_level c = FullAccess")
  case True
  with assms(3) show ?thesis unfolding expanded_gate by (cases effect) (auto simp: may_write_def)
next
  case False
  note parts = covers_parts [OF assms(1) False] and rank = covers_rank [OF assms(1) False]
  have switch: "ng_unrestricted_hosts (sr_network (pp_rules b)) \<Longrightarrow> ng_enabled (sr_network (pp_rules b))"
    using normalized_network_switch [OF assms(2)] by (simp add: Let_def)
  have wr: "may_write b mode \<Longrightarrow> may_write c mode"
    using rank by (auto simp: may_write_def)
  from assms(3) have "gate_spec b mode effect" by (simp add: expanded_gate)
  then have "gate_spec c mode effect"
  proof (cases effect)
    case ExternalSideEffect
    with \<open>gate_spec b mode effect\<close> switch parts(1) rank(1) have "mode \<noteq> Plan" and
      "ng_enabled (sr_network (pp_rules c)) \<or> pp_level b = Writable \<and>
         ((\<exists>r \<in> set (sr_mcp (pp_rules b)). \<not> mr_read_only r) \<or> sr_connectors (pp_rules b) \<noteq> [])"
      by (auto simp: network_covers_def)
    moreover have "(\<exists>r \<in> set (sr_mcp (pp_rules b)). \<not> mr_read_only r) \<Longrightarrow>
        \<exists>r \<in> set (sr_mcp (pp_rules c)). \<not> mr_read_only r"
      using parts(4) by blast
    moreover have "sr_connectors (pp_rules b) \<noteq> [] \<Longrightarrow> sr_connectors (pp_rules c) \<noteq> []"
      using parts(5) by (cases "sr_connectors (pp_rules b)") auto
    ultimately show ?thesis using rank(2) ExternalSideEffect by auto
  next
    case BrowserAct
    with \<open>gate_spec b mode effect\<close> parts(2) rank(1) wr show ?thesis
      by (auto simp: browser_covers_def Let_def)
  next
    case BrowserObserve
    with \<open>gate_spec b mode effect\<close> parts(2) rank(1) show ?thesis by (simp add: browser_covers_def)
  next
    case ComputerObserve
    with \<open>gate_spec b mode effect\<close> parts(3) rank(1) show ?thesis by (simp add: computer_covers_def)
  next
    case ComputerAct
    with \<open>gate_spec b mode effect\<close> parts(3) rank(1) wr show ?thesis by (simp add: computer_covers_def)
  qed (use \<open>gate_spec b mode effect\<close> wr in simp_all)
  then show ?thesis by (simp add: expanded_gate)
qed

lemma normalize_writable_default:
  "normalize_permission_policy env (default_policy\<lparr>pp_level := Writable\<rparr>) = Inr (default_policy\<lparr>pp_level := Writable\<rparr>)"
  by (simp add: normalize_permission_policy_def default_policy_def default_rules_def normalize_network_def
      default_network_def default_process_def default_browser_def default_computer_def Let_def)

lemma covers_preserves_gate_witness:
  "capability_grant_allows (expand_permission_policy (default_policy\<lparr>pp_level := Writable\<rparr>)
     Interactive Default_Mode [] [] ''/w'') WorkspaceWrite"
proof (rule covers_preserves_gate [OF permission_policy_covers_refl normalize_writable_default])
  show "capability_grant_allows (expand_permission_policy (default_policy\<lparr>pp_level := Writable\<rparr>)
      Interactive Default_Mode [] [] ''/w'') WorkspaceWrite"
    unfolding expanded_gate by (simp add: may_write_def default_policy_def)
qed

text \<open>Coverage preserves the typed authorities: every MCP tool and every connector action the
  baseline allows, for reading or for writing, the candidate allows too.\<close>

theorem covers_preserves_typed:
  assumes "permission_policy_covers c b"
  shows "(allows_mcp b server tool hash requires_write \<longrightarrow> allows_mcp c server tool hash requires_write) \<and>
    (allows_connector b account action requires_write \<longrightarrow> allows_connector c account action requires_write)"
proof
  show "allows_mcp b server tool hash requires_write \<longrightarrow> allows_mcp c server tool hash requires_write"
  proof (cases "pp_level c = FullAccess")
    case False
    note parts = covers_parts [OF assms False] and rank = covers_rank [OF assms False]
    show ?thesis
      using parts(4) rank by (fastforce simp: allows_mcp_def list_ex_iff)
  qed (simp add: allows_mcp_def)
  show "allows_connector b account action requires_write \<longrightarrow> allows_connector c account action requires_write"
  proof (cases "pp_level c = FullAccess")
    case False
    note parts = covers_parts [OF assms False] and rank = covers_rank [OF assms False]
    show ?thesis
      using parts(5) rank by (fastforce simp: allows_connector_def list_ex_iff)
  qed (simp add: allows_connector_def)
qed

lemma covers_preserves_typed_witness:
  "let b = default_policy\<lparr>pp_rules := default_rules\<lparr>sr_mcp :=
       [\<lparr>mr_server_id = ''s'', mr_tool_name = ''t'', mr_schema_hash = ''h'', mr_read_only = True\<rparr>]\<rparr>\<rparr>;
     c = b\<lparr>pp_level := FullAccess\<rparr> in
   allows_mcp b ''s'' ''t'' ''h'' False \<and> allows_mcp c ''s'' ''t'' ''h'' False"
  using covers_preserves_typed [of
      "default_policy\<lparr>pp_level := FullAccess, pp_rules := default_rules\<lparr>sr_mcp :=
       [\<lparr>mr_server_id = ''s'', mr_tool_name = ''t'', mr_schema_hash = ''h'', mr_read_only = True\<rparr>]\<rparr>\<rparr>"
      "default_policy\<lparr>pp_rules := default_rules\<lparr>sr_mcp :=
       [\<lparr>mr_server_id = ''s'', mr_tool_name = ''t'', mr_schema_hash = ''h'', mr_read_only = True\<rparr>]\<rparr>\<rparr>"
      "''s''" "''t''" "''h''" False]
  by (simp add: permission_policy_covers_def allows_mcp_def default_policy_def)

text \<open>Coverage is blind to the command list: between two levels below full access, a baseline that
  is not unrestricted is covered in its process rules by every list of allowed commands, so
  removing or replacing an allowed command is not noticed.\<close>

theorem process_coverage_ignores_commands:
  assumes "\<not> pg_unrestricted_commands b" and "pg_spawn b \<longrightarrow> pg_spawn c"
    and "pg_interactive b \<longrightarrow> pg_interactive c"
  shows "process_covers (c\<lparr>pg_allowed_commands := commands\<rparr>) b"
  using assms by (auto simp: process_covers_def)

lemma process_coverage_ignores_commands_witness:
  "process_covers \<lparr>pg_spawn = True, pg_interactive = False, pg_unrestricted_commands = False,
       pg_allowed_commands = [''/bin/ls'']\<rparr>
     \<lparr>pg_spawn = True, pg_interactive = False, pg_unrestricted_commands = False,
       pg_allowed_commands = [''/bin/sh'']\<rparr>"
  using process_coverage_ignores_commands [of "\<lparr>pg_spawn = True, pg_interactive = False, pg_unrestricted_commands = False,
       pg_allowed_commands = [''/bin/sh'']\<rparr>" "\<lparr>pg_spawn = True, pg_interactive = False, pg_unrestricted_commands = False,
       pg_allowed_commands = [''/bin/sh'']\<rparr>" "[''/bin/ls'']"] by simp

text \<open>A narrowed file rule passes for the whole root: a writable policy whose rule for a root is cut
  down to a list of globs still covers the policy that had the root without globs.\<close>

theorem coverage_misses_narrowed_rule:
  "permission_policy_covers
     \<lparr>pp_level = Writable, pp_rules = default_rules\<lparr>sr_file_system :=
        [\<lparr>fg_access = access, fg_roots = roots, fg_globs = globs, fg_files = files, fg_special_roots = specials\<rparr>]\<rparr>,
      pp_revision = m\<rparr>
     \<lparr>pp_level = Writable, pp_rules = default_rules\<lparr>sr_file_system :=
        [\<lparr>fg_access = access, fg_roots = roots, fg_globs = [], fg_files = [], fg_special_roots = specials\<rparr>]\<rparr>,
      pp_revision = n\<rparr> = (case access of Deny \<Rightarrow> globs = [] \<and> files = [] | _ \<Rightarrow> True)"
  by (cases access)
    (auto simp: permission_policy_covers_def fs_rules_cover_def network_covers_def process_covers_def
      browser_covers_def computer_covers_def string_scope_covers_refl string_scope_covers_def
      default_rules_def default_network_def default_process_def default_browser_def default_computer_def
      list_all_iff list_ex_iff)

section \<open>Windows\<close>

fun window_methods :: "window_kind \<Rightarrow> control_method list" where
  "window_methods Pet = [Method_SystemBootstrap, Method_WindowInteract, Method_WorkbenchOpen, Method_LlmChat,
     Method_AvatarRuntime, Method_MotionRuntime, Method_VoicePlayback, Method_VoiceCapture]"
| "window_methods Settings = [Method_SystemBootstrap, Method_SettingsRead, Method_SettingsWrite]"
| "window_methods Workbench = [Method_SystemBootstrap, Method_SettingsRead, Method_SettingsWrite,
     Method_WorkbenchWindow, Method_LlmRead, Method_LlmWrite, Method_LlmTest, Method_AvatarRead,
     Method_AvatarManage, Method_MotionRead, Method_MotionManage, Method_VoiceRead, Method_VoiceManage,
     Method_VoicePlayback, Method_BrowserObserve, Method_BrowserControl, Method_ComputerObserve,
     Method_ComputerControl, Method_ConnectorsManage, Method_ChannelsManage, Method_GatewayManage,
     Method_SkillsManage]"
| "window_methods Service = []"

text \<open>A window's client passes the policy engine with exactly the methods of its table; every other
  control method is denied for the missing scope, never queued for approval.\<close>

theorem window_authority:
  "evaluate (control_context (for_window w) m (required_scope m w)) =
     (if m \<in> set (window_methods w) then Allow else Deny_Decision ''missing_scope'')"
  by (cases w; cases m) (simp_all add: evaluate_def control_context_def for_window_def is_side_effect_def)

text \<open>The wire names of the control methods are unambiguous: parsing a text gives a method exactly
  when the text is that method's name.\<close>

theorem parse_method_iff: "parse_method s = Some m \<longleftrightarrow> s = method_as_str m"
  using parse_method_as_str parse_method_SomeD by blast

end
