(* ===== verification/Model_Messages.thy ===== *)
theory Model_Messages
  imports Rust_String
begin

text \<open>
  The messages of a model request (\<open>hachimi-protocol/src/agent.rs\<close>). JSON arguments are opaque texts.
\<close>

datatype model_role = System_Role | User_Role | Assistant_Role | Tool_Role

record model_tool_call =
  tc_id :: string
  tc_name :: string
  tc_arguments :: string

record model_input_image =
  mi_media_type :: string
  mi_data_base64 :: string
  mi_source_label :: string

record model_message =
  mm_role :: model_role
  mm_content :: string
  mm_name :: "string option"
  mm_tool_call_id :: "string option"
  mm_tool_calls :: "model_tool_call list"
  mm_input_images :: "model_input_image list"

definition user_message :: "string \<Rightarrow> model_message" where
  "user_message content = \<lparr>mm_role = User_Role, mm_content = content, mm_name = None, mm_tool_call_id = None,
     mm_tool_calls = [], mm_input_images = []\<rparr>"

definition assistant_message :: "string \<Rightarrow> model_tool_call list \<Rightarrow> model_message" where
  "assistant_message content calls = \<lparr>mm_role = Assistant_Role, mm_content = content, mm_name = None,
     mm_tool_call_id = None, mm_tool_calls = calls, mm_input_images = []\<rparr>"

definition tool_message :: "model_tool_call \<Rightarrow> string \<Rightarrow> model_message" where
  "tool_message call content = \<lparr>mm_role = Tool_Role, mm_content = content, mm_name = Some (tc_name call),
     mm_tool_call_id = Some (tc_id call), mm_tool_calls = [], mm_input_images = []\<rparr>"

end
