(* ===== verification/Tool_Names.thy ===== *)
theory Tool_Names
  imports Model_Messages Agent_Enums "HOL-Library.AList"
begin

text \<open>
  Provider-safe tool names (\<open>hachimi-llm/src/provider_tool_names.rs\<close>): the table that gives
  every internal tool name an alias the model provider accepts, and the decoder that turns
  aliases in the event stream back. A \<open>BTreeMap\<close> is an association list without duplicate
  keys, a \<open>BTreeSet\<close> a list read as a set. JSON values are opaque texts.
\<close>

section \<open>Events\<close>

datatype agent_message_phase = Commentary | FinalAnswer | Unknown_Phase
datatype model_finish_reason = Stop | ToolCalls | Length_Reason | ContentFilter | Unknown_Reason

datatype model_event =
    AgentMessageStarted string agent_message_phase
  | AgentMessageDelta string string
  | AgentMessageCompleted string
  | TextDelta string
  | ReasoningDelta string
  | ToolCallDelta nat "string option" string string
  | ToolCallCompleted model_tool_call
  | Usage token_usage
  | Completed model_finish_reason

section \<open>Aliases\<close>

definition max_provider_tool_name_bytes :: nat where
  "max_provider_tool_name_bytes = 64"

definition safe_byte :: "char \<Rightarrow> bool" where
  "safe_byte c \<longleftrightarrow> is_ascii_alnum c \<or> c = CHR ''_'' \<or> c = CHR ''-''"

definition is_provider_safe :: "string \<Rightarrow> bool" where
  "is_provider_safe name \<longleftrightarrow>
     name \<noteq> [] \<and> length name \<le> max_provider_tool_name_bytes \<and> list_all safe_byte name"

text \<open>
  The loop of \<open>sanitized_base\<close> over the bytes of the name: the continuation bytes of a
  character that is not ASCII follow a separator already written, so they add nothing.
\<close>

fun sanitize_loop :: "string \<Rightarrow> bool \<Rightarrow> string \<Rightarrow> string" where
  "sanitize_loop acc last_sep [] = acc"
| "sanitize_loop acc last_sep (c # cs) =
     (let acc' = (if safe_byte c then acc @ [c] else if last_sep then acc else acc @ ''_'');
          sep = \<not> safe_byte c in
      if length acc' = max_provider_tool_name_bytes then acc' else sanitize_loop acc' sep cs)"

definition trim_underscores :: "string \<Rightarrow> string" where
  "trim_underscores s =
     rev (dropWhile (\<lambda>c. c = CHR ''_'') (rev (dropWhile (\<lambda>c. c = CHR ''_'') s)))"

definition sanitized_base :: "string \<Rightarrow> string" where
  "sanitized_base name =
     (let s = trim_underscores (sanitize_loop [] False name) in if s = [] then ''tool'' else s)"

definition numbered_alias :: "string \<Rightarrow> nat \<Rightarrow> string" where
  "numbered_alias base ordinal =
     (let suffix = ''__'' @ decimal ordinal in
      take (max_provider_tool_name_bytes - length suffix) base @ suffix)"

lemma decimal_no_underscore: "CHR ''_'' \<notin> set (decimal n)"
  using decimal_digits(1) [of n] by (auto simp: list_all_iff is_digit_def)

lemma numbered_alias_inj:
  assumes "numbered_alias base m = numbered_alias base n" shows "m = n"
proof -
  have "takeWhile (\<lambda>c. c \<noteq> CHR ''_'') (rev (numbered_alias base k)) = rev (decimal k)" for k
    using decimal_no_underscore [of k]
    by (auto simp: numbered_alias_def Let_def takeWhile_append)
  with assms have "rev (decimal m) = rev (decimal n)" by metis
  then show ?thesis by (simp add: decimal_inj)
qed

text \<open>The loop over the ordinals ends: only finitely many aliases are taken.\<close>

function alias_from :: "string \<Rightarrow> string list \<Rightarrow> nat \<Rightarrow> string" where
  "alias_from base used ordinal =
     (if numbered_alias base ordinal \<in> set used then alias_from base used (Suc ordinal)
      else numbered_alias base ordinal)"
  by pat_completeness auto
termination
proof (relation "measure (\<lambda>(base, used, k). card {j. k \<le> j \<and> numbered_alias base j \<in> set used})", simp)
  fix base used k
  assume taken: "numbered_alias base k \<in> set used"
  let ?A = "\<lambda>k. {j. k \<le> j \<and> numbered_alias base j \<in> set used}"
  have "finite (?A k)"
  proof (rule finite_imageD)
    show "finite (numbered_alias base ` ?A k)" by (rule finite_subset [of _ "set used"]) auto
    show "inj_on (numbered_alias base) (?A k)" by (rule inj_onI) (rule numbered_alias_inj)
  qed
  moreover have "?A (Suc k) \<subseteq> ?A k" "k \<in> ?A k" "k \<notin> ?A (Suc k)" using taken by auto
  then have "?A (Suc k) \<subset> ?A k" by blast
  ultimately have "card (?A (Suc k)) < card (?A k)" by (rule psubset_card_mono)
  then show "((base, used, Suc k), base, used, k)
      \<in> measure (\<lambda>(base, used, k). card {j. k \<le> j \<and> numbered_alias base j \<in> set used})" by simp
qed

declare alias_from.simps [simp del]

definition unique_alias :: "string \<Rightarrow> string list \<Rightarrow> string" where
  "unique_alias base used =
     (let candidate = take max_provider_tool_name_bytes base in
      if candidate \<notin> set used then candidate else alias_from base used 2)"

section \<open>The table\<close>

record tool_names =
  internal_to_provider :: "(string \<times> string) list"
  provider_to_internal :: "(string \<times> string) list"

definition add_alias :: "string \<Rightarrow> string \<Rightarrow> tool_names \<times> string list \<Rightarrow> tool_names \<times> string list" where
  "add_alias name alias st =
     (let (t, used) = st in
      (\<lparr>internal_to_provider = AList.update name alias (internal_to_provider t),
        provider_to_internal = AList.update alias name (provider_to_internal t)\<rparr>, alias # used))"

definition assign_aliases ::
    "(string \<Rightarrow> string list \<Rightarrow> string) \<Rightarrow> string list \<Rightarrow> tool_names \<times> string list \<Rightarrow> tool_names \<times> string list" where
  "assign_aliases pick names st = fold (\<lambda>name st. add_alias name (pick name (snd st)) st) names st"

definition from_names :: "string list \<Rightarrow> tool_names" where
  "from_names names =
     (let names = remdups_adj (sort names);
          st = ((\<lparr>internal_to_provider = [], provider_to_internal = []\<rparr>, []));
          st = assign_aliases (\<lambda>name used. name) (filter is_provider_safe names) st;
          st = assign_aliases (\<lambda>name used. unique_alias (sanitized_base name) used)
                 (filter (\<lambda>n. \<not> is_provider_safe n) names) st in
      fst st)"

definition collect_message_names :: "model_message list \<Rightarrow> string list" where
  "collect_message_names messages =
     concat (map (\<lambda>msg. (case mm_name msg of Some n \<Rightarrow> [n] | None \<Rightarrow> []) @ map tc_name (mm_tool_calls msg)) messages)"

definition for_request :: "string list \<Rightarrow> model_message list \<Rightarrow> tool_names" where
  "for_request tools messages = from_names (tools @ collect_message_names messages)"

definition for_messages :: "model_message list \<Rightarrow> tool_names" where
  "for_messages messages = from_names (collect_message_names messages)"

definition encode_name :: "tool_names \<Rightarrow> string \<Rightarrow> string" where
  "encode_name t name = (case map_of (internal_to_provider t) name of Some a \<Rightarrow> a | None \<Rightarrow> name)"

definition decode_name :: "tool_names \<Rightarrow> string \<Rightarrow> string" where
  "decode_name t alias = (case map_of (provider_to_internal t) alias of Some n \<Rightarrow> n | None \<Rightarrow> alias)"

definition is_complete_unambiguous_alias :: "tool_names \<Rightarrow> string \<Rightarrow> bool" where
  "is_complete_unambiguous_alias t candidate \<longleftrightarrow>
     map_of (provider_to_internal t) candidate \<noteq> None \<and>
     \<not> list_ex (\<lambda>k. k \<noteq> candidate \<and> starts_with candidate k) (map fst (provider_to_internal t))"

section \<open>The stream decoder\<close>

record tool_event_decoder =
  dec_names :: tool_names
  dec_pending :: "(nat \<times> string) list"

definition new_decoder :: "tool_names \<Rightarrow> tool_event_decoder" where
  "new_decoder names = \<lparr>dec_names = names, dec_pending = []\<rparr>"

fun decode_event :: "tool_event_decoder \<Rightarrow> model_event \<Rightarrow> tool_event_decoder \<times> model_event list" where
  "decode_event d (ToolCallDelta index cid name_delta arguments_delta) =
     (let pending = (if name_delta \<noteq> []
            then AList.update index
              ((case map_of (dec_pending d) index of Some s \<Rightarrow> s | None \<Rightarrow> []) @ name_delta) (dec_pending d)
            else dec_pending d);
          should_flush = (case map_of pending index of
              None \<Rightarrow> False
            | Some name \<Rightarrow> name \<noteq> [] \<and>
                (arguments_delta \<noteq> [] \<or> is_complete_unambiguous_alias (dec_names d) name)) in
      if should_flush then
        (let encoded = (case map_of pending index of Some s \<Rightarrow> s | None \<Rightarrow> []) in
         (d\<lparr>dec_pending := AList.delete index pending\<rparr>,
          [ToolCallDelta index cid (decode_name (dec_names d) encoded) arguments_delta]))
      else (d\<lparr>dec_pending := pending\<rparr>, [ToolCallDelta index cid [] arguments_delta]))"
| "decode_event d (ToolCallCompleted call) =
     (d, [ToolCallCompleted (call\<lparr>tc_name := decode_name (dec_names d) (tc_name call)\<rparr>)])"
| "decode_event d (Completed reason) =
     (d\<lparr>dec_pending := []\<rparr>,
      map (\<lambda>(index, encoded). ToolCallDelta index None (decode_name (dec_names d) encoded) [])
        (sort_key fst (dec_pending d)) @ [Completed reason])"
| "decode_event d other = (d, [other])"

fun decode_stream :: "tool_event_decoder \<Rightarrow> model_event list \<Rightarrow> tool_event_decoder \<times> model_event list" where
  "decode_stream d [] = (d, [])"
| "decode_stream d (e # es) =
     (let (d1, out1) = decode_event d e; (d2, out2) = decode_stream d1 es in (d2, out1 @ out2))"

section \<open>Aliases are safe and fresh\<close>

lemma sanitize_loop_safe:
  "list_all safe_byte acc \<Longrightarrow> length acc < max_provider_tool_name_bytes \<Longrightarrow>
   list_all safe_byte (sanitize_loop acc b s) \<and>
   length (sanitize_loop acc b s) \<le> max_provider_tool_name_bytes"
proof (induction acc b s rule: sanitize_loop.induct)
  case (2 acc b c cs)
  then show ?case by (auto simp: Let_def safe_byte_def)
qed simp

lemma dropWhile_safe: "list_all p s \<Longrightarrow> list_all p (dropWhile q s) \<and> length (dropWhile q s) \<le> length s"
  by (auto simp: list_all_iff length_dropWhile_le dest: set_dropWhileD)

lemma sanitized_base_safe: "is_provider_safe (sanitized_base name)"
proof -
  have l: "list_all safe_byte (sanitize_loop [] False name)"
    "length (sanitize_loop [] False name) \<le> max_provider_tool_name_bytes"
    using sanitize_loop_safe [of "[]" False name] by (auto simp: max_provider_tool_name_bytes_def)
  have "list_all safe_byte (trim_underscores s) \<and> length (trim_underscores s) \<le> length s"
    if "list_all safe_byte s" for s
    using that dropWhile_safe unfolding trim_underscores_def
    by (metis (no_types, lifting) le_trans length_rev list_all_rev)
  from this [OF l(1)] l(2) show ?thesis
    by (auto simp: sanitized_base_def is_provider_safe_def Let_def max_provider_tool_name_bytes_def
        safe_byte_def is_ascii_alnum_def)
qed

lemma numbered_alias_safe:
  assumes "list_all safe_byte base" and "length (decimal k) \<le> 62"
  shows "is_provider_safe (numbered_alias base k)"
proof -
  have "list_all safe_byte (decimal k)"
    using decimal_digits(1) [of k]
    by (auto simp: list_all_iff is_digit_def safe_byte_def is_ascii_alnum_def)
  moreover have "list_all safe_byte (take n base)" for n
    using assms(1) by (auto simp: list_all_iff dest: in_set_takeD)
  ultimately show ?thesis
    using assms(2)
    by (auto simp: is_provider_safe_def numbered_alias_def Let_def max_provider_tool_name_bytes_def
        safe_byte_def)
qed

lemma length_decimal: "n < 10 ^ Suc m \<Longrightarrow> length (decimal n) \<le> Suc m"
proof (induction m arbitrary: n)
  case 0
  then show ?case by (subst decimal.simps) simp
next
  case (Suc m)
  show ?case
  proof (cases "n < 10")
    case True
    then show ?thesis by (subst decimal.simps) simp
  next
    case False
    have "n div 10 < 10 ^ Suc m" using Suc.prems by (simp add: div_less_iff_less_mult)
    from Suc.IH [OF this] False show ?thesis by (subst decimal.simps) simp
  qed
qed

lemma alias_from_first:
  "\<exists>k. alias_from base used start = numbered_alias base k \<and> numbered_alias base k \<notin> set used \<and> start \<le> k \<and>
     (\<forall>j. start \<le> j \<and> j < k \<longrightarrow> numbered_alias base j \<in> set used)"
proof (induction base used start rule: alias_from.induct)
  case (1 base used start)
  show ?case
  proof (cases "numbered_alias base start \<in> set used")
    case True
    from "1.IH" [OF True] obtain k where k: "alias_from base used (Suc start) = numbered_alias base k"
      "numbered_alias base k \<notin> set used" "Suc start \<le> k"
      "\<forall>j. Suc start \<le> j \<and> j < k \<longrightarrow> numbered_alias base j \<in> set used" by blast
    then have "\<forall>j. start \<le> j \<and> j < k \<longrightarrow> numbered_alias base j \<in> set used"
      using True by (metis le_eq_less_or_eq Suc_leI)
    with k True show ?thesis by (subst alias_from.simps) (auto intro!: exI [of _ k])
  next
    case False
    then show ?thesis by (subst alias_from.simps) (auto intro!: exI [of _ start])
  qed
qed

lemma alias_from_ordinal:
  "\<exists>k. alias_from base used start = numbered_alias base k \<and> numbered_alias base k \<notin> set used \<and>
     k \<le> start + length used"
proof -
  obtain k where k: "alias_from base used start = numbered_alias base k" "numbered_alias base k \<notin> set used"
    "start \<le> k" "\<forall>j. start \<le> j \<and> j < k \<longrightarrow> numbered_alias base j \<in> set used"
    using alias_from_first by blast
  have "inj_on (numbered_alias base) {start..<k}" by (rule inj_onI) (rule numbered_alias_inj)
  moreover have "numbered_alias base ` {start..<k} \<subseteq> set used" using k(4) by auto
  ultimately have "card {start..<k} \<le> card (set used)"
    by (metis card_image card_mono finite_set)
  also have "\<dots> \<le> length used" by (rule card_length)
  finally have "k \<le> start + length used" using k(3) by simp
  with k show ?thesis by blast
qed

abbreviation table_size_limit :: nat where
  "table_size_limit \<equiv> 2 ^ 63"

lemma unique_alias_ok:
  assumes "is_provider_safe base" and "length used < table_size_limit"
  shows "unique_alias base used \<notin> set used \<and> is_provider_safe (unique_alias base used)"
proof -
  have base: "take max_provider_tool_name_bytes base = base" "list_all safe_byte base"
    using assms(1) by (auto simp: is_provider_safe_def)
  obtain k where k: "alias_from base used 2 = numbered_alias base k" "numbered_alias base k \<notin> set used"
    "k \<le> 2 + length used" using alias_from_ordinal by blast
  have "k < 10 ^ Suc 20" using k(3) assms(2) by simp
  from length_decimal [OF this] have "is_provider_safe (numbered_alias base k)"
    by (intro numbered_alias_safe base) simp
  with k assms(1) base show ?thesis by (auto simp: unique_alias_def Let_def)
qed

section \<open>The table is a bijection\<close>

definition table_ok :: "tool_names \<times> string list \<Rightarrow> bool" where
  "table_ok st \<longleftrightarrow>
     (\<forall>n a. map_of (internal_to_provider (fst st)) n = Some a \<longleftrightarrow> map_of (provider_to_internal (fst st)) a = Some n) \<and>
     set (snd st) = dom (map_of (provider_to_internal (fst st))) \<and>
     (\<forall>a \<in> set (snd st). is_provider_safe a)"

abbreviation known :: "tool_names \<times> string list \<Rightarrow> string set" where
  "known st \<equiv> dom (map_of (internal_to_provider (fst st)))"

lemma add_alias_ok:
  assumes "table_ok st" and "n \<notin> known st" and "a \<notin> set (snd st)" and "is_provider_safe a"
  shows "table_ok (add_alias n a st)"
    and "known (add_alias n a st) = insert n (known st)"
    and "snd (add_alias n a st) = a # snd st"
    and "map_of (internal_to_provider (fst (add_alias n a st))) = (map_of (internal_to_provider (fst st)))(n \<mapsto> a)"
proof -
  obtain t used where st: "st = (t, used)" by fastforce
  show "table_ok (add_alias n a st)"
    using assms unfolding table_ok_def add_alias_def st
    by (auto simp: update_conv' split: if_splits)
qed (auto simp: add_alias_def update_conv' split: prod.splits)

text \<open>One pass of \<open>from_names\<close>: \<open>pick\<close> chooses the alias from the name and the names used so far.\<close>

locale alias_pass =
  fixes pick :: "string \<Rightarrow> string list \<Rightarrow> string" and todo :: "string \<Rightarrow> string list \<Rightarrow> bool"
  assumes pick_fresh: "todo n used \<Longrightarrow> length used < table_size_limit \<Longrightarrow> pick n used \<notin> set used"
    and pick_safe: "todo n used \<Longrightarrow> length used < table_size_limit \<Longrightarrow> is_provider_safe (pick n used)"
    and todo_kept: "todo n used \<Longrightarrow> n \<noteq> m \<Longrightarrow> todo m used \<Longrightarrow> todo n (pick m used # used)"
begin

lemma pass_ok:
  assumes "table_ok st" and "distinct ns" and "set ns \<inter> known st = {}"
    and "\<forall>n \<in> set ns. todo n (snd st)" and "length (snd st) + length ns \<le> table_size_limit"
  shows "table_ok (assign_aliases pick ns st) \<and> known (assign_aliases pick ns st) = known st \<union> set ns \<and>
    length (snd (assign_aliases pick ns st)) = length (snd st) + length ns \<and>
    (\<forall>n \<in> known st. map_of (internal_to_provider (fst (assign_aliases pick ns st))) n = map_of (internal_to_provider (fst st)) n)"
  using assms
proof (induction ns arbitrary: st)
  case (Cons n ns)
  let ?a = "pick n (snd st)"
  have fresh: "?a \<notin> set (snd st)" "is_provider_safe ?a"
    using Cons.prems pick_fresh pick_safe by auto
  note add = add_alias_ok [OF Cons.prems(1) _ fresh, of n]
  have n: "n \<notin> known st" using Cons.prems(3) by auto
  have IH: "table_ok (assign_aliases pick ns (add_alias n ?a st)) \<and>
      known (assign_aliases pick ns (add_alias n ?a st)) = known (add_alias n ?a st) \<union> set ns \<and>
      length (snd (assign_aliases pick ns (add_alias n ?a st))) = length (snd (add_alias n ?a st)) + length ns \<and>
      (\<forall>m \<in> known (add_alias n ?a st). map_of (internal_to_provider (fst (assign_aliases pick ns (add_alias n ?a st)))) m
         = map_of (internal_to_provider (fst (add_alias n ?a st))) m)"
  proof (rule Cons.IH)
    show "\<forall>m \<in> set ns. todo m (snd (add_alias n ?a st))"
    proof
      fix m assume "m \<in> set ns"
      with Cons.prems(2,4) todo_kept [of m "snd st" n] show "todo m (snd (add_alias n ?a st))"
        by (auto simp: add(3) [OF n])
    qed
    show "set ns \<inter> known (add_alias n ?a st) = {}"
      unfolding add(2) [OF n] using Cons.prems(2,3) by auto
  qed (use Cons.prems add [OF n] in simp_all)
  have "assign_aliases pick (n # ns) st = assign_aliases pick ns (add_alias n ?a st)" by (simp add: assign_aliases_def)
  then show ?case using IH add [OF n] n by auto
qed (simp add: assign_aliases_def)

end

interpretation reserve: alias_pass "\<lambda>n used. n" "\<lambda>n used. is_provider_safe n \<and> n \<notin> set used"
  by unfold_locales auto

interpretation assign: alias_pass "\<lambda>n used. unique_alias (sanitized_base n) used" "\<lambda>n used. True"
  by unfold_locales (auto simp: unique_alias_ok sanitized_base_safe)

lemma map_of_add_alias:
  "map_of (internal_to_provider (fst (add_alias n a st))) = (map_of (internal_to_provider (fst st)))(n \<mapsto> a)"
  by (simp add: add_alias_def update_conv' split: prod.splits)

lemma reserve_identity:
  "n \<in> set ns \<Longrightarrow>
   map_of (internal_to_provider (fst (assign_aliases (\<lambda>n used. n) ns st))) n = Some n"
proof (induction ns rule: rev_induct)
  case (snoc m ns)
  have "assign_aliases (\<lambda>n used. n) (ns @ [m]) st = add_alias m m (assign_aliases (\<lambda>n used. n) ns st)"
    by (simp add: assign_aliases_def)
  with snoc show ?case by (auto simp: map_of_add_alias)
qed simp

lemma from_names_ok:
  assumes "length names < table_size_limit"
  shows "\<exists>used. table_ok (from_names names, used) \<and> known (from_names names, used) = set names \<and>
    (\<forall>n \<in> set names. is_provider_safe n \<longrightarrow> map_of (internal_to_provider (from_names names)) n = Some n)"
proof -
  define ns where "ns = remdups_adj (sort names)"
  have set: "set ns = set names" "distinct ns" by (simp_all add: ns_def distinct_remdups_adj_sort)
  have "length ns \<le> length names" unfolding ns_def by (metis length_sort remdups_adj_length)
  then have len: "length ns < table_size_limit" using assms by simp
  define safe where "safe = filter is_provider_safe ns"
  define unsafe where "unsafe = filter (\<lambda>n. \<not> is_provider_safe n) ns"
  have parts: "length safe + length unsafe = length ns"
    unfolding safe_def unsafe_def by (rule sum_length_filter_compl)
  define st0 where "st0 = (\<lparr>internal_to_provider = [], provider_to_internal = []\<rparr>, [] :: string list)"
  define st1 where "st1 = assign_aliases (\<lambda>n used. n) safe st0"
  define st2 where "st2 = assign_aliases (\<lambda>n used. unique_alias (sanitized_base n) used) unsafe st1"
  have "table_ok st0" "known st0 = {}" "snd st0 = []" by (simp_all add: st0_def table_ok_def)
  have disj: "distinct safe" "distinct unsafe" "set unsafe \<inter> set safe = {}" "\<forall>n \<in> set safe. is_provider_safe n"
    using set by (auto simp: safe_def unsafe_def)
  have 1: "table_ok st1" "known st1 = set safe" "length (snd st1) = length safe"
    using reserve.pass_ok [of st0 safe, folded st1_def] \<open>table_ok st0\<close> \<open>known st0 = {}\<close> \<open>snd st0 = []\<close>
      disj parts len by simp_all
  have 2: "table_ok st2" "known st2 = set safe \<union> set unsafe"
    "\<forall>n \<in> set safe. map_of (internal_to_provider (fst st2)) n = map_of (internal_to_provider (fst st1)) n"
    using assign.pass_ok [of st1 unsafe, folded st2_def] 1 disj parts len by simp_all
  have "\<forall>n \<in> set safe. map_of (internal_to_provider (fst st1)) n = Some n"
    using reserve_identity [of _ safe st0] by (simp add: st1_def)
  moreover have "from_names names = fst st2"
    by (simp add: from_names_def ns_def [symmetric] st2_def st1_def st0_def safe_def unsafe_def Let_def)
  moreover have "set safe \<union> set unsafe = set names" by (auto simp: safe_def unsafe_def set)
  ultimately show ?thesis using 2 by (intro exI [of _ "snd st2"]) (auto simp: safe_def set)
qed

text \<open>C38: The alias table is a faithful code: every name of the request is sent as a provider-safe alias
  of at most 64 bytes, the alias decodes to the name it stands for (so two names never share
  one), and a name that was already safe is sent unchanged.\<close>

theorem tool_names_roundtrip:
  assumes "length names < 2 ^ 63" and "n \<in> set names"
  shows "is_provider_safe (encode_name (from_names names) n) \<and>
    decode_name (from_names names) (encode_name (from_names names) n) = n \<and>
    (is_provider_safe n \<longrightarrow> encode_name (from_names names) n = n)"
proof -
  obtain used where ok: "table_ok (from_names names, used)" "known (from_names names, used) = set names"
    "\<forall>n \<in> set names. is_provider_safe n \<longrightarrow> map_of (internal_to_provider (from_names names)) n = Some n"
    using from_names_ok [OF assms(1)] by blast
  then obtain a where a: "map_of (internal_to_provider (from_names names)) n = Some a"
    using assms(2) by auto
  then have b: "map_of (provider_to_internal (from_names names)) a = Some n"
    using ok(1) by (auto simp: table_ok_def)
  then have "is_provider_safe a" using ok(1) by (auto simp: table_ok_def)
  with a b ok(3) assms(2) show ?thesis by (auto simp: encode_name_def decode_name_def)
qed

lemma tool_names_roundtrip_witness:
  "let names = [''agent.spawn'', ''agent_spawn'', ''agent/spawn''] in
   decode_name (from_names names) (encode_name (from_names names) ''agent/spawn'') = ''agent/spawn''"
  using tool_names_roundtrip [of "[''agent.spawn'', ''agent_spawn'', ''agent/spawn'']" "''agent/spawn''"]
  by simp

section \<open>Decoding a stream\<close>

fun name_of :: "nat \<Rightarrow> model_event \<Rightarrow> string" where
  "name_of i (ToolCallDelta j _ name _) = (if j = i then name else [])"
| "name_of i _ = []"

abbreviation names_of :: "nat \<Rightarrow> model_event list \<Rightarrow> string" where
  "names_of i es \<equiv> concat (map (name_of i) es)"

text \<open>Arguments of the call \<open>i\<close> start only after its name is complete.\<close>

fun late_arguments :: "nat \<Rightarrow> model_event list \<Rightarrow> bool" where
  "late_arguments i [] = True"
| "late_arguments i (e # es) =
     ((case e of ToolCallDelta j _ _ args \<Rightarrow> j = i \<and> args \<noteq> [] \<longrightarrow> names_of i es = [] | _ \<Rightarrow> True) \<and>
      late_arguments i es)"

definition pending_name :: "tool_event_decoder \<Rightarrow> nat \<Rightarrow> string" where
  "pending_name d i = (case map_of (dec_pending d) i of Some s \<Rightarrow> s | None \<Rightarrow> [])"

fun is_completed :: "model_event \<Rightarrow> bool" where
  "is_completed (Completed _) = True"
| "is_completed _ = False"

lemma map_of_sort_key_fst:
  assumes "distinct (map fst al)" shows "map_of (sort_key fst al) = map_of al"
proof -
  have "distinct (map fst (sort_key fst al))"
    using assms by (simp add: distinct_map)
  then show ?thesis using assms by (simp add: map_of_inject_set)
qed

lemma names_of_flush:
  assumes "distinct (map fst al)"
  shows "names_of i (map (\<lambda>(j, s). ToolCallDelta j None (f s) []) al) =
    (case map_of al i of Some s \<Rightarrow> f s | None \<Rightarrow> [])"
  using assms
proof (induction al)
  case (Cons p al)
  obtain j s where p: "p = (j, s)" by fastforce
  have "i \<notin> fst ` set al \<Longrightarrow> map_of al i = None" by (simp add: map_of_eq_None_iff)
  with Cons p show ?case by (auto split: option.splits)
qed simp

lemma decode_event_pending:
  assumes "distinct (map fst (dec_pending d))"
  shows "distinct (map fst (dec_pending (fst (decode_event d e)))) \<and>
    dec_names (fst (decode_event d e)) = dec_names d"
  using assms by (cases e) (auto simp: Let_def distinct_update distinct_delete split: option.splits)

text \<open>What one event that is not the end does for call \<open>i\<close>: wait, or flush the whole name.\<close>

lemma decode_event_name:
  assumes "\<not> is_completed e" and "distinct (map fst (dec_pending d))"
  shows "name_of i e = [] \<and> pending_name d i = [] \<and> pending_name (fst (decode_event d e)) i = [] \<and>
        names_of i (snd (decode_event d e)) = [] \<or>
    pending_name (fst (decode_event d e)) i = pending_name d i @ name_of i e \<and>
        names_of i (snd (decode_event d e)) = [] \<or>
    (\<exists>c nd args. e = ToolCallDelta i c nd args \<and>
      (args \<noteq> [] \<or> is_complete_unambiguous_alias (dec_names d) (pending_name d i @ nd)) \<and>
      pending_name d i @ nd \<noteq> [] \<and> pending_name (fst (decode_event d e)) i = [] \<and>
      names_of i (snd (decode_event d e)) = decode_name (dec_names d) (pending_name d i @ nd))"
proof (cases e)
  case (ToolCallDelta j c nd args)
  show ?thesis
  proof (cases "j = i")
    case True
    then show ?thesis
      using ToolCallDelta assms(2)
      by (auto simp: pending_name_def Let_def update_conv' delete_conv' split: option.splits)
  next
    case False
    then show ?thesis
      using ToolCallDelta assms(2)
      by (auto simp: pending_name_def Let_def update_conv' delete_conv' split: option.splits)
  qed
qed (use assms in auto)

lemma unambiguous_whole:
  assumes "is_complete_unambiguous_alias t p" and "map_of (provider_to_internal t) (p @ s) \<noteq> None"
  shows "s = []"
proof -
  have "p @ s \<in> set (map fst (provider_to_internal t))"
    using assms(2) by (simp add: map_of_eq_None_iff)
  then have "p @ s = p \<or> \<not> starts_with p (p @ s)"
    using assms(1) unfolding is_complete_unambiguous_alias_def list_ex_iff by blast
  then show ?thesis by (auto simp: starts_with_append)
qed

lemma decode_stream_name:
  assumes "distinct (map fst (dec_pending d))" and "\<forall>e \<in> set es. \<not> is_completed e"
    and "late_arguments i es" and "map_of (provider_to_internal (dec_names d)) alias \<noteq> None"
    and "map_of (provider_to_internal (dec_names d)) [] = None"
  shows "(pending_name d i @ names_of i es = [] \<longrightarrow>
        names_of i (snd (decode_stream d (es @ [Completed r]))) = []) \<and>
    (pending_name d i @ names_of i es = alias \<longrightarrow>
        names_of i (snd (decode_stream d (es @ [Completed r]))) = decode_name (dec_names d) alias)"
  using assms
proof (induction es arbitrary: d)
  case Nil
  have "names_of i (snd (decode_stream d [Completed r])) =
      (case map_of (dec_pending d) i of Some s \<Rightarrow> decode_name (dec_names d) s | None \<Rightarrow> [])"
    using names_of_flush [of "sort_key fst (dec_pending d)" i "decode_name (dec_names d)"] Nil(1)
    by (simp add: map_of_sort_key_fst distinct_map)
  moreover have "decode_name (dec_names d) [] = []" using Nil.prems(5) by (simp add: decode_name_def)
  ultimately show ?case by (auto simp: pending_name_def simp del: decode_event.simps split: option.splits)
next
  case (Cons e es)
  let ?d = "fst (decode_event d e)"
  have d: "distinct (map fst (dec_pending ?d))" "dec_names ?d = dec_names d"
    using decode_event_pending [OF Cons.prems(1)] by auto
  have IH: "(pending_name ?d i @ names_of i es = [] \<longrightarrow> names_of i (snd (decode_stream ?d (es @ [Completed r]))) = []) \<and>
    (pending_name ?d i @ names_of i es = alias \<longrightarrow>
        names_of i (snd (decode_stream ?d (es @ [Completed r]))) = decode_name (dec_names d) alias)"
    using Cons.IH [OF d(1)] Cons.prems d(2) by auto
  have out: "names_of i (snd (decode_stream d ((e # es) @ [Completed r]))) =
      names_of i (snd (decode_event d e)) @ names_of i (snd (decode_stream ?d (es @ [Completed r])))"
    by (simp split: prod.splits)
  show ?case
  proof (rule disjE [OF decode_event_name [of e d i]])
    show "\<not> is_completed e" "distinct (map fst (dec_pending d))" using Cons.prems by auto
  next
    assume case1: "name_of i e = [] \<and> pending_name d i = [] \<and> pending_name ?d i = [] \<and>
      names_of i (snd (decode_event d e)) = []"
    have "pending_name d i @ names_of i (e # es) = pending_name ?d i @ names_of i es" using case1 by simp
    with IH case1 show ?thesis unfolding out by (simp only: append_Nil)
  next
    assume "pending_name ?d i = pending_name d i @ name_of i e \<and> names_of i (snd (decode_event d e)) = [] \<or>
      (\<exists>c nd args. e = ToolCallDelta i c nd args \<and>
        (args \<noteq> [] \<or> is_complete_unambiguous_alias (dec_names d) (pending_name d i @ nd)) \<and>
        pending_name d i @ nd \<noteq> [] \<and> pending_name ?d i = [] \<and>
        names_of i (snd (decode_event d e)) = decode_name (dec_names d) (pending_name d i @ nd))"
    then show ?thesis
    proof
      assume case2: "pending_name ?d i = pending_name d i @ name_of i e \<and> names_of i (snd (decode_event d e)) = []"
      then have "pending_name d i @ names_of i (e # es) = pending_name ?d i @ names_of i es" by simp
      with IH case2 show ?thesis unfolding out by (simp only: append_Nil)
    next
      assume "\<exists>c nd args. e = ToolCallDelta i c nd args \<and>
        (args \<noteq> [] \<or> is_complete_unambiguous_alias (dec_names d) (pending_name d i @ nd)) \<and>
        pending_name d i @ nd \<noteq> [] \<and> pending_name ?d i = [] \<and>
        names_of i (snd (decode_event d e)) = decode_name (dec_names d) (pending_name d i @ nd)"
      then obtain c nd args where e: "e = ToolCallDelta i c nd args"
        and flush: "args \<noteq> [] \<or> is_complete_unambiguous_alias (dec_names d) (pending_name d i @ nd)"
        and out_e: "pending_name d i @ nd \<noteq> []" "pending_name ?d i = []"
          "names_of i (snd (decode_event d e)) = decode_name (dec_names d) (pending_name d i @ nd)"
        by blast
      have whole: "pending_name d i @ nd = alias \<and> names_of i es = []"
        if "pending_name d i @ names_of i (e # es) = alias"
      proof -
        have split: "alias = (pending_name d i @ nd) @ names_of i es" using that e by simp
        have "is_complete_unambiguous_alias (dec_names d) (pending_name d i @ nd) \<Longrightarrow> names_of i es = []"
          using unambiguous_whole Cons.prems(4) unfolding split by blast
        moreover have "args \<noteq> [] \<Longrightarrow> names_of i es = []" using Cons.prems(3) e by simp
        ultimately show ?thesis using flush split by auto
      qed
      have "pending_name d i @ names_of i (e # es) \<noteq> []" using out_e(1) e by auto
      moreover have "names_of i (snd (decode_stream ?d (es @ [Completed r]))) = []" if "names_of i es = []"
        using IH that out_e(2) by simp
      ultimately show ?thesis unfolding out out_e(3) using whole by (metis append_Nil2)
    qed
  qed
qed

text \<open>The decoder recovers streamed names: however the provider cuts the alias of a tool into deltas
  and interleaves them with other calls, as long as the arguments of a call follow its name, the
  names the decoder emits for that call concatenate to the internal name of the tool.\<close>

theorem decode_stream_recovers_name:
  assumes "length names < 2 ^ 63" and "n \<in> set names"
    and "\<forall>e \<in> set es. \<not> is_completed e" and "late_arguments i es"
    and "names_of i es = encode_name (from_names names) n"
  shows "names_of i (snd (decode_stream (new_decoder (from_names names)) (es @ [Completed reason]))) = n"
proof -
  let ?t = "from_names names"
  obtain used where ok: "table_ok (?t, used)" "known (?t, used) = set names"
    using from_names_ok [OF assms(1)] by blast
  then obtain a where a: "map_of (internal_to_provider ?t) n = Some a" using assms(2) by auto
  then have b: "map_of (provider_to_internal ?t) a = Some n" using ok(1) by (auto simp: table_ok_def)
  have enc: "encode_name ?t n = a" and dec: "decode_name ?t a = n"
    using a b by (simp_all add: encode_name_def decode_name_def)
  have "[] \<notin> dom (map_of (provider_to_internal ?t))"
    using ok(1) by (auto simp: table_ok_def is_provider_safe_def)
  then have nil: "map_of (provider_to_internal ?t) [] = None" by (simp add: domIff)
  have d: "dec_names (new_decoder ?t) = ?t" "dec_pending (new_decoder ?t) = []"
    "pending_name (new_decoder ?t) i = []" by (simp_all add: new_decoder_def pending_name_def)
  show ?thesis
    using decode_stream_name [of "new_decoder ?t" es i a reason] assms(3-5) b nil enc dec d by simp
qed

lemma decode_stream_recovers_name_witness:
  "names_of 0 (snd (decode_stream (new_decoder (from_names [''a.b'']))
     ([ToolCallDelta 0 (Some ''c'') ''a'' [], ToolCallDelta 1 None ''zz'' [], ToolCallDelta 0 None ''_b'' ''x'']
        @ [Completed Stop]))) = ''a.b''"
proof -
  have "encode_name (from_names [''a.b'']) ''a.b'' = ''a_b''" by code_simp
  then show ?thesis
    using decode_stream_recovers_name [of "[''a.b'']" "''a.b''"
        "[ToolCallDelta 0 (Some ''c'') ''a'' [], ToolCallDelta 1 None ''zz'' [], ToolCallDelta 0 None ''_b'' ''x'']" 0 Stop]
    by (simp del: decode_stream.simps)
qed

end
