(* ===== verification/Patch.thy ===== *)
theory Patch
  imports Rust_String
begin

text \<open>
  The patch language of the workspace worker (\<open>hachimi-workspace/src/patch.rs\<close>): the parser
  with its checks, the search for the lines of a chunk and the application of chunks to a
  text. An index into the lines is kept beside the remaining lines. What would make the
  program panic, a slice inside a UTF-8 character or past the end of a vector, is the error
  \<open>Panic\<close>.
\<close>

section \<open>Plans\<close>

record patch_chunk =
  ch_context :: "string option"
  ch_old_lines :: "string list"
  ch_new_lines :: "string list"
  ch_end_of_file :: bool

datatype patch_hunk =
    Add string string
  | Delete string
  | Update string "string option" "patch_chunk list"

record apply_patch_plan =
  plan_hunks :: "patch_hunk list"
  plan_targets :: "string list"

datatype patch_error =
    Patch_Too_Large
  | Bad_First_Line
  | Bad_Last_Line
  | Bad_Add_Line nat
  | Empty_Add string
  | Bad_Update_Line nat
  | Empty_Update string
  | Bad_Marker nat string
  | No_Files
  | Too_Many_Files
  | Duplicate_Target string
  | Conflicting_Move string
  | Empty_Chunk nat
  | Bad_Path string
  | Context_Not_Found string string
  | Chunk_Not_Found string
  | Panic

abbreviation "begin_patch \<equiv> ''*** Begin Patch''"
abbreviation "end_patch \<equiv> ''*** End Patch''"
abbreviation "add_file \<equiv> ''*** Add File: ''"
abbreviation "delete_file \<equiv> ''*** Delete File: ''"
abbreviation "update_file \<equiv> ''*** Update File: ''"
abbreviation "move_to_file \<equiv> ''*** Move to: ''"
abbreviation "end_of_file_marker \<equiv> ''*** End of File''"
abbreviation newline :: char where "newline \<equiv> CHR 10"
abbreviation carriage :: char where "carriage \<equiv> CHR 13"

definition max_patch_bytes :: nat where "max_patch_bytes = 4 * 1024 * 1024"
definition max_patch_files :: nat where "max_patch_files = 128"

definition default_chunk :: patch_chunk where
  "default_chunk = \<lparr>ch_context = None, ch_old_lines = [], ch_new_lines = [], ch_end_of_file = False\<rparr>"

fun move_pairs :: "patch_hunk list \<Rightarrow> (string \<times> string) list" where
  "move_pairs [] = []"
| "move_pairs (Update path (Some destination) _ # hs) = (path, destination) # move_pairs hs"
| "move_pairs (_ # hs) = move_pairs hs"

section \<open>Parsing\<close>

fun crlf_to_lf :: "string \<Rightarrow> string" where
  "crlf_to_lf (c # d # s) =
     (if c = carriage \<and> d = newline then newline # crlf_to_lf s else c # crlf_to_lf (d # s))"
| "crlf_to_lf s = s"

definition is_top_level_marker :: "string \<Rightarrow> bool" where
  "is_top_level_marker line \<longleftrightarrow>
     (let line = trim_end line in
      line = end_patch \<or> starts_with add_file line \<or> starts_with delete_file line \<or>
      starts_with update_file line)"

definition validate_patch_path :: "string \<Rightarrow> (patch_error, string) result" where
  "validate_patch_path path =
     (let normalized = slashed (trim path) in
      if normalized = [] \<or> starts_with ''/'' normalized \<or> List.member normalized (CHR '':'') \<or>
         List.member normalized (CHR 0x00) \<or>
         list_ex (\<lambda>part. part = [] \<or> part = ''.'' \<or> part = ''..'') (split_on (CHR ''/'') normalized)
      then Inl (Bad_Path path) else Inr normalized)"

definition finish_chunk ::
    "patch_chunk list \<Rightarrow> patch_chunk option \<Rightarrow> nat \<Rightarrow> (patch_error, patch_chunk list) result" where
  "finish_chunk chunks chunk line =
     (case chunk of
        None \<Rightarrow> Inr chunks
      | Some c \<Rightarrow>
          if ch_old_lines c = [] \<and> ch_new_lines c = [] then Inl (Empty_Chunk line)
          else Inr (chunks @ [c]))"

fun parse_add_lines :: "nat \<Rightarrow> string list \<Rightarrow> (patch_error, string list \<times> string list) result" where
  "parse_add_lines index [] = Inr ([], [])"
| "parse_add_lines index (line # rest) =
     (if is_top_level_marker line then Inr ([], line # rest)
      else case strip_prefix ''+'' line of
          None \<Rightarrow> Inl (Bad_Add_Line (index + 1))
        | Some text \<Rightarrow>
            (case parse_add_lines (index + 1) rest of
               Inl e \<Rightarrow> Inl e
             | Inr (content, rest') \<Rightarrow> Inr (text # content, rest')))"

text \<open>A line of an update that is neither a chunk header nor the end-of-file marker:
  \<open>split_at(1)\<close> panics when the second byte continues a character.\<close>

definition add_chunk_line :: "patch_chunk \<Rightarrow> nat \<Rightarrow> string \<Rightarrow> (patch_error, patch_chunk) result" where
  "add_chunk_line chunk index line =
     (case line of
        [] \<Rightarrow> Inl (Bad_Update_Line (index + 1))
      | prefix # text \<Rightarrow>
          if text \<noteq> [] \<and> is_utf8_cont (hd text) then Inl Panic
          else if prefix = CHR '' '' then
            Inr (chunk\<lparr>ch_old_lines := ch_old_lines chunk @ [text], ch_new_lines := ch_new_lines chunk @ [text]\<rparr>)
          else if prefix = CHR ''+'' then Inr (chunk\<lparr>ch_new_lines := ch_new_lines chunk @ [text]\<rparr>)
          else if prefix = CHR ''-'' then Inr (chunk\<lparr>ch_old_lines := ch_old_lines chunk @ [text]\<rparr>)
          else Inl (Bad_Update_Line (index + 1)))"

definition current_or_default :: "patch_chunk option \<Rightarrow> patch_chunk" where
  "current_or_default current = (case current of Some c \<Rightarrow> c | None \<Rightarrow> default_chunk)"

fun parse_update_lines ::
    "nat \<Rightarrow> string list \<Rightarrow> patch_chunk list \<Rightarrow> patch_chunk option \<Rightarrow>
     (patch_error, patch_chunk list \<times> string list) result" where
  "parse_update_lines index [] chunks current =
     rbind (finish_chunk chunks current (index + 1)) (\<lambda>chunks. Inr (chunks, []))"
| "parse_update_lines index (line # rest) chunks current =
     (if is_top_level_marker line then
        rbind (finish_chunk chunks current (index + 1)) (\<lambda>chunks. Inr (chunks, line # rest))
      else if line = ''@@'' \<or> starts_with ''@@ '' line then
        rbind (finish_chunk chunks current (index + 1)) (\<lambda>chunks.
          parse_update_lines (index + 1) rest chunks
            (Some (default_chunk\<lparr>ch_context := strip_prefix ''@@ '' line\<rparr>)))
      else if line = end_of_file_marker then
        parse_update_lines (index + 1) rest chunks
          (Some ((current_or_default current)\<lparr>ch_end_of_file := True\<rparr>))
      else
        rbind (add_chunk_line (current_or_default current) index line) (\<lambda>chunk.
          parse_update_lines (index + 1) rest chunks (Some chunk)))"

lemma parse_add_lines_shorter:
  "parse_add_lines index ls = Inr (content, rest) \<Longrightarrow> length rest \<le> length ls"
  by (induction index ls arbitrary: content rule: parse_add_lines.induct)
    (fastforce split: if_splits option.splits sum.splits prod.splits)+

lemma parse_update_lines_shorter:
  "parse_update_lines index ls chunks current = Inr (chunks', rest) \<Longrightarrow> length rest \<le> length ls"
  by (induction index ls chunks current rule: parse_update_lines.induct)
    (fastforce simp: rbind_Inr_iff split: if_splits)+

definition parse_move_to :: "string list \<Rightarrow> (patch_error, string option \<times> string list) result" where
  "parse_move_to rest =
     (case rest of
        [] \<Rightarrow> Inr (None, rest)
      | line # rest' \<Rightarrow>
          (case strip_prefix move_to_file (trim_end line) of
             None \<Rightarrow> Inr (None, rest)
           | Some path \<Rightarrow> rbind (validate_patch_path path) (\<lambda>p. Inr (Some p, rest'))))"

lemma parse_move_to_shorter: "parse_move_to ls = Inr (dest, rest) \<Longrightarrow> length rest \<le> length ls"
  by (auto simp: parse_move_to_def rbind_Inr_iff split: list.splits option.splits)

text \<open>The loop over the hunks; \<open>index\<close> is the number of the line at the head of the list.\<close>

function parse_hunks :: "nat \<Rightarrow> string list \<Rightarrow> (patch_error, patch_hunk list) result" where
  "parse_hunks index [] = Inr []"
| "parse_hunks index (line # rest) =
     (let marker = trim_end line in
      case strip_prefix add_file marker of
        Some path \<Rightarrow>
          (case validate_patch_path path of Inl e \<Rightarrow> Inl e | Inr path \<Rightarrow>
          (case parse_add_lines (index + 1) rest of Inl e \<Rightarrow> Inl e | Inr (content, rest') \<Rightarrow>
           if content = [] then Inl (Empty_Add path)
           else rbind (parse_hunks (index + 1 + (length rest - length rest')) rest') (\<lambda>hunks.
             Inr (Add path (join [newline] content @ [newline]) # hunks))))
      | None \<Rightarrow>
      (case strip_prefix delete_file marker of
        Some path \<Rightarrow>
          (case validate_patch_path path of Inl e \<Rightarrow> Inl e | Inr path \<Rightarrow>
           rbind (parse_hunks (index + 1) rest) (\<lambda>hunks. Inr (Delete path # hunks)))
      | None \<Rightarrow>
      (case strip_prefix update_file marker of
        Some path \<Rightarrow>
          (case validate_patch_path path of Inl e \<Rightarrow> Inl e | Inr path \<Rightarrow>
          (case parse_move_to rest of Inl e \<Rightarrow> Inl e | Inr (move_to, rest1) \<Rightarrow>
          (case parse_update_lines (index + 1 + (length rest - length rest1)) rest1 [] None of
             Inl e \<Rightarrow> Inl e | Inr (chunks, rest2) \<Rightarrow>
           if chunks = [] \<and> move_to = None then Inl (Empty_Update path)
           else rbind (parse_hunks (index + 1 + (length rest - length rest2)) rest2) (\<lambda>hunks.
             Inr (Update path move_to chunks # hunks)))))
      | None \<Rightarrow> Inl (Bad_Marker (index + 1) marker))))"
  by pat_completeness auto
termination
  by (relation "measure (\<lambda>(index, ls). length ls)")
    (auto dest!: parse_add_lines_shorter parse_update_lines_shorter parse_move_to_shorter)

fun hunk_source :: "patch_hunk \<Rightarrow> string" where
  "hunk_source (Add path _) = path"
| "hunk_source (Delete path) = path"
| "hunk_source (Update path _ _) = path"

fun hunk_destination :: "patch_hunk \<Rightarrow> string option" where
  "hunk_destination (Update _ (Some destination) _) = Some destination"
| "hunk_destination _ = None"

text \<open>The set of lower-cased targets is the list \<open>unique\<close>.\<close>

fun collect_targets :: "patch_hunk list \<Rightarrow> string list \<Rightarrow> (patch_error, string list) result" where
  "collect_targets [] unique = Inr []"
| "collect_targets (hunk # hunks) unique =
     (let source = hunk_source hunk in
      if to_ascii_lowercase source \<in> set unique then Inl (Duplicate_Target source)
      else
        let unique = to_ascii_lowercase source # unique in
        case hunk_destination hunk of
          None \<Rightarrow> rbind (collect_targets hunks unique) (\<lambda>targets. Inr (source # targets))
        | Some destination \<Rightarrow>
            if to_ascii_lowercase destination \<in> set unique then Inl (Conflicting_Move destination)
            else rbind (collect_targets hunks (to_ascii_lowercase destination # unique)) (\<lambda>targets.
              Inr (source # destination # targets)))"

definition strip_heredoc :: "string list \<Rightarrow> string list" where
  "strip_heredoc lines =
     (if lines \<noteq> [] \<and> trim (hd lines) \<noteq> begin_patch \<and> 4 \<le> length lines \<and>
         trim (hd lines) \<in> {''<<EOF'', [CHR ''<'', CHR ''<'', CHR 39, CHR ''E'', CHR ''O'', CHR ''F'', CHR 39],
           [CHR ''<'', CHR ''<'', CHR 34, CHR ''E'', CHR ''O'', CHR ''F'', CHR 34]} \<and>
         ends_with ''EOF'' (trim_end (last lines))
      then butlast (tl lines) else lines)"

definition parse_apply_patch :: "string \<Rightarrow> (patch_error, apply_patch_plan) result" where
  "parse_apply_patch patch =
     (if max_patch_bytes < length patch then Inl Patch_Too_Large
      else
        let lines = strip_heredoc (split_on newline (trim (crlf_to_lf patch))) in
        if lines = [] \<or> trim (hd lines) \<noteq> begin_patch then Inl Bad_First_Line
        else if trim (last lines) \<noteq> end_patch then Inl Bad_Last_Line
        else rbind (parse_hunks 1 (butlast (tl lines))) (\<lambda>hunks.
          if hunks = [] then Inl No_Files
          else if max_patch_files < length hunks then Inl Too_Many_Files
          else rbind (collect_targets hunks []) (\<lambda>targets.
            Inr \<lparr>plan_hunks = hunks, plan_targets = targets\<rparr>)))"

section \<open>Applying chunks\<close>

definition line_matches :: "nat \<Rightarrow> string \<Rightarrow> string \<Rightarrow> bool" where
  "line_matches strictness left right \<longleftrightarrow>
     (if strictness = 0 then left = right
      else if strictness = 1 then trim_end left = trim_end right
      else trim left = trim right)"

definition matches_at :: "nat \<Rightarrow> string list \<Rightarrow> string list \<Rightarrow> nat \<Rightarrow> bool" where
  "matches_at strictness lines pattern index \<longleftrightarrow>
     list_all2 (line_matches strictness) (take (length pattern) (drop index lines)) pattern"

definition seek_sequence :: "string list \<Rightarrow> string list \<Rightarrow> nat \<Rightarrow> bool \<Rightarrow> nat option" where
  "seek_sequence lines pattern start eof =
     (if pattern = [] then Some (min start (length lines))
      else if length lines < length pattern then None
      else
        let last_start = length lines - length pattern;
            first = (if eof then last_start else min start last_start);
            search = (\<lambda>strictness. find (matches_at strictness lines pattern) [first..<Suc last_start]) in
        case search 0 of Some i \<Rightarrow> Some i
        | None \<Rightarrow> (case search 1 of Some i \<Rightarrow> Some i | None \<Rightarrow> search 2))"

type_synonym replacement = "nat \<times> nat \<times> string list"

fun find_replacements ::
    "string list \<Rightarrow> string \<Rightarrow> nat \<Rightarrow> patch_chunk list \<Rightarrow> (patch_error, replacement list) result" where
  "find_replacements lines path cursor [] = Inr []"
| "find_replacements lines path cursor (chunk # chunks) =
     rbind (case ch_context chunk of
         None \<Rightarrow> Inr cursor
       | Some context \<Rightarrow>
           (case seek_sequence lines [context] cursor False of
              None \<Rightarrow> Inl (Context_Not_Found context path)
            | Some index \<Rightarrow> Inr (index + 1))) (\<lambda>cursor.
     if ch_old_lines chunk = [] then
       rbind (find_replacements lines path cursor chunks) (\<lambda>rs.
         Inr ((length lines, 0, ch_new_lines chunk) # rs))
     else
       (case seek_sequence lines (ch_old_lines chunk) cursor (ch_end_of_file chunk) of
          None \<Rightarrow> Inl (Chunk_Not_Found path)
        | Some position \<Rightarrow>
            rbind (find_replacements lines path (position + length (ch_old_lines chunk)) chunks) (\<lambda>rs.
              Inr ((position, length (ch_old_lines chunk), ch_new_lines chunk) # rs))))"

text \<open>\<open>Vec::splice\<close> panics when the range ends after the vector.\<close>

fun splice_lines :: "string list \<Rightarrow> replacement \<Rightarrow> (patch_error, string list) result" where
  "splice_lines lines (position, old_len, new_lines) =
     (if length lines < position + old_len then Inl Panic
      else Inr (take position lines @ new_lines @ drop (position + old_len) lines))"

fun splice_all :: "string list \<Rightarrow> replacement list \<Rightarrow> (patch_error, string list) result" where
  "splice_all lines [] = Inr lines"
| "splice_all lines (r # rs) = rbind (splice_lines lines r) (\<lambda>lines. splice_all lines rs)"

definition text_lines :: "string \<Rightarrow> string list" where
  "text_lines original =
     (let lines = split_on newline original in if last lines = [] then butlast lines else lines)"

definition apply_chunks :: "string \<Rightarrow> string \<Rightarrow> patch_chunk list \<Rightarrow> (patch_error, string) result" where
  "apply_chunks original path chunks =
     (if chunks = [] then Inr original
      else
        let lines = text_lines original in
        rbind (find_replacements lines path 0 chunks) (\<lambda>replacements.
        rbind (splice_all lines (rev replacements)) (\<lambda>lines.
          Inr (join [newline] lines @ [newline]))))"

end
