(* ===== verification/Patch_Props.thy ===== *)
theory Patch_Props
  imports Patch
begin

text \<open>
  The properties of the patch language: printing a well-formed plan and parsing it gives the
  plan back, accepted targets stay inside the checkout, and chunks whose places ascend are
  applied as one reads them. Two inputs that make the program panic are stated as theorems.
\<close>

section \<open>Printing\<close>

definition print_chunk :: "patch_chunk \<Rightarrow> string list" where
  "print_chunk c =
     [case ch_context c of None \<Rightarrow> ''@@'' | Some x \<Rightarrow> ''@@ '' @ x] @
     map ((#) (CHR ''-'')) (ch_old_lines c) @ map ((#) (CHR ''+'')) (ch_new_lines c) @
     (if ch_end_of_file c then [end_of_file_marker] else [])"

fun print_hunk :: "patch_hunk \<Rightarrow> string list" where
  "print_hunk (Add path content) =
     (add_file @ path) # map ((#) (CHR ''+'')) (split_on newline (butlast content))"
| "print_hunk (Delete path) = [delete_file @ path]"
| "print_hunk (Update path move_to chunks) =
     (update_file @ path) # (case move_to of None \<Rightarrow> [] | Some d \<Rightarrow> [move_to_file @ d]) @
     concat (map print_chunk chunks)"

definition print_patch :: "patch_hunk list \<Rightarrow> string" where
  "print_patch hunks = join [newline] (begin_patch # concat (map print_hunk hunks) @ [end_patch])"

definition clean_line :: "string \<Rightarrow> bool" where
  "clean_line s \<longleftrightarrow> newline \<notin> set s \<and> (s = [] \<or> last s \<noteq> carriage)"

definition clean_text :: "string \<Rightarrow> bool" where
  "clean_text s \<longleftrightarrow> clean_line s \<and> (s = [] \<or> \<not> is_utf8_cont (hd s))"

definition valid_path :: "string \<Rightarrow> bool" where
  "valid_path p \<longleftrightarrow> validate_patch_path p = Inr p \<and> clean_line p"

definition valid_chunk :: "patch_chunk \<Rightarrow> bool" where
  "valid_chunk c \<longleftrightarrow>
     (case ch_context c of None \<Rightarrow> True | Some x \<Rightarrow> clean_line x) \<and>
     list_all clean_text (ch_old_lines c) \<and> list_all clean_text (ch_new_lines c) \<and>
     (ch_old_lines c \<noteq> [] \<or> ch_new_lines c \<noteq> [])"

fun valid_hunk :: "patch_hunk \<Rightarrow> bool" where
  "valid_hunk (Add path content) =
     (valid_path path \<and> content \<noteq> [] \<and> last content = newline \<and>
      list_all clean_line (split_on newline (butlast content)))"
| "valid_hunk (Delete path) = valid_path path"
| "valid_hunk (Update path move_to chunks) =
     (valid_path path \<and> (case move_to of None \<Rightarrow> True | Some d \<Rightarrow> valid_path d) \<and>
      list_all valid_chunk chunks \<and> (chunks \<noteq> [] \<or> move_to \<noteq> None))"

section \<open>Lines the printer writes\<close>

lemma ws_multibyte: "w \<in> set ws_encodings \<Longrightarrow> length w = 1 \<or> CHR '' '' \<notin> set w"
  by (auto simp: ws_encodings_def)

lemma trim_end_after_space:
  assumes "trim_end p = p" and "p \<noteq> []" shows "trim_end (a @ '' '' @ p) = a @ '' '' @ p"
proof -
  have none: "leading_ws (map rev ws_encodings) (rev p) = None"
    using leading_ws_strip_leading [of "map rev ws_encodings" "rev p"] assms(1)
    by (metis rev_rev_ident trim_end_def)
  have "\<not> starts_with (rev w) (rev p @ CHR '' '' # rev a)" if w: "w \<in> set ws_encodings" "w \<noteq> []" for w
  proof
    assume "starts_with (rev w) (rev p @ CHR '' '' # rev a)"
    then have t: "rev w = take (length w) (rev p @ CHR '' '' # rev a)" by (simp add: starts_with_def)
    show False
    proof (cases "length w \<le> length p")
      case True
      with t have "starts_with (rev w) (rev p)" by (simp add: starts_with_def)
      with none w show False by (auto simp: leading_ws_def find_None_iff)
    next
      case False
      then obtain k where "length w - length p = Suc k" by (metis Suc_diff_Suc not_le_imp_less)
      with t False have "rev w = rev p @ CHR '' '' # take k (rev a)" by simp
      then have "CHR '' '' \<in> set (rev w)" by simp
      with ws_multibyte [OF w(1)] False assms(2) show False by (cases p) auto
    qed
  qed
  then have "leading_ws (map rev ws_encodings) (rev (a @ '' '' @ p)) = None"
    by (auto simp: leading_ws_def find_None_iff)
  then show ?thesis unfolding trim_end_def by (simp add: strip_leading_id)
qed

lemma validate_patch_path_trimmed:
  assumes "validate_patch_path p = Inr q" shows "trim q = q" and "q \<noteq> []"
  using assms by (auto simp: validate_patch_path_def Let_def trim_slashed split: if_splits)

lemma trim_trim_end: "trim p = p \<Longrightarrow> trim_end p = p"
  by (metis trim_def trim_end_idem)

lemma valid_path_marker:
  assumes "valid_path p"
  shows "trim_end (add_file @ p) = add_file @ p" "trim_end (delete_file @ p) = delete_file @ p"
    "trim_end (update_file @ p) = update_file @ p" "trim_end (move_to_file @ p) = move_to_file @ p"
proof -
  have "trim_end p = p" "p \<noteq> []"
    using assms validate_patch_path_trimmed trim_trim_end by (auto simp: valid_path_def)
  note t = trim_end_after_space [OF this]
  show "trim_end (add_file @ p) = add_file @ p" using t [of "''*** Add File:''"] by simp
  show "trim_end (delete_file @ p) = delete_file @ p" using t [of "''*** Delete File:''"] by simp
  show "trim_end (update_file @ p) = update_file @ p" using t [of "''*** Update File:''"] by simp
  show "trim_end (move_to_file @ p) = move_to_file @ p" using t [of "''*** Move to:''"] by simp
qed

lemma not_marker: "s = [] \<or> hd s \<noteq> CHR ''*'' \<Longrightarrow> \<not> is_top_level_marker s"
  using trim_end_prefix [of s] by (auto simp: is_top_level_marker_def Let_def)

lemma end_of_file_not_marker: "\<not> is_top_level_marker end_of_file_marker"
  by code_simp

lemma hunk_marker: "valid_hunk h \<Longrightarrow> is_top_level_marker (hd (print_hunk h))"
proof (cases h)
  case (Add p c)
  moreover assume "valid_hunk h"
  ultimately show ?thesis using valid_path_marker(1) [of p] by (simp add: is_top_level_marker_def)
next
  case (Delete p)
  moreover assume "valid_hunk h"
  ultimately show ?thesis using valid_path_marker(2) [of p] by (simp add: is_top_level_marker_def)
next
  case (Update p d cs)
  moreover assume "valid_hunk h"
  ultimately show ?thesis using valid_path_marker(3) [of p] by (simp add: is_top_level_marker_def)
qed

abbreviation stops :: "string list \<Rightarrow> bool" where
  "stops rest \<equiv> rest = [] \<or> is_top_level_marker (hd rest)"

lemma parse_add_lines_print:
  "stops rest \<Longrightarrow> parse_add_lines i (map ((#) (CHR ''+'')) ls @ rest) = Inr (ls, rest)"
proof (induction ls arbitrary: i)
  case Nil
  then show ?case by (cases rest) auto
qed (auto simp: not_marker strip_prefix_def starts_with_def)

lemma parse_old_lines:
  "list_all clean_text olds \<Longrightarrow>
   parse_update_lines i (map ((#) (CHR ''-'')) olds @ rest) cs (Some c) =
   parse_update_lines (i + length olds) rest cs (Some (c\<lparr>ch_old_lines := ch_old_lines c @ olds\<rparr>))"
  by (induction olds arbitrary: i c)
    (auto simp: not_marker add_chunk_line_def clean_text_def current_or_default_def)

lemma parse_new_lines:
  "list_all clean_text news \<Longrightarrow>
   parse_update_lines i (map ((#) (CHR ''+'')) news @ rest) cs (Some c) =
   parse_update_lines (i + length news) rest cs (Some (c\<lparr>ch_new_lines := ch_new_lines c @ news\<rparr>))"
  by (induction news arbitrary: i c)
    (auto simp: not_marker add_chunk_line_def clean_text_def current_or_default_def)

lemma parse_end_of_file:
  "parse_update_lines i (end_of_file_marker # rest) cs (Some c) =
   parse_update_lines (i + 1) rest cs (Some (c\<lparr>ch_end_of_file := True\<rparr>))"
  using end_of_file_not_marker by (simp add: current_or_default_def)

lemma parse_header:
  assumes "finish_chunk cs cur (i + 1) = Inr cs'"
  shows "parse_update_lines i ((case x of None \<Rightarrow> ''@@'' | Some x \<Rightarrow> ''@@ '' @ x) # rest) cs cur =
    parse_update_lines (i + 1) rest cs' (Some (default_chunk\<lparr>ch_context := x\<rparr>))"
  using assms by (cases x) (auto simp: not_marker strip_prefix_def starts_with_def)

lemma parse_chunk_print:
  assumes "valid_chunk c" and "finish_chunk cs cur (i + 1) = Inr cs'"
  shows "\<exists>j. parse_update_lines i (print_chunk c @ rest) cs cur = parse_update_lines j rest cs' (Some c)"
proof -
  obtain x olds news e where c: "c = \<lparr>ch_context = x, ch_old_lines = olds, ch_new_lines = news, ch_end_of_file = e\<rparr>"
    by (cases c) auto
  have clean: "list_all clean_text olds" "list_all clean_text news"
    using assms(1) by (simp_all add: valid_chunk_def c)
  have "parse_update_lines i (print_chunk c @ rest) cs cur =
      parse_update_lines (i + 1 + length olds + length news) ((if e then [end_of_file_marker] else []) @ rest) cs'
        (Some \<lparr>ch_context = x, ch_old_lines = olds, ch_new_lines = news, ch_end_of_file = False\<rparr>)"
    unfolding print_chunk_def append_assoc append.simps c patch_chunk.simps parse_header [OF assms(2)]
      parse_old_lines [OF clean(1)] parse_new_lines [OF clean(2)]
    by (simp add: default_chunk_def)
  then show ?thesis
    by (cases e) (auto simp: parse_end_of_file c simp del: parse_update_lines.simps)
qed

lemma parse_chunks_print:
  assumes "stops rest" and "list_all valid_chunk cs" and "\<And>k. finish_chunk done_chunks cur k = Inr done'"
  shows "parse_update_lines i (concat (map print_chunk cs) @ rest) done_chunks cur = Inr (done' @ cs, rest)"
  using assms(2,3)
proof (induction cs arbitrary: i done_chunks cur done')
  case Nil
  then show ?case using assms(1) by (cases rest) auto
next
  case (Cons c cs)
  from Cons.prems obtain j where "parse_update_lines i (print_chunk c @ concat (map print_chunk cs) @ rest) done_chunks cur
      = parse_update_lines j (concat (map print_chunk cs) @ rest) done' (Some c)"
    using parse_chunk_print by fastforce
  moreover have "finish_chunk done' (Some c) k = Inr (done' @ [c])" for k
    using Cons.prems(1) by (auto simp: finish_chunk_def valid_chunk_def)
  ultimately show ?case using Cons.IH [of done' "Some c" "done' @ [c]"] Cons.prems by simp
qed

lemma strip_prefix_append [simp]: "strip_prefix p (p @ s) = Some s"
  by (simp only: strip_prefix_Some_iff)

lemma strip_other_prefix:
  "strip_prefix add_file (delete_file @ p) = None" "strip_prefix add_file (update_file @ p) = None"
  "strip_prefix delete_file (update_file @ p) = None"
  by (simp_all add: strip_prefix_None_iff)

lemma parse_move_to_print:
  assumes "case mv of None \<Rightarrow> True | Some d \<Rightarrow> valid_path d" and "mv = None \<Longrightarrow> rest \<noteq> [] \<and> hd rest \<noteq> [] \<and> hd (hd rest) \<noteq> CHR ''*''"
  shows "parse_move_to ((case mv of None \<Rightarrow> [] | Some d \<Rightarrow> [move_to_file @ d]) @ rest) = Inr (mv, rest)"
proof (cases mv)
  case None
  with assms(2) obtain line ls where rest: "rest = line # ls" "line \<noteq> []" "hd line \<noteq> CHR ''*''"
    by (cases rest) auto
  have "strip_prefix move_to_file (trim_end line) = None"
    using trim_end_prefix [of line] rest(3) by (auto simp: strip_prefix_None_iff)
  then show ?thesis by (simp add: parse_move_to_def None rest(1))
next
  case (Some d)
  then have "valid_path d" using assms(1) by simp
  then have "trim_end (move_to_file @ d) = move_to_file @ d" "validate_patch_path d = Inr d"
    by (rule valid_path_marker) (use \<open>valid_path d\<close> in \<open>simp add: valid_path_def\<close>)
  moreover have "parse_move_to ((move_to_file @ d) # rest) = Inr (Some d, rest)"
    unfolding parse_move_to_def list.case calculation(1) strip_prefix_append option.case
    by (simp add: calculation(2))
  ultimately show ?thesis by (simp only: Some option.case append.simps)
qed

lemma hunks_stop:
  "list_all valid_hunk hs \<Longrightarrow> stops (concat (map print_hunk hs))"
proof (cases hs)
  case (Cons h hs')
  assume "list_all valid_hunk hs"
  then have "is_top_level_marker (hd (print_hunk h))" by (simp add: Cons hunk_marker)
  moreover have "print_hunk h \<noteq> []" by (cases h) auto
  ultimately show ?thesis by (simp add: Cons hd_append)
qed simp

lemma chunks_start:
  "cs \<noteq> [] \<Longrightarrow> concat (map print_chunk cs) @ rest \<noteq> [] \<and> hd (concat (map print_chunk cs) @ rest) \<noteq> [] \<and>
     hd (hd (concat (map print_chunk cs) @ rest)) \<noteq> CHR ''*''"
  by (cases cs) (auto simp: print_chunk_def split: option.splits)

lemma parse_hunks_print:
  "list_all valid_hunk hs \<Longrightarrow> parse_hunks i (concat (map print_hunk hs)) = Inr hs"
proof (induction hs arbitrary: i)
  case (Cons h hs)
  define rest where "rest = concat (map print_hunk hs)"
  have stop: "stops rest" and IH: "\<And>i. parse_hunks i rest = Inr hs"
    using Cons hunks_stop by (auto simp: rest_def)
  show ?case
  proof (cases h)
    case (Add p content)
    with Cons.prems have p: "valid_path p" "validate_patch_path p = Inr p" and
      content: "content \<noteq> []" "last content = newline" by (auto simp: valid_path_def)
    have lines: "concat (map print_hunk (h # hs)) =
        (add_file @ p) # (map ((#) (CHR ''+'')) (split_on newline (butlast content)) @ rest)"
      by (simp add: Add rest_def)
    have "join [newline] (split_on newline (butlast content)) @ [newline] = content"
      unfolding join_split_on using content by (metis append_butlast_last_id)
    with p content show ?thesis
      unfolding lines parse_hunks.simps Let_def
        valid_path_marker(1) [OF p(1)] strip_prefix_append option.case p(2) sum.case
        parse_add_lines_print [OF stop] prod.case
      by (simp add: IH Add)
  next
    case (Delete p)
    with Cons.prems have p: "valid_path p" "validate_patch_path p = Inr p" by (auto simp: valid_path_def)
    have lines: "concat (map print_hunk (h # hs)) = (delete_file @ p) # rest"
      by (simp add: Delete rest_def)
    show ?thesis
      unfolding lines parse_hunks.simps Let_def
        valid_path_marker(2) [OF p(1)] strip_other_prefix strip_prefix_append option.case p(2) sum.case
      by (simp add: IH Delete)
  next
    case (Update p mv cs)
    with Cons.prems have p: "valid_path p" "validate_patch_path p = Inr p" and
      mv: "case mv of None \<Rightarrow> True | Some d \<Rightarrow> valid_path d" and
      cs: "list_all valid_chunk cs" "cs \<noteq> [] \<or> mv \<noteq> None" by (auto simp: valid_path_def)
    have m: "parse_move_to ((case mv of None \<Rightarrow> [] | Some d \<Rightarrow> [move_to_file @ d]) @ concat (map print_chunk cs) @ rest)
        = Inr (mv, concat (map print_chunk cs) @ rest)"
      by (rule parse_move_to_print [OF mv]) (use cs(2) chunks_start in blast)
    have c: "parse_update_lines j (concat (map print_chunk cs) @ rest) [] None = Inr ([] @ cs, rest)" for j
      by (rule parse_chunks_print [OF stop cs(1)]) (simp add: finish_chunk_def)
    have lines: "concat (map print_hunk (h # hs)) = (update_file @ p) #
        ((case mv of None \<Rightarrow> [] | Some d \<Rightarrow> [move_to_file @ d]) @ concat (map print_chunk cs) @ rest)"
      by (simp add: Update rest_def)
    show ?thesis
      unfolding lines parse_hunks.simps Let_def
        valid_path_marker(3) [OF p(1)] strip_other_prefix strip_prefix_append option.case p(2) sum.case
        m prod.case c
      using cs(2) by (auto simp: IH Update)
  qed
qed simp

section \<open>Targets\<close>

fun hunk_targets :: "patch_hunk \<Rightarrow> string list" where
  "hunk_targets h = hunk_source h # (case hunk_destination h of None \<Rightarrow> [] | Some d \<Rightarrow> [d])"

lemma collect_targets_iff:
  "collect_targets hs unique = Inr ts \<longleftrightarrow>
     ts = concat (map hunk_targets hs) \<and> distinct (map to_ascii_lowercase ts) \<and>
     (\<forall>t \<in> set ts. to_ascii_lowercase t \<notin> set unique)"
proof (induction hs arbitrary: unique ts)
  case (Cons h hs)
  define T where "T = concat (map hunk_targets hs)"
  have IH: "collect_targets hs u = Inr t \<longleftrightarrow> t = T \<and> distinct (map to_ascii_lowercase T) \<and>
      (\<forall>t \<in> set T. to_ascii_lowercase t \<notin> set u)" for u t
    unfolding T_def using Cons.IH [of u t] by metis
  have T: "concat (map hunk_targets (h # hs)) = hunk_targets h @ T" by (simp add: T_def)
  show ?case
    unfolding T by (cases "hunk_destination h") (auto simp: rbind_Inr_iff IH Let_def image_iff, metis+)
qed auto

section \<open>Round trip\<close>

lemma crlf_to_lf_newline [simp]: "crlf_to_lf (newline # s) = newline # crlf_to_lf s"
  by (cases s) auto

lemma crlf_to_lf_line: "clean_line a \<Longrightarrow> crlf_to_lf (a @ newline # s) = a @ newline # crlf_to_lf s"
proof (induction a)
  case (Cons c a)
  then show ?case by (cases a) (auto simp: clean_line_def)
qed simp

lemma crlf_to_lf_last: "clean_line a \<Longrightarrow> crlf_to_lf a = a"
proof (induction a)
  case (Cons c a)
  then show ?case by (cases a) (auto simp: clean_line_def)
qed simp

lemma crlf_to_lf_join: "list_all clean_line ls \<Longrightarrow> crlf_to_lf (join [newline] ls) = join [newline] ls"
  by (induction "[newline]" ls rule: join.induct) (auto simp: crlf_to_lf_last crlf_to_lf_line)

lemma no_leading_ws: "leading_ws ws_encodings (CHR ''*'' # s) = None"
  "leading_ws (map rev ws_encodings) (CHR ''h'' # s) = None"
  by (simp_all add: leading_ws_def ws_encodings_def)

lemma trim_star_h: "trim (CHR ''*'' # s @ ''h'') = CHR ''*'' # s @ ''h''"
  unfolding trim_def trim_start_def trim_end_def strip_leading_id [OF no_leading_ws(1)]
  using strip_leading_id [OF no_leading_ws(2), of "rev (CHR ''*'' # s)"] by simp

lemma trim_markers: "trim begin_patch = begin_patch" "trim end_patch = end_patch"
  by code_simp+

lemma clean_prefixed:
  "list_all clean_text ls \<Longrightarrow> c \<noteq> newline \<Longrightarrow> c \<noteq> carriage \<Longrightarrow> list_all clean_line (map ((#) c) ls)"
  by (induction ls) (auto simp: clean_text_def clean_line_def)

lemma clean_end_of_file: "clean_line end_of_file_marker"
  by (simp add: clean_line_def)

lemma clean_print_chunk: "valid_chunk c \<Longrightarrow> list_all clean_line (print_chunk c)"
proof -
  assume c: "valid_chunk c"
  have "clean_line (case ch_context c of None \<Rightarrow> ''@@'' | Some x \<Rightarrow> ''@@ '' @ x)"
    using c by (cases "ch_context c") (auto simp: valid_chunk_def clean_line_def)
  moreover have "list_all clean_line (map ((#) (CHR ''-'')) (ch_old_lines c))"
    "list_all clean_line (map ((#) (CHR ''+'')) (ch_new_lines c))"
    using c by (auto simp: valid_chunk_def intro!: clean_prefixed)
  ultimately show ?thesis
    unfolding print_chunk_def by (simp only: list_all_append list.pred_inject clean_end_of_file simp_thms split: if_split)
qed

lemma clean_marker_line: "valid_path p \<Longrightarrow> newline \<notin> set a \<Longrightarrow> clean_line (a @ p)"
  using validate_patch_path_trimmed by (auto simp: clean_line_def valid_path_def)

lemma clean_print_hunk: "valid_hunk h \<Longrightarrow> list_all clean_line (print_hunk h)"
proof (cases h)
  case (Add p c)
  assume "valid_hunk h"
  then have "clean_line (add_file @ p)" "list_all clean_line (split_on newline (butlast c))"
    using clean_marker_line [of p add_file] by (simp_all add: Add)
  then show ?thesis
    unfolding Add print_hunk.simps list.pred_inject(2) by (auto simp: list_all_iff clean_line_def)
next
  case (Delete p)
  assume "valid_hunk h"
  then show ?thesis
    using clean_marker_line [of p delete_file] unfolding Delete print_hunk.simps list.pred_inject(2) by simp
next
  case (Update p mv cs)
  assume valid: "valid_hunk h"
  then have "clean_line (update_file @ p)"
    using clean_marker_line [of p update_file] by (simp add: Update)
  moreover have "list_all clean_line (case mv of None \<Rightarrow> [] | Some d \<Rightarrow> [move_to_file @ d])"
    using valid clean_marker_line [of _ move_to_file] by (auto simp: Update split: option.splits)
  moreover have "list_all clean_line (concat (map print_chunk cs))"
    using valid clean_print_chunk by (auto simp: Update list_all_iff)
  ultimately show ?thesis
    unfolding Update print_hunk.simps list.pred_inject(2) by (simp add: list_all_append)
qed

abbreviation patch_text :: "string list \<Rightarrow> string" where
  "patch_text body \<equiv> join [newline] (begin_patch # body @ [end_patch])"

lemma patch_text_lines:
  assumes "list_all clean_line body"
  shows "split_on newline (trim (crlf_to_lf (patch_text body))) = begin_patch # body @ [end_patch]"
proof -
  let ?ls = "begin_patch # body @ [end_patch]"
  have clean: "list_all clean_line ?ls"
    using assms by (auto simp: list_all_iff clean_line_def)
  have ends: "join [newline] (xs @ [end_patch]) = join [newline] (xs @ [''*** End Patc'']) @ ''h''" for xs
    by (induction xs) (auto simp: join_Cons)
  have "\<exists>s. patch_text body = CHR ''*'' # s @ ''h''"
    unfolding append_Cons [symmetric] ends by (auto simp: join_Cons)
  then have "trim (patch_text body) = patch_text body" using trim_star_h by auto
  moreover have "crlf_to_lf (patch_text body) = patch_text body" by (rule crlf_to_lf_join [OF clean])
  ultimately have "split_on newline (trim (crlf_to_lf (patch_text body))) = split_on newline (patch_text body)"
    by simp
  also have "\<dots> = ?ls"
    by (rule split_on_join) (use clean in \<open>auto simp: list_all_iff clean_line_def\<close>)
  finally show ?thesis .
qed

lemma print_patch_lines:
  assumes "list_all valid_hunk hs"
  shows "split_on newline (trim (crlf_to_lf (print_patch hs))) = begin_patch # concat (map print_hunk hs) @ [end_patch]"
  unfolding print_patch_def
  by (rule patch_text_lines) (use assms clean_print_hunk in \<open>auto simp: list_all_iff\<close>)

lemma parse_patch_text_error:
  assumes "list_all clean_line body" and "length (patch_text body) \<le> max_patch_bytes" and "parse_hunks 1 body = Inl e"
  shows "parse_apply_patch (patch_text body) = Inl e"
  using assms(2,3)
  by (simp add: parse_apply_patch_def patch_text_lines [OF assms(1)] strip_heredoc_def trim_markers)

lemma parse_print_valid:
  assumes "list_all valid_hunk hs" and "hs \<noteq> []" and "length hs \<le> 128"
    and "length (print_patch hs) \<le> 4 * 1024 * 1024"
    and "distinct (map to_ascii_lowercase (concat (map hunk_targets hs)))"
  shows "parse_apply_patch (print_patch hs) =
    Inr \<lparr>plan_hunks = hs, plan_targets = concat (map hunk_targets hs)\<rparr>"
proof -
  have "collect_targets hs [] = Inr (concat (map hunk_targets hs))"
    using assms(5) by (simp only: collect_targets_iff) simp
  then show ?thesis
    using assms(2-4)
    by (simp add: parse_apply_patch_def print_patch_lines [OF assms(1)] strip_heredoc_def
        parse_hunks_print [OF assms(1)] max_patch_bytes_def max_patch_files_def trim_markers)
qed

text \<open>C39: Printing and parsing are inverse: the text of a well-formed plan, at most 4 MiB with at most 128
  hunks whose targets differ up to ASCII case, parses to exactly the hunks that were printed and
  to their targets.\<close>

theorem parse_print_patch:
  assumes "list_all valid_hunk hs" and "hs \<noteq> []" and "length hs \<le> 128"
    and "length (print_patch hs) \<le> 4 * 1024 * 1024"
    and "distinct (map to_ascii_lowercase (concat (map hunk_targets hs)))"
  shows "parse_apply_patch (print_patch hs) =
    Inr \<lparr>plan_hunks = hs, plan_targets = concat (map hunk_targets hs)\<rparr>"
  using assms by (rule parse_print_valid)

lemma parse_print_patch_witness:
  "parse_apply_patch (print_patch [Add ''a'' (''x'' @ [newline]), Update ''b'' (Some ''c'')
     [\<lparr>ch_context = Some ''f'', ch_old_lines = [''o''], ch_new_lines = [], ch_end_of_file = True\<rparr>]]) =
   Inr \<lparr>plan_hunks = [Add ''a'' (''x'' @ [newline]), Update ''b'' (Some ''c'')
     [\<lparr>ch_context = Some ''f'', ch_old_lines = [''o''], ch_new_lines = [], ch_end_of_file = True\<rparr>]],
     plan_targets = [''a'', ''b'', ''c'']\<rparr>"
proof -
  let ?hs = "[Add ''a'' (''x'' @ [newline]), Update ''b'' (Some ''c'')
     [\<lparr>ch_context = Some ''f'', ch_old_lines = [''o''], ch_new_lines = [], ch_end_of_file = True\<rparr>]]"
  have "list_all valid_hunk ?hs" "length (print_patch ?hs) \<le> 200"
    "distinct (map to_ascii_lowercase (concat (map hunk_targets ?hs)))"
    "concat (map hunk_targets ?hs) = [''a'', ''b'', ''c'']"
    by code_simp+
  then show ?thesis using parse_print_patch [of ?hs] by simp
qed

definition validated :: "string \<Rightarrow> bool" where
  "validated t \<longleftrightarrow> (\<exists>p. validate_patch_path p = Inr t)"

lemma parse_hunks_step:
  assumes "parse_hunks i (line # rest) = Inr hs"
  shows "\<exists>h hs' j rest'. hs = h # hs' \<and> length rest' \<le> length rest \<and> parse_hunks j rest' = Inr hs' \<and>
    (\<forall>t \<in> set (hunk_targets h). validated t)"
proof -
  let ?m = "trim_end line"
  consider (add) path where "strip_prefix add_file ?m = Some path"
    | (delete) path where "strip_prefix add_file ?m = None" "strip_prefix delete_file ?m = Some path"
    | (update) path where "strip_prefix add_file ?m = None" "strip_prefix delete_file ?m = None"
        "strip_prefix update_file ?m = Some path"
    | (none) "strip_prefix add_file ?m = None" "strip_prefix delete_file ?m = None" "strip_prefix update_file ?m = None"
    by (cases "strip_prefix add_file ?m"; cases "strip_prefix delete_file ?m"; cases "strip_prefix update_file ?m") blast+
  then show ?thesis
  proof cases
    case add
    with assms show ?thesis
      unfolding parse_hunks.simps Let_def add option.case
      by (auto simp: rbind_Inr_iff validated_def dest!: parse_add_lines_shorter split: sum.splits if_splits) fastforce
  next
    case delete
    with assms obtain q hs' where q: "validate_patch_path path = Inr q" "parse_hunks (i + 1) rest = Inr hs'"
      "hs = Delete q # hs'"
      unfolding parse_hunks.simps Let_def delete option.case by (auto simp: rbind_Inr_iff split: sum.splits)
    then show ?thesis
      by (intro exI [of _ "Delete q"] exI [of _ hs'] exI [of _ "i + 1"] exI [of _ rest]) (auto simp: validated_def)
  next
    case update
    with assms obtain q mv rest1 j cs rest2 k hs' where q: "validate_patch_path path = Inr q"
      "parse_move_to rest = Inr (mv, rest1)" "parse_update_lines j rest1 [] None = Inr (cs, rest2)"
      "parse_hunks k rest2 = Inr hs'" "hs = Update q mv cs # hs'"
      unfolding parse_hunks.simps Let_def update option.case
      by (auto simp: rbind_Inr_iff split: sum.splits prod.splits if_splits)
    have "length rest2 \<le> length rest"
      using parse_move_to_shorter [OF q(2)] parse_update_lines_shorter [OF q(3)] by simp
    moreover have "\<forall>d. mv = Some d \<longrightarrow> validated d"
      using q(2) by (auto simp: parse_move_to_def rbind_Inr_iff validated_def split: list.splits option.splits)
    ultimately show ?thesis
      using q by (intro exI [of _ "Update q mv cs"] exI [of _ hs'] exI [of _ k] exI [of _ rest2])
        (cases mv; auto simp: validated_def)
  next
    case none
    with assms show ?thesis unfolding parse_hunks.simps Let_def none option.case by simp
  qed
qed

lemma parse_hunks_validated:
  "parse_hunks i ls = Inr hs \<Longrightarrow> \<forall>t \<in> set (concat (map hunk_targets hs)). validated t"
proof (induction "length ls" arbitrary: i ls hs rule: less_induct)
  case less
  show ?case
  proof (cases ls)
    case Nil
    with less.prems show ?thesis by simp
  next
    case (Cons line rest)
    with parse_hunks_step less.prems obtain h hs' j rest' where "hs = h # hs'" "length rest' \<le> length rest"
      "parse_hunks j rest' = Inr hs'" "\<forall>t \<in> set (hunk_targets h). validated t" by blast
    with less.hyps [of rest' j hs'] Cons show ?thesis by auto
  qed
qed

lemma validated_contained:
  assumes "validated t"
  shows "t \<noteq> [] \<and> hd t \<noteq> CHR ''/'' \<and> CHR '':'' \<notin> set t \<and> CHR 0x00 \<notin> set t \<and>
    (\<forall>part \<in> set (split_on (CHR ''/'') t). part \<noteq> [] \<and> part \<noteq> ''.'' \<and> part \<noteq> ''..'')"
  using assms by (cases t) (auto simp: validated_def validate_patch_path_def Let_def list_ex_iff split: if_splits)

text \<open>C40: Every target of an accepted patch is relative to the checkout, with no empty, \<open>.\<close> or \<open>..\<close>
  component, no drive or stream separator and no NUL, the targets are those of the hunks, and no
  two of them are equal up to ASCII case.\<close>

theorem parsed_targets_contained:
  assumes "parse_apply_patch patch = Inr plan"
  shows "plan_targets plan = concat (map hunk_targets (plan_hunks plan)) \<and>
    distinct (map to_ascii_lowercase (plan_targets plan)) \<and>
    (\<forall>t \<in> set (plan_targets plan). t \<noteq> [] \<and> hd t \<noteq> CHR ''/'' \<and> CHR '':'' \<notin> set t \<and> CHR 0x00 \<notin> set t \<and>
      (\<forall>part \<in> set (split_on (CHR ''/'') t). part \<noteq> [] \<and> part \<noteq> ''.'' \<and> part \<noteq> ''..''))"
proof -
  obtain i ls where h: "parse_hunks i ls = Inr (plan_hunks plan)"
    and t: "collect_targets (plan_hunks plan) [] = Inr (plan_targets plan)"
    using assms by (auto simp: parse_apply_patch_def rbind_Inr_iff Let_def split: if_splits)
  note targets = t [unfolded collect_targets_iff]
  have "\<forall>t \<in> set (plan_targets plan). validated t"
    using targets parse_hunks_validated [OF h] by simp
  with targets show ?thesis using validated_contained by blast
qed

lemma parsed_targets_contained_witness:
  "\<exists>plan. parse_apply_patch (print_patch [Delete ''a/b'']) = Inr plan \<and>
     (\<forall>t \<in> set (plan_targets plan). CHR '':'' \<notin> set t)"
proof -
  have "list_all valid_hunk [Delete ''a/b'']" "length (print_patch [Delete ''a/b'']) \<le> 200" by code_simp+
  then have "parse_apply_patch (print_patch [Delete ''a/b'']) =
      Inr \<lparr>plan_hunks = [Delete ''a/b''], plan_targets = [''a/b'']\<rparr>"
    using parse_print_valid [of "[Delete ''a/b'']"] by simp
  from parsed_targets_contained [OF this] this show ?thesis by auto
qed

section \<open>Applying chunks\<close>

fun ascending :: "nat \<Rightarrow> nat \<Rightarrow> replacement list \<Rightarrow> bool" where
  "ascending len from_line [] = (from_line \<le> len)"
| "ascending len from_line ((p, k, _) # rs) = (from_line \<le> p \<and> p + k \<le> len \<and> ascending len (p + k) rs)"

text \<open>The text as one reads the replacements: what lies between them is kept.\<close>

fun segments :: "string list \<Rightarrow> nat \<Rightarrow> replacement list \<Rightarrow> string list" where
  "segments lines from_line [] = drop from_line lines"
| "segments lines from_line ((p, k, new) # rs) =
     take (p - from_line) (drop from_line lines) @ new @ segments lines (p + k) rs"

definition replaces :: "string list \<Rightarrow> replacement \<Rightarrow> patch_chunk \<Rightarrow> bool" where
  "replaces lines r c =
     (case r of (p, k, new) \<Rightarrow>
       k = length (ch_old_lines c) \<and> new = ch_new_lines c \<and>
       (if ch_old_lines c = [] then p = length lines
        else p + k \<le> length lines \<and> (\<exists>s \<le> 2. matches_at s lines (ch_old_lines c) p)))"

lemma ascending_bound: "ascending len from_line rs \<Longrightarrow> from_line \<le> len"
  by (induction rs arbitrary: from_line) auto

lemma splice_all_append:
  "splice_all lines (rs @ rs') = rbind (splice_all lines rs) (\<lambda>lines. splice_all lines rs')"
proof (induction rs arbitrary: lines)
  case (Cons r rs)
  then show ?case by (cases "splice_lines lines r") simp_all
qed simp

lemma splice_ascending:
  "ascending (length lines) from_line rs \<Longrightarrow>
   splice_all lines (rev rs) = Inr (take from_line lines @ segments lines from_line rs)"
proof (induction rs arbitrary: from_line)
  case (Cons r rs)
  obtain p k new where r: "r = (p, k, new)" by (cases r) auto
  with Cons.prems have asc: "from_line \<le> p" "p + k \<le> length lines" "ascending (length lines) (p + k) rs" by auto
  have "take p lines = take from_line lines @ take (p - from_line) (drop from_line lines)"
    using asc(1) by (metis le_add_diff_inverse take_add)
  then show ?case
    using Cons.IH [OF asc(3)] asc by (simp add: splice_all_append r min_def)
qed simp

lemma seek_sequence_found:
  assumes "seek_sequence lines pattern start eof = Some i" and "pattern \<noteq> []"
  shows "i + length pattern \<le> length lines \<and> (\<exists>s \<le> 2. matches_at s lines pattern i)"
proof -
  define f where "f s = find (matches_at s lines pattern)
     [(if eof then length lines - length pattern else min start (length lines - length pattern))..<
      Suc (length lines - length pattern)]" for s
  have len: "length pattern \<le> length lines" using assms by (auto simp: seek_sequence_def split: if_splits)
  have "(case f 0 of Some i \<Rightarrow> Some i | None \<Rightarrow> (case f 1 of Some i \<Rightarrow> Some i | None \<Rightarrow> f 2)) = Some i"
    using assms len unfolding seek_sequence_def Let_def f_def by simp
  then have "f 0 = Some i \<or> f 1 = Some i \<or> f 2 = Some i" by (auto split: option.splits)
  then obtain s where "s \<le> 2" "f s = Some i" by (metis le_numeral_extra(3) one_le_numeral zero_le order_refl)
  with find_Some_imp [of "matches_at s lines pattern" _ i] len show ?thesis unfolding f_def by fastforce
qed

lemma find_replacements_found:
  "find_replacements lines path cursor chunks = Inr rs \<Longrightarrow> list_all2 (replaces lines) rs chunks"
proof (induction chunks arbitrary: cursor rs)
  case (Cons c chunks)
  then show ?case
    by (auto simp: rbind_Inr_iff replaces_def dest!: seek_sequence_found split: if_splits option.splits)
qed simp

text \<open>Chunks are applied where they were found: each chunk's old lines match the lines it replaces, up
  to white space at the line ends, and when the places found ascend without overlap the result
  is the text with every matched block replaced by its new lines and all other lines kept.\<close>

theorem apply_chunks_segments:
  assumes "chunks \<noteq> []" and "find_replacements (text_lines original) path 0 chunks = Inr rs"
    and "ascending (length (text_lines original)) 0 rs"
  shows "list_all2 (replaces (text_lines original)) rs chunks \<and>
    apply_chunks original path chunks = Inr (join [newline] (segments (text_lines original) 0 rs) @ [newline])"
  using assms find_replacements_found splice_ascending [OF assms(3)]
  by (simp add: apply_chunks_def Let_def)

lemma apply_chunks_segments_witness:
  "let chunk = \<lparr>ch_context = None, ch_old_lines = [''b''], ch_new_lines = [''x'', ''y''], ch_end_of_file = False\<rparr>;
       original = join [newline] [''a'', ''b'', ''c''] in
   apply_chunks original ''f'' [chunk] = Inr (join [newline] [''a'', ''x'', ''y'', ''c''] @ [newline])"
proof -
  let ?c = "\<lparr>ch_context = None, ch_old_lines = [''b''], ch_new_lines = [''x'', ''y''], ch_end_of_file = False\<rparr>"
  let ?o = "join [newline] [''a'', ''b'', ''c'']"
  have "find_replacements (text_lines ?o) ''f'' 0 [?c] = Inr [(1, 1, [''x'', ''y''])]"
    "ascending (length (text_lines ?o)) 0 [(1, 1, [''x'', ''y''])]"
    "segments (text_lines ?o) 0 [(1, 1, [''x'', ''y''])] = [''a'', ''x'', ''y'', ''c'']"
    by code_simp+
  with apply_chunks_segments [of "[?c]" ?o "''f''" "[(1, 1, [''x'', ''y''])]"] show ?thesis by simp
qed

text \<open>An insertion chunk before a chunk that shortens the file makes the program panic: the insertion
  is placed at the end of the original text, the replacements are applied from the last to the
  first, and the splice then starts after the end of the shortened text.\<close>

theorem insertion_before_deletion_panics:
  assumes "text_lines original \<noteq> []"
  shows "apply_chunks original path
     [\<lparr>ch_context = None, ch_old_lines = [], ch_new_lines = news, ch_end_of_file = False\<rparr>,
      \<lparr>ch_context = None, ch_old_lines = [last (text_lines original)], ch_new_lines = [], ch_end_of_file = True\<rparr>]
   = Inl Panic"
proof -
  let ?ls = "text_lines original"
  obtain ys y where "?ls = ys @ [y]" using assms by (cases ?ls rule: rev_cases) auto
  then have "matches_at 0 ?ls [last ?ls] (length ?ls - 1)"
    by (simp add: matches_at_def line_matches_def)
  then have "seek_sequence ?ls [last ?ls] 0 True = Some (length ?ls - 1)"
    using assms by (auto simp: seek_sequence_def Let_def upt_rec neq_Nil_conv)
  then show ?thesis
    using assms by (simp add: apply_chunks_def Let_def)
qed

lemma insertion_before_deletion_panics_witness:
  "apply_chunks ''a'' ''f''
     [\<lparr>ch_context = None, ch_old_lines = [], ch_new_lines = [''b''], ch_end_of_file = False\<rparr>,
      \<lparr>ch_context = None, ch_old_lines = [''a''], ch_new_lines = [], ch_end_of_file = True\<rparr>] = Inl Panic"
proof -
  have "text_lines ''a'' = [''a'']" by code_simp
  then show ?thesis using insertion_before_deletion_panics [of "''a''" "''f''" "[''b'']"] by simp
qed

text \<open>A patch line that starts with a character outside ASCII makes the parser panic instead of
  reporting an error: inside an update the line is cut after its first byte, which is not a
  character boundary.\<close>

theorem non_ascii_update_line_panics:
  assumes "valid_path p" and "clean_line (c # d # s)" and "128 \<le> byte c" and "is_utf8_cont d"
    and "length p + length s \<le> 1024"
  shows "parse_apply_patch (join [newline] [begin_patch, update_file @ p, c # d # s, end_patch]) = Inl Panic"
proof -
  let ?body = "[update_file @ p, c # d # s]"
  have c: "c \<noteq> CHR ''*''" "c \<noteq> CHR ''@''" using assms(3) by auto
  have body: "list_all clean_line ?body"
    using clean_marker_line [OF assms(1), of update_file] assms(2) by simp
  have no_move: "parse_move_to [c # d # s] = Inr (None, [c # d # s])"
    using parse_move_to_print [of None "[c # d # s]"] c by simp
  have "parse_update_lines j [c # d # s] [] None = Inl Panic" for j
    using c not_marker [of "c # d # s"] assms(4) by (simp add: finish_chunk_def add_chunk_line_def)
  then have "parse_hunks 1 ?body = Inl Panic"
    using assms(1)
    unfolding parse_hunks.simps Let_def valid_path_marker(3) [OF assms(1)] strip_other_prefix
      strip_prefix_append option.case no_move
    by (simp add: valid_path_def)
  moreover have "length (patch_text ?body) \<le> max_patch_bytes"
    using assms(5) by (simp add: max_patch_bytes_def)
  ultimately show ?thesis using parse_patch_text_error [OF body] by simp
qed

lemma non_ascii_update_line_panics_witness:
  "parse_apply_patch (join [newline] [begin_patch, update_file @ ''a'', [CHR 0xE4, CHR 0xBD, CHR 0xA0], end_patch])
     = Inl Panic"
proof -
  have "valid_path ''a''" by code_simp
  then show ?thesis
    using non_ascii_update_line_panics [of "''a''" "CHR 0xE4" "CHR 0xBD" "[CHR 0xA0]"]
    by (simp add: clean_line_def is_utf8_cont_def)
qed

end
