(* ===== verification/Table.thy ===== *)
theory Table
  imports Prelude
begin

text \<open>
  Tables of the agent store: a table is the list of its rows in \<open>rowid\<close> order. The clauses of
  the SQL statements the store issues are list operations, and the way a table may change over
  time is a relation that pairs every old row with the row now at its place.
\<close>

section \<open>Statements\<close>

text \<open>\<open>UPDATE ... SET f WHERE p\<close>, the number of rows it affects, and \<open>SELECT ... WHERE p\<close>.\<close>

definition update_where :: "('r \<Rightarrow> bool) \<Rightarrow> ('r \<Rightarrow> 'r) \<Rightarrow> 'r list \<Rightarrow> 'r list" where
  "update_where p f rows = map (\<lambda>r. if p r then f r else r) rows"

definition count_where :: "('r \<Rightarrow> bool) \<Rightarrow> 'r list \<Rightarrow> nat" where
  "count_where p rows = length (filter p rows)"

text \<open>\<open>ORDER BY k DESC, rowid DESC LIMIT 1\<close>: among equal keys the latest row wins.\<close>

fun last_max :: "('r \<Rightarrow> 'k::linorder) \<Rightarrow> 'r list \<Rightarrow> 'r option" where
  "last_max k [] = None"
| "last_max k (r # rows) =
     (case last_max k rows of None \<Rightarrow> Some r | Some m \<Rightarrow> Some (if k r \<le> k m then m else r))"

lemma update_where_simps [simp]:
  "update_where p f [] = []"
  "update_where p f (r # rows) = (if p r then f r else r) # update_where p f rows"
  "length (update_where p f rows) = length rows"
  "update_where p f (xs @ ys) = update_where p f xs @ update_where p f ys"
  by (simp_all add: update_where_def)

lemma nth_update_where [simp]:
  "i < length rows \<Longrightarrow> update_where p f rows ! i = (if p (rows ! i) then f (rows ! i) else rows ! i)"
  by (simp add: update_where_def)

lemma set_update_where:
  "set (update_where p f rows) = (\<lambda>r. if p r then f r else r) ` set rows"
  by (simp add: update_where_def)

lemma map_update_where:
  assumes "\<And>r. r \<in> set rows \<Longrightarrow> p r \<Longrightarrow> k (f r) = k r"
  shows "map k (update_where p f rows) = map k rows"
  using assms by (simp add: update_where_def)

lemma find_update_where:
  assumes "\<And>r. q (if p r then f r else r) = q r"
  shows "find q (update_where p f rows) = map_option (\<lambda>r. if p r then f r else r) (find q rows)"
proof (induction rows)
  case (Cons r rows)
  show ?case using assms [of r] Cons by auto
qed simp

lemma find_append: "find p (xs @ ys) = (case find p xs of None \<Rightarrow> find p ys | Some x \<Rightarrow> Some x)"
  by (induction xs) auto

lemma count_where_simps [simp]:
  "count_where p [] = 0"
  "count_where p (r # rows) = (if p r then Suc (count_where p rows) else count_where p rows)"
  "count_where p (xs @ ys) = count_where p xs + count_where p ys"
  by (simp_all add: count_where_def)

lemma count_where_0_iff [simp]: "count_where p rows = 0 \<longleftrightarrow> (\<forall>r \<in> set rows. \<not> p r)"
  by (auto simp: count_where_def filter_empty_conv)

lemma count_where_map_cong:
  assumes "map k xs = map k ys" and "\<And>x. p x = q (k x)"
  shows "count_where p xs = count_where p ys"
proof -
  have "p = (\<lambda>x. q (k x))" using assms(2) by (intro ext)
  then have *: "count_where p zs = length (filter q (map k zs))" for zs
    by (simp add: count_where_def filter_map comp_def)
  show ?thesis unfolding * assms(1) ..
qed

lemma count_where_key_le_1:
  "distinct (map k rows) \<Longrightarrow> (\<And>r. p r \<Longrightarrow> k r = v) \<Longrightarrow> count_where p rows \<le> 1"
proof (induction rows)
  case (Cons r rows)
  show ?case
  proof (cases "p r")
    case True
    have "\<forall>x \<in> set rows. \<not> p x"
      using Cons.prems True by (metis distinct.simps(2) image_eqI list.set_map list.simps(9))
    then show ?thesis using True by simp
  next
    case False
    then show ?thesis using Cons by simp
  qed
qed simp

lemma last_max_None_iff [simp]: "last_max k rows = None \<longleftrightarrow> rows = []"
  by (cases rows) (auto split: option.splits)

lemma last_max_in: "last_max k rows = Some m \<Longrightarrow> m \<in> set rows"
  by (induction rows arbitrary: m) (auto split: option.splits if_splits)

lemma last_max_ge: "last_max k rows = Some m \<Longrightarrow> r \<in> set rows \<Longrightarrow> k r \<le> k m"
proof (induction rows arbitrary: m)
  case (Cons r' rows)
  then show ?case by (fastforce split: option.splits if_splits)
qed simp

section \<open>Keyed rows\<close>

text \<open>A primary key: rows with the same key are the same row.\<close>

lemma find_key:
  assumes "distinct (map k rows)" and "r \<in> set rows"
  shows "find (\<lambda>x. k x = k r) rows = Some r"
  using assms by (induction rows) auto

lemma find_key_Some_iff:
  assumes "distinct (map k rows)"
  shows "find (\<lambda>x. k x = v) rows = Some r \<longleftrightarrow> r \<in> set rows \<and> k r = v"
  using assms find_key find_Some_imp by fastforce

lemma key_unique:
  "distinct (map k rows) \<Longrightarrow> r \<in> set rows \<Longrightarrow> r' \<in> set rows \<Longrightarrow> k r = k r' \<Longrightarrow> r = r'"
  by (metis find_key option.inject)

section \<open>How a table evolves\<close>

text \<open>
  \<open>evolves r xs ys\<close>: every row of \<open>xs\<close> is still there, at its place, changed along \<open>r\<close> at
  most, and new rows only come after them.
\<close>

definition evolves :: "('r \<Rightarrow> 'r \<Rightarrow> bool) \<Rightarrow> 'r list \<Rightarrow> 'r list \<Rightarrow> bool" where
  "evolves r xs ys \<longleftrightarrow> length xs \<le> length ys \<and> (\<forall>i < length xs. r (xs ! i) (ys ! i))"

locale row_order =
  fixes r :: "'r \<Rightarrow> 'r \<Rightarrow> bool"
  assumes row_refl: "r x x"
    and row_trans: "r x y \<Longrightarrow> r y z \<Longrightarrow> r x z"
begin

lemma evolves_refl: "evolves r xs xs"
  by (simp add: evolves_def row_refl)

lemma evolves_trans: "evolves r xs ys \<Longrightarrow> evolves r ys zs \<Longrightarrow> evolves r xs zs"
  unfolding evolves_def using row_trans by (metis order_less_le_trans order_trans)

lemma evolves_insert: "evolves r xs (xs @ ys)"
  by (simp add: evolves_def nth_append row_refl)

lemma evolves_update:
  "(\<And>x. x \<in> set xs \<Longrightarrow> p x \<Longrightarrow> r x (f x)) \<Longrightarrow> evolves r xs (update_where p f xs)"
  by (simp add: evolves_def row_refl)

lemma evolves_row:
  assumes "evolves r xs ys" and "x \<in> set xs"
  shows "\<exists>y \<in> set ys. r x y"
  using assms unfolding evolves_def in_set_conv_nth by (meson order_less_le_trans nth_mem)

end

text \<open>Rows that may not change at all: the table only grows at its end.\<close>

interpretation same_row: row_order "(=)"
  by unfold_locales auto

lemma evolves_eq_iff: "evolves (=) xs ys \<longleftrightarrow> (\<exists>zs. ys = xs @ zs)"
proof
  assume "evolves (=) xs ys"
  then have "take (length xs) ys = xs"
    unfolding evolves_def by (intro nth_equalityI) auto
  then show "\<exists>zs. ys = xs @ zs" by (metis append_take_drop_id)
next
  assume "\<exists>zs. ys = xs @ zs"
  then show "evolves (=) xs ys" by (auto simp: evolves_def nth_append)
qed

end
