(* ===== verification/Store_Types.thy ===== *)
theory Store_Types
  imports Table Agent_Enums
begin

text \<open>
  Data of the agent store (\<open>hachimi-protocol/src/agent.rs\<close>, \<open>agent/recovery.rs\<close>): the status
  enums with the texts that are persisted, and the records that are the rows of the tables.
  Identifiers and opaque JSON columns are texts, timestamps are \<open>int\<close>, sequence numbers,
  generations and counters are \<open>nat\<close> (they stay far below \<open>2 ^ 63\<close>, where the store would clamp
  them).
\<close>

section \<open>JSON values\<close>

datatype json =
    JNull
  | JBool bool
  | JNum int
  | JStr string
  | JArr "json list"
  | JObj "(string \<times> json) list"

definition json_opt :: "string option \<Rightarrow> json" where
  "json_opt v = (case v of None \<Rightarrow> JNull | Some t \<Rightarrow> JStr t)"

section \<open>Status enums\<close>

text \<open>The law every persisted enum obeys: \<open>parse\<close> is the inverse of \<open>as_str\<close>.\<close>

locale enum_codec =
  fixes as_str :: "'a \<Rightarrow> string"
    and parse :: "string \<Rightarrow> 'a option"
  assumes parse_as_str: "parse (as_str x) = Some x"
    and as_str_parse: "parse t = Some x \<Longrightarrow> as_str x = t"
begin

lemma as_str_inj: "as_str x = as_str y \<longleftrightarrow> x = y"
  by (metis option.inject parse_as_str)

lemma parse_iff: "parse t = Some x \<longleftrightarrow> t = as_str x"
  by (metis as_str_parse parse_as_str)

end

datatype run_status =
    Queued | Preparing | Running | WaitingApproval | WaitingUserInput | Recovering
  | WaitingRecoveryDecision | Cancelling | Succeeded | Failed | TimedOut | Cancelled
  | Interrupted | Lost

definition is_terminal :: "run_status \<Rightarrow> bool" where
  "is_terminal s \<longleftrightarrow> s \<in> {Succeeded, Failed, TimedOut, Cancelled, Interrupted, Lost}"

fun can_transition_to :: "run_status \<Rightarrow> run_status \<Rightarrow> bool" where
  "can_transition_to Queued t = (t \<in> {Preparing, Cancelled, Interrupted, Lost})"
| "can_transition_to Preparing t = (t \<in> {Running, Failed, Cancelled, Interrupted, Lost})"
| "can_transition_to Running t =
     (t \<in> {WaitingApproval, WaitingUserInput, Cancelling, Succeeded, Failed, TimedOut, Interrupted, Lost})"
| "can_transition_to WaitingApproval t = (t \<in> {Running, Cancelling, Failed, Interrupted, Lost})"
| "can_transition_to WaitingUserInput t = (t \<in> {Running, Cancelling, Failed, Interrupted, Lost})"
| "can_transition_to Interrupted t = (t \<in> {Recovering, WaitingRecoveryDecision, Cancelled})"
| "can_transition_to Lost t = (t \<in> {Recovering, WaitingRecoveryDecision, Cancelled})"
| "can_transition_to Recovering t =
     (t \<in> {Queued, Preparing, Running, WaitingRecoveryDecision, Failed, Cancelled, Lost})"
| "can_transition_to WaitingRecoveryDecision t =
     (t \<in> {Queued, Recovering, Preparing, Running, Failed, Cancelled, Lost})"
| "can_transition_to Cancelling t = (t \<in> {Cancelled, Failed, Interrupted, Lost})"
| "can_transition_to _ t = False"

fun run_status_str :: "run_status \<Rightarrow> string" where
  "run_status_str Queued = ''queued''"
| "run_status_str Preparing = ''preparing''"
| "run_status_str Running = ''running''"
| "run_status_str WaitingApproval = ''waiting_approval''"
| "run_status_str WaitingUserInput = ''waiting_user_input''"
| "run_status_str Recovering = ''recovering''"
| "run_status_str WaitingRecoveryDecision = ''waiting_recovery_decision''"
| "run_status_str Cancelling = ''cancelling''"
| "run_status_str Succeeded = ''succeeded''"
| "run_status_str Failed = ''failed''"
| "run_status_str TimedOut = ''timed_out''"
| "run_status_str Cancelled = ''cancelled''"
| "run_status_str Interrupted = ''interrupted''"
| "run_status_str Lost = ''lost''"

definition parse_run_status :: "string \<Rightarrow> run_status option" where
  "parse_run_status t = map_of (map (\<lambda>s. (run_status_str s, s))
     [Queued, Preparing, Running, WaitingApproval, WaitingUserInput, Recovering,
      WaitingRecoveryDecision, Cancelling, Succeeded, Failed, TimedOut, Cancelled,
      Interrupted, Lost]) t"

datatype item_status = ItemPending | InProgress | ItemCompleted_Status | ItemFailed | ItemInterrupted

fun item_status_str :: "item_status \<Rightarrow> string" where
  "item_status_str ItemPending = ''pending''"
| "item_status_str InProgress = ''in_progress''"
| "item_status_str ItemCompleted_Status = ''completed''"
| "item_status_str ItemFailed = ''failed''"
| "item_status_str ItemInterrupted = ''interrupted''"

definition parse_item_status :: "string \<Rightarrow> item_status option" where
  "parse_item_status t = map_of (map (\<lambda>s. (item_status_str s, s))
     [ItemPending, InProgress, ItemCompleted_Status, ItemFailed, ItemInterrupted]) t"

datatype approval_status = Pending | Approved | Denied | Expired | ApprovalCancelled

fun approval_status_str :: "approval_status \<Rightarrow> string" where
  "approval_status_str Pending = ''pending''"
| "approval_status_str Approved = ''approved''"
| "approval_status_str Denied = ''denied''"
| "approval_status_str Expired = ''expired''"
| "approval_status_str ApprovalCancelled = ''cancelled''"

definition parse_approval_status :: "string \<Rightarrow> approval_status option" where
  "parse_approval_status t = map_of (map (\<lambda>s. (approval_status_str s, s))
     [Pending, Approved, Denied, Expired, ApprovalCancelled]) t"

datatype step_phase =
    Sampling | ToolPrepared | ToolClaimed | ToolDispatched | ToolCompleted | ProjectionCommitted

fun step_phase_str :: "step_phase \<Rightarrow> string" where
  "step_phase_str Sampling = ''sampling''"
| "step_phase_str ToolPrepared = ''tool_prepared''"
| "step_phase_str ToolClaimed = ''tool_claimed''"
| "step_phase_str ToolDispatched = ''tool_dispatched''"
| "step_phase_str ToolCompleted = ''tool_completed''"
| "step_phase_str ProjectionCommitted = ''projection_committed''"

definition parse_step_phase :: "string \<Rightarrow> step_phase option" where
  "parse_step_phase t = map_of (map (\<lambda>s. (step_phase_str s, s))
     [Sampling, ToolPrepared, ToolClaimed, ToolDispatched, ToolCompleted, ProjectionCommitted]) t"

datatype recovery_policy = ReadOnlyReplayable | IdempotentWithReceipt | NonReplayable

fun recovery_policy_str :: "recovery_policy \<Rightarrow> string" where
  "recovery_policy_str ReadOnlyReplayable = ''read_only_replayable''"
| "recovery_policy_str IdempotentWithReceipt = ''idempotent_with_receipt''"
| "recovery_policy_str NonReplayable = ''non_replayable''"

definition parse_recovery_policy :: "string \<Rightarrow> recovery_policy option" where
  "parse_recovery_policy t = map_of (map (\<lambda>s. (recovery_policy_str s, s))
     [ReadOnlyReplayable, IdempotentWithReceipt, NonReplayable]) t"

datatype recovery_state =
    EligibleAuto | AwaitingUser | Resuming | Resumed | Abandoned | RecoveryFailed

fun recovery_state_str :: "recovery_state \<Rightarrow> string" where
  "recovery_state_str EligibleAuto = ''eligible_auto''"
| "recovery_state_str AwaitingUser = ''awaiting_user''"
| "recovery_state_str Resuming = ''resuming''"
| "recovery_state_str Resumed = ''resumed''"
| "recovery_state_str Abandoned = ''abandoned''"
| "recovery_state_str RecoveryFailed = ''failed''"

definition parse_recovery_state :: "string \<Rightarrow> recovery_state option" where
  "parse_recovery_state t = map_of (map (\<lambda>s. (recovery_state_str s, s))
     [EligibleAuto, AwaitingUser, Resuming, Resumed, Abandoned, RecoveryFailed]) t"

datatype decision_action =
    ResumeSafeRemainder | ConfirmEffectSucceeded | RetryIdempotentEffect | AbandonRun

fun decision_action_str :: "decision_action \<Rightarrow> string" where
  "decision_action_str ResumeSafeRemainder = ''resume_safe_remainder''"
| "decision_action_str ConfirmEffectSucceeded = ''confirm_effect_succeeded''"
| "decision_action_str RetryIdempotentEffect = ''retry_idempotent_effect''"
| "decision_action_str AbandonRun = ''abandon_run''"

definition parse_decision_action :: "string \<Rightarrow> decision_action option" where
  "parse_decision_action t = map_of (map (\<lambda>s. (decision_action_str s, s))
     [ResumeSafeRemainder, ConfirmEffectSucceeded, RetryIdempotentEffect, AbandonRun]) t"

text \<open>A table of the constructors and their distinct texts is such a codec.\<close>

lemma enum_codecI:
  assumes "\<And>t. parse t = map_of (map (\<lambda>s. (as_str s, s)) xs) t"
    and "distinct (map as_str xs)" and "\<And>x. x \<in> set xs"
  shows "enum_codec as_str parse"
proof
  fix x
  have "map_of (map (\<lambda>s. (as_str s, s)) xs) (as_str x) = Some x"
    using assms(2,3) by (intro map_of_is_SomeI) (auto simp: comp_def)
  then show "parse (as_str x) = Some x" by (simp add: assms(1))
next
  fix t x assume "parse t = Some x"
  then show "as_str x = t" by (auto simp: assms(1) dest!: map_of_SomeD)
qed

interpretation run_status: enum_codec run_status_str parse_run_status
  by (rule enum_codecI, rule parse_run_status_def, simp, case_tac x) simp_all

interpretation item_status: enum_codec item_status_str parse_item_status
  by (rule enum_codecI, rule parse_item_status_def, simp, case_tac x) simp_all

interpretation approval_status: enum_codec approval_status_str parse_approval_status
  by (rule enum_codecI, rule parse_approval_status_def, simp, case_tac x) simp_all

interpretation step_phase: enum_codec step_phase_str parse_step_phase
  by (rule enum_codecI, rule parse_step_phase_def, simp, case_tac x) simp_all

interpretation recovery_policy: enum_codec recovery_policy_str parse_recovery_policy
  by (rule enum_codecI, rule parse_recovery_policy_def, simp, case_tac x) simp_all

interpretation recovery_state: enum_codec recovery_state_str parse_recovery_state
  by (rule enum_codecI, rule parse_recovery_state_def, simp, case_tac x) simp_all

interpretation decision_action: enum_codec decision_action_str parse_decision_action
  by (rule enum_codecI, rule parse_decision_action_def, simp, case_tac x) simp_all

text \<open>Enums that are persisted through their serde names, without a \<open>parse\<close> of their own.\<close>

datatype side_effect_status =
    Claimed | Dispatched | EffectSucceeded | EffectFailed | EffectCancelled | Indeterminate

fun side_effect_status_str :: "side_effect_status \<Rightarrow> string" where
  "side_effect_status_str Claimed = ''claimed''"
| "side_effect_status_str Dispatched = ''dispatched''"
| "side_effect_status_str EffectSucceeded = ''succeeded''"
| "side_effect_status_str EffectFailed = ''failed''"
| "side_effect_status_str EffectCancelled = ''cancelled''"
| "side_effect_status_str Indeterminate = ''indeterminate''"

datatype approval_grant_scope = GrantOnce | GrantSession | GrantTimedLease

datatype run_purpose = Task | Review | Automation

datatype item_kind =
    User_Item | Assistant_Item | Reasoning_Item | ToolExecution_Item | Plan_Item | Approval_Item
  | UserInputRequest_Item | CommandExecution_Item | FileChange_Item | McpCall_Item
  | DynamicToolCall_Item | CollabToolCall_Item | ContextCompaction_Item | Review_Item
  | SystemContext_Item

fun transcript_kind_db :: "item_kind \<Rightarrow> string" where
  "transcript_kind_db User_Item = ''user''"
| "transcript_kind_db Assistant_Item = ''assistant''"
| "transcript_kind_db ToolExecution_Item = ''tool_execution''"
| "transcript_kind_db Plan_Item = ''plan''"
| "transcript_kind_db Approval_Item = ''approval''"
| "transcript_kind_db SystemContext_Item = ''system_context''"
| "transcript_kind_db Reasoning_Item = ''reasoning''"
| "transcript_kind_db UserInputRequest_Item = ''user_input_request''"
| "transcript_kind_db CommandExecution_Item = ''command_execution''"
| "transcript_kind_db FileChange_Item = ''file_change''"
| "transcript_kind_db McpCall_Item = ''mcp_call''"
| "transcript_kind_db DynamicToolCall_Item = ''dynamic_tool_call''"
| "transcript_kind_db CollabToolCall_Item = ''collab_tool_call''"
| "transcript_kind_db ContextCompaction_Item = ''context_compaction''"
| "transcript_kind_db Review_Item = ''review''"

end
