(* ===== verification/Store_State.thy ===== *)
theory Store_State
  imports Store_Types
begin

text \<open>
  The rows of the agent store, the store as one record of tables, and the transactions on it.
  A transaction is a function from the store to an error or a result with the new store: an
  error carries no store because the database rolls the transaction back. The declared
  constraints of the migrations (primary keys, \<open>UNIQUE\<close>, \<open>CHECK\<close>, foreign keys) are the
  conditions under which an insertion succeeds. Rows are stored typed, so the decoding errors
  of corrupt databases do not arise.
\<close>

section \<open>Rows\<close>

record session_row =
  ss_id :: string
  ss_context :: string
  ss_entry_profile :: entry_profile
  ss_title :: string
  ss_archived :: bool
  ss_pinned :: bool
  ss_parent_session_id :: "string option"
  ss_source_run_id :: "string option"
  ss_next_sequence :: nat
  ss_created_at_ms :: int
  ss_updated_at_ms :: int

record run_record =
  rr_id :: string
  rr_session_id :: string
  rr_status :: run_status
  rr_purpose :: run_purpose
  rr_origin :: string
  rr_generation :: nat
  rr_configuration :: string
  rr_requested_capabilities :: string
  rr_negotiated_capabilities :: string
  rr_provider_capability_probe :: "string option"
  rr_capability_degradations :: "string list"
  rr_failure_code :: "string option"
  rr_created_at_ms :: int
  rr_updated_at_ms :: int

record user_input_option =
  uo_label :: string
  uo_value :: string
  uo_description :: "string option"

record user_input_question =
  uq_id :: string
  uq_header :: string
  uq_prompt :: string
  uq_options :: "user_input_option list"
  uq_secret :: bool
  uq_auto_resolution_ms :: "nat option"
  uq_default_answer :: "string option"

record user_input_display_answer =
  da_question_id :: string
  da_value :: "string option"
  da_secret_provided :: bool

text \<open>Item payloads: the one the store builds itself, and the others, which it only carries.\<close>

datatype item_payload =
    UserInputRequestPayload string "user_input_question list" "user_input_display_answer list"
  | OtherPayload json

record transcript_item =
  ti_id :: string
  ti_session_id :: string
  ti_run_id :: "string option"
  ti_sequence :: nat
  ti_kind :: item_kind
  ti_status :: item_status
  ti_payload :: item_payload
  ti_relations :: json
  ti_created_at_ms :: int

datatype item_delta_payload = Text_Delta string | CommandOutput_Delta string string

datatype run_event_payload =
    ItemStarted transcript_item
  | ItemDelta string item_delta_payload
  | ItemCompleted transcript_item
  | PlanUpdated "string option" "json list"
  | DiffUpdated "string option" nat nat nat
  | UserInputRequested string
  | Generic string json

fun event_name :: "run_event_payload \<Rightarrow> string" where
  "event_name (ItemStarted _) = ''item.started''"
| "event_name (ItemDelta _ _) = ''item.delta''"
| "event_name (ItemCompleted _) = ''item.completed''"
| "event_name (PlanUpdated _ _) = ''plan.updated''"
| "event_name (DiffUpdated _ _ _ _) = ''run.diff.updated''"
| "event_name (UserInputRequested _) = ''user_input.requested''"
| "event_name (Generic event _) = event"

definition control_protocol_version :: nat where
  "control_protocol_version = 31"

record run_event_envelope =
  ev_protocol_version :: nat
  ev_sequence :: nat
  ev_session_id :: string
  ev_run_id :: "string option"
  ev_payload :: run_event_payload
  ev_created_at_ms :: int

record approval_record =
  ap_id :: string
  ap_session_id :: string
  ap_run_id :: string
  ap_tool_call_id :: string
  ap_run_generation :: nat
  ap_status :: approval_status
  ap_action :: string
  ap_resource :: string
  ap_parameter_hash :: string
  ap_risk_summary :: string
  ap_target_host :: string
  ap_required_scopes :: "string list"
  ap_grant_scope :: approval_grant_scope
  ap_uses_remaining :: nat
  ap_requester_principal :: string
  ap_resolved_by :: "string option"
  ap_expires_at_ms :: "int option"
  ap_created_at_ms :: int
  ap_resolved_at_ms :: "int option"

text \<open>The row has the persisted result beside the fields of the record.\<close>

record side_effect_record =
  se_id :: string
  se_session_id :: string
  se_run_id :: string
  se_run_generation :: nat
  se_tool_call_id :: string
  se_idempotency_key :: string
  se_parameter_hash :: string
  se_approval_id :: "string option"
  se_host_request_id :: "string option"
  se_status :: side_effect_status
  se_result_code :: "string option"
  se_result_reference :: "string option"
  se_created_at_ms :: int
  se_updated_at_ms :: int

record side_effect_row = side_effect_record +
  se_result_json :: "json option"

record step_checkpoint =
  sc_id :: string
  sc_session_id :: string
  sc_run_id :: string
  sc_run_generation :: nat
  sc_step_index :: nat
  sc_phase :: step_phase
  sc_tool_call_id :: "string option"
  sc_tool_name :: "string option"
  sc_side_effect_execution_id :: "string option"
  sc_recovery_policy :: recovery_policy
  sc_parameter_hash :: "string option"
  sc_world_revision :: string
  sc_provider_revision :: string
  sc_revision_snapshot :: string
  sc_created_at_ms :: int

record recovery_record =
  rc_id :: string
  rc_session_id :: string
  rc_run_id :: string
  rc_previous_status :: run_status
  rc_interrupted_generation :: nat
  rc_resume_generation :: nat
  rc_state :: recovery_state
  rc_reason_code :: string
  rc_checkpoint_id :: "string option"
  rc_side_effect_execution_id :: "string option"
  rc_decision_action :: "decision_action option"
  rc_decision_idempotency_key :: "string option"
  rc_resolved_by :: "string option"
  rc_resolved_at_ms :: "int option"
  rc_created_at_ms :: int
  rc_updated_at_ms :: int

record lease_row =
  wl_checkout_id :: string
  wl_run_id :: string
  wl_run_generation :: nat
  wl_acquired_at_ms :: int

record idempotency_row =
  ir_principal :: string
  ir_method :: string
  ir_key :: string
  ir_resource_id :: string
  ir_created_at_ms :: int

record compaction_row =
  cc_id :: string
  cc_session_id :: string
  cc_run_id :: "string option"
  cc_previous_checkpoint_id :: "string option"
  cc_covered_through_sequence :: nat
  cc_reason :: string
  cc_lifecycle :: string
  cc_summary :: string
  cc_source_items :: nat
  cc_source_chars :: nat
  cc_summary_chars :: nat
  cc_recent_tail_items :: nat
  cc_preserved_identifier_count :: nat
  cc_accepted :: bool
  cc_created_at_ms :: int

datatype user_input_status =
    InputPending | InputResolved | InputCancelled | InputExpired | InputInterrupted

record user_input_record =
  ui_id :: string
  ui_session_id :: string
  ui_run_id :: string
  ui_run_generation :: nat
  ui_item_id :: string
  ui_questions :: "user_input_question list"
  ui_display_answers :: "user_input_display_answer list"
  ui_status :: user_input_status
  ui_expires_at_ms :: "int option"
  ui_created_at_ms :: int
  ui_resolved_at_ms :: "int option"
  ui_resolved_by :: "string option"

text \<open>
  Tables of other components that the run lifecycle writes: the columns it reads or writes.
  The status column is the persisted text, \<open>ax_code\<close> the error column where the table has one.
\<close>

record aux_row =
  ax_run_id :: "string option"
  ax_status :: string
  ax_code :: "string option"
  ax_revision :: nat
  ax_updated_at_ms :: int

record environment_row =
  en_session_id :: string
  en_revision :: nat
  en_updated_at_ms :: int

record mcp_health_row =
  mh_state :: string
  mh_server_name :: "string option"
  mh_server_version :: "string option"
  mh_protocol_version :: "string option"
  mh_tool_count :: nat
  mh_error_code :: "string option"
  mh_checked_at_ms :: int

record run_summary_file =
  sf_path :: string
  sf_previous_path :: "string option"
  sf_status :: string
  sf_additions :: nat
  sf_deletions :: nat
  sf_binary :: bool

record run_diff_snapshot =
  ds_files :: "run_summary_file list"
  ds_artifact_id :: "string option"

record run_summary =
  rs_run_id :: string
  rs_status :: run_status
  rs_changed_files :: nat
  rs_additions :: nat
  rs_deletions :: nat
  rs_diff_artifact_id :: "string option"
  rs_diff_unavailable :: bool
  rs_files :: "run_summary_file list"
  rs_completed_at_ms :: int

record run_activity =
  ra_id :: string
  ra_status :: run_status
  ra_updated_at_ms :: int

section \<open>The store\<close>

text \<open>Tables of the neighbouring components that runs and recovery reach into.\<close>

record host_tables =
  accepted_plan_runs :: "string list"
  environment_states :: "environment_row list"
  browser_automation_leases :: "aux_row list"
  host_access_requests :: "aux_row list"
  computer_control_sessions :: "aux_row list"
  task_runs :: "aux_row list"
  process_sessions :: "aux_row list"
  run_steers :: "aux_row list"
  capability_grants :: "int option list"
  browser_site_permissions :: "string list"
  browser_network_rules :: "string list"
  browser_permission_requests :: "aux_row list"
  mcp_server_health :: "mcp_health_row list"

text \<open>
  The tables, then the two in-memory parts: the replay buffer of live deltas, per session, and
  the activity messages sent to subscribers.
\<close>

record store =
  sessions :: "session_row list"
  runs :: "run_record list"
  run_events :: "run_event_envelope list"
  transcript_items :: "transcript_item list"
  approval_requests :: "approval_record list"
  side_effect_executions :: "side_effect_row list"
  run_step_checkpoints :: "step_checkpoint list"
  run_recoveries :: "recovery_record list"
  checkout_write_leases :: "lease_row list"
  idempotency_records :: "idempotency_row list"
  compaction_checkpoints :: "compaction_row list"
  user_input_requests :: "user_input_record list"
  workspace_checkouts :: "string list"
  artifacts :: "string list"
  run_diff_manifests :: "(string \<times> run_diff_snapshot) list"
  run_summaries :: "run_summary list"
  hosts :: host_tables
  replay :: "(string \<times> run_event_envelope list) list"
  activity :: "run_activity list"

end
