(* ===== verification/Store_Tx.thy ===== *)
theory Store_Tx
  imports Store_State
begin

text \<open>
  Transactions on the store: their composition, the errors of \<open>agent_store/error.rs\<close> that the
  modelled operations return, the insertions with the constraints of the schema, and the
  helpers of \<open>agent_store/transaction_helpers.rs\<close>. The locale \<open>store_order\<close> gives the rules by
  which a relation between the stores before and after is established for a composed
  transaction from its parts.
\<close>

section \<open>Errors and composition\<close>

text \<open>The variants of \<open>AgentStoreError\<close>; identifiers and wrapped messages are text.\<close>

datatype (plugins only: code) store_error =
    Io string
  | Database
  | Migration string
  | Json string
  | InvalidPersistedValue string string
  | RunNotFound string
  | SessionNotFound string
  | CheckoutNotFound string
  | AttachmentNotFound string
  | BrowserWorkspaceNotFound string
  | BrowserTabNotFound string
  | BrowserAutomationLeaseNotFound string
  | BrowserAutomationLeaseRevisionConflict
  | BrowserAutomationLeaseUnavailable
  | BrowserWorkspaceRevisionConflict
  | EmbeddedBrowserSettingsRevisionConflict
  | EmbeddedBrowserPermissionRequestNotFound string
  | EmbeddedBrowserPermissionRequestStale
  | HostAccessRequestNotFound string
  | HostAccessRequestStale
  | HostPolicyRevisionConflict
  | PersistentPrivateHostPolicyDenied
  | ProposedPlanNotFound string
  | ProposedPlanNotAcceptable string
  | ProposedPlanRunMismatch
  | CheckoutWriteLeaseHeld string string
  | ApprovalNotFound string
  | ApprovalNotPending string
  | StaleApprovalResolution
  | InvalidApprovalDecision
  | UserInputNotFound string
  | UserInputNotPending string
  | StaleUserInputResolution
  | InvalidUserInputAnswer string
  | RunPreconditionFailed
  | ScheduleNotFound string
  | ScheduleRevisionConflict
  | ScheduleEventConflict
  | IdempotencyConflict
  | TaskRunNotFound string
  | ReviewNotFound string
  | ReviewFindingNotFound string
  | InvalidTaskRunTransition
  | SideEffectIdempotencyConflict
  | SideEffectNotFound string
  | InvalidSideEffectTransition side_effect_status side_effect_status
  | SideEffectApprovalInvalid
  | CompactionQualityRejected
  | CompactionSequenceNotAdvanced
  | CompactionPredecessorMismatch
  | CompactionSequenceOutOfRange
  | McpServerNotFound string
  | PluginHook string
  | InvalidMcpServerConfiguration string
  | SkillNotFound string
  | InvalidRunTransition run_status run_status
  | RunRecoveryNotFound string
  | InvalidRunRecoveryDecision
  | ProviderProfileNotFound string
  | ProviderEndpointNotFound string
  | ProviderRevisionConflict
  | ProviderAccountNotFound string
  | AgentTaskNotFound string
  | AgentTaskLimitExceeded
  | InvalidAgentTaskTransition
  | InvalidForgeOperation
  | InvalidPath
  | DatabaseMigrationBusy

type_synonym 'a tx = "store \<Rightarrow> (store_error, 'a \<times> store) result"

definition ret :: "'a \<Rightarrow> 'a tx" where
  "ret a = (\<lambda>s. Inr (a, s))"

definition fail :: "store_error \<Rightarrow> 'a tx" where
  "fail e = (\<lambda>s. Inl e)"

definition bind_tx :: "'a tx \<Rightarrow> ('a \<Rightarrow> 'b tx) \<Rightarrow> 'b tx" where
  "bind_tx m f = (\<lambda>s. case m s of Inl e \<Rightarrow> Inl e | Inr (a, s') \<Rightarrow> f a s')"

definition gets :: "(store \<Rightarrow> 'a) \<Rightarrow> 'a tx" where
  "gets f = (\<lambda>s. Inr (f s, s))"

definition modify :: "(store \<Rightarrow> store) \<Rightarrow> unit tx" where
  "modify f = (\<lambda>s. Inr ((), f s))"

definition require :: "bool \<Rightarrow> store_error \<Rightarrow> unit tx" where
  "require b e = (\<lambda>s. if b then Inr ((), s) else Inl e)"

text \<open>\<open>fetch_optional\<close> followed by \<open>ok_or_else\<close>.\<close>

definition expect_tx :: "store_error \<Rightarrow> (store \<Rightarrow> 'a option) \<Rightarrow> 'a tx" where
  "expect_tx e f = (\<lambda>s. case f s of None \<Rightarrow> Inl e | Some a \<Rightarrow> Inr (a, s))"

definition when_tx :: "bool \<Rightarrow> unit tx \<Rightarrow> unit tx" where
  "when_tx b m = (if b then m else ret ())"

primrec for_tx :: "'x list \<Rightarrow> ('x \<Rightarrow> unit tx) \<Rightarrow> unit tx" where
  "for_tx [] f = ret ()"
| "for_tx (x # xs) f = bind_tx (f x) (\<lambda>_. for_tx xs f)"

primrec collect_tx :: "'x list \<Rightarrow> ('x \<Rightarrow> 'b tx) \<Rightarrow> 'b list tx" where
  "collect_tx [] f = ret []"
| "collect_tx (x # xs) f = bind_tx (f x) (\<lambda>y. bind_tx (collect_tx xs f) (\<lambda>ys. ret (y # ys)))"

text \<open>An \<open>INSERT\<close>: the constraints, then the new row.\<close>

definition insert_checked :: "(store \<Rightarrow> bool) \<Rightarrow> (store \<Rightarrow> store) \<Rightarrow> unit tx" where
  "insert_checked c f = (\<lambda>s. if c s then Inr ((), f s) else Inl Database)"

named_theorems tx_simps \<open>evaluation of transactions\<close>

lemma tx_eval [tx_simps]:
  "ret a s = Inr (a, s)"
  "fail e s = Inl e"
  "gets f s = Inr (f s, s)"
  "modify h s = Inr ((), h s)"
  "require b e s = (if b then Inr ((), s) else Inl e)"
  "insert_checked c h s = (if c s then Inr ((), h s) else Inl Database)"
  "when_tx b m s = (if b then m s else Inr ((), s))"
  by (simp_all add: ret_def fail_def gets_def modify_def require_def insert_checked_def when_tx_def)

lemma bind_tx_eval [tx_simps]:
  "bind_tx m g s = (case m s of Inl e \<Rightarrow> Inl e | Inr (a, s') \<Rightarrow> g a s')"
  by (simp add: bind_tx_def)

lemma expect_tx_eval [tx_simps]:
  "expect_tx e f s = (case f s of None \<Rightarrow> Inl e | Some a \<Rightarrow> Inr (a, s))"
  by (simp add: expect_tx_def)

lemma bind_tx_InrE:
  assumes "bind_tx m g s = Inr (b, s'')"
  obtains a s' where "m s = Inr (a, s')" and "g a s' = Inr (b, s'')"
  using assms by (auto simp: bind_tx_def split: sum.splits)

lemma bind_tx_assoc: "bind_tx (bind_tx m g) h = bind_tx m (\<lambda>a. bind_tx (g a) h)"
  by (rule ext) (auto simp: bind_tx_def split: sum.splits)

section \<open>Relations between the stores before and after\<close>

text \<open>\<open>tx_rel R s m\<close>: when \<open>m\<close> commits from \<open>s\<close>, its result is related to \<open>s\<close>.\<close>

definition tx_rel :: "(store \<Rightarrow> store \<Rightarrow> bool) \<Rightarrow> store \<Rightarrow> 'a tx \<Rightarrow> bool" where
  "tx_rel R s m \<longleftrightarrow> (case m s of Inl _ \<Rightarrow> True | Inr (_, s') \<Rightarrow> R s s')"

lemma tx_relD: "tx_rel R s m \<Longrightarrow> m s = Inr (a, s') \<Longrightarrow> R s s'"
  by (simp add: tx_rel_def)

lemma tx_relI: "(\<And>a s'. m s = Inr (a, s') \<Longrightarrow> R s s') \<Longrightarrow> tx_rel R s m"
  by (auto simp: tx_rel_def split: sum.splits)

lemma tx_rel_mono:
  "tx_rel R s m \<Longrightarrow> (\<And>s'. R s s' \<Longrightarrow> Q s s') \<Longrightarrow> tx_rel Q s m"
  by (auto simp: tx_rel_def split: sum.splits)

locale store_order =
  fixes R :: "store \<Rightarrow> store \<Rightarrow> bool"
  assumes refl: "R s s"
    and trans: "R s s' \<Longrightarrow> R s' s'' \<Longrightarrow> R s s''"
begin

lemma rel_ret: "tx_rel R s (ret a)"
  by (simp add: tx_rel_def tx_simps refl)

lemma rel_fail: "tx_rel R s (fail e)"
  by (simp add: tx_rel_def tx_simps)

lemma rel_gets: "tx_rel R s (gets f)"
  by (simp add: tx_rel_def tx_simps refl)

lemma rel_require: "tx_rel R s (require b e)"
  by (simp add: tx_rel_def tx_simps refl)

lemma rel_expect: "tx_rel R s (expect_tx e f)"
  by (auto simp: tx_rel_def tx_simps refl split: option.splits)

lemma rel_modify: "R s (f s) \<Longrightarrow> tx_rel R s (modify f)"
  by (simp add: tx_rel_def tx_simps)

lemma rel_insert: "(c s \<Longrightarrow> R s (f s)) \<Longrightarrow> tx_rel R s (insert_checked c f)"
  by (simp add: tx_rel_def tx_simps)

lemma rel_when: "(b \<Longrightarrow> tx_rel R s m) \<Longrightarrow> tx_rel R s (when_tx b m)"
  by (simp add: tx_rel_def tx_simps refl)

lemma rel_if: "(b \<Longrightarrow> tx_rel R s m) \<Longrightarrow> (\<not> b \<Longrightarrow> tx_rel R s n) \<Longrightarrow> tx_rel R s (if b then m else n)"
  by simp

lemma rel_option:
  "(v = None \<Longrightarrow> tx_rel R s m) \<Longrightarrow> (\<And>x. v = Some x \<Longrightarrow> tx_rel R s (n x)) \<Longrightarrow>
    tx_rel R s (case v of None \<Rightarrow> m | Some x \<Rightarrow> n x)"
  by (cases v) auto

lemma rel_bind:
  assumes "tx_rel R s m" and "\<And>a s'. m s = Inr (a, s') \<Longrightarrow> tx_rel R s' (g a)"
  shows "tx_rel R s (bind_tx m g)"
proof (rule tx_relI)
  fix b s''
  assume "bind_tx m g s = Inr (b, s'')"
  then obtain a s' where "m s = Inr (a, s')" and "g a s' = Inr (b, s'')"
    by (rule bind_tx_InrE)
  with assms show "R s s''" by (metis trans tx_relD)
qed

text \<open>The parts that only read keep the store they started from in view.\<close>

lemma rel_bind_gets: "tx_rel R s (g (f s)) \<Longrightarrow> tx_rel R s (bind_tx (gets f) g)"
  by (simp add: tx_rel_def tx_simps)

lemma rel_bind_require: "(b \<Longrightarrow> tx_rel R s (g ())) \<Longrightarrow> tx_rel R s (bind_tx (require b e) g)"
  by (simp add: tx_rel_def tx_simps)

lemma rel_bind_expect:
  "(\<And>a. f s = Some a \<Longrightarrow> tx_rel R s (g a)) \<Longrightarrow> tx_rel R s (bind_tx (expect_tx e f) g)"
  by (cases "f s") (simp_all add: tx_rel_def tx_simps)

lemma rel_bind_modify:
  "R s (f s) \<Longrightarrow> tx_rel R (f s) (g ()) \<Longrightarrow> tx_rel R s (bind_tx (modify f) g)"
  by (rule rel_bind) (auto simp: tx_simps intro: rel_modify)

lemma rel_for:
  "(\<And>x s'. x \<in> set xs \<Longrightarrow> tx_rel R s' (f x)) \<Longrightarrow> tx_rel R s (for_tx xs f)"
proof (induction xs arbitrary: s)
  case Nil
  then show ?case by (simp add: rel_ret)
next
  case (Cons x xs)
  then show ?case by (auto intro!: rel_bind)
qed

lemma rel_collect:
  "(\<And>x s'. x \<in> set xs \<Longrightarrow> tx_rel R s' (f x)) \<Longrightarrow> tx_rel R s (collect_tx xs f)"
proof (induction xs arbitrary: s)
  case Nil
  then show ?case by (simp add: rel_ret)
next
  case (Cons x xs)
  then show ?case by (auto intro!: rel_bind rel_ret)
qed

lemmas rel_intros = rel_ret rel_fail rel_gets rel_require rel_expect rel_when rel_if rel_option
  rel_bind_gets rel_bind_require rel_bind_expect

end

section \<open>Insertions\<close>

definition session_exists :: "string \<Rightarrow> store \<Rightarrow> bool" where
  "session_exists sid s \<longleftrightarrow> sid \<in> ss_id ` set (sessions s)"

definition run_exists :: "string \<Rightarrow> store \<Rightarrow> bool" where
  "run_exists rid s \<longleftrightarrow> rid \<in> rr_id ` set (runs s)"

definition opt_exists :: "('a \<Rightarrow> store \<Rightarrow> bool) \<Rightarrow> 'a option \<Rightarrow> store \<Rightarrow> bool" where
  "opt_exists p v s \<longleftrightarrow> (case v of None \<Rightarrow> True | Some x \<Rightarrow> p x s)"

definition insert_session :: "session_row \<Rightarrow> unit tx" where
  "insert_session r = insert_checked
     (\<lambda>s. \<not> session_exists (ss_id r) s \<and>
       (case ss_parent_session_id r of None \<Rightarrow> True
        | Some p \<Rightarrow> p = ss_id r \<or> session_exists p s) \<and> 0 < ss_next_sequence r)
     (\<lambda>s. s\<lparr>sessions := sessions s @ [r]\<rparr>)"

definition insert_run :: "run_record \<Rightarrow> unit tx" where
  "insert_run r = insert_checked
     (\<lambda>s. \<not> run_exists (rr_id r) s \<and> session_exists (rr_session_id r) s \<and> 0 < rr_generation r)
     (\<lambda>s. s\<lparr>runs := runs s @ [r]\<rparr>)"

definition insert_event :: "run_event_envelope \<Rightarrow> unit tx" where
  "insert_event e = insert_checked
     (\<lambda>s. session_exists (ev_session_id e) s \<and> opt_exists run_exists (ev_run_id e) s \<and>
       0 < ev_sequence e \<and>
       (ev_session_id e, ev_sequence e) \<notin> (\<lambda>x. (ev_session_id x, ev_sequence x)) ` set (run_events s))
     (\<lambda>s. s\<lparr>run_events := run_events s @ [e]\<rparr>)"

definition insert_item :: "transcript_item \<Rightarrow> unit tx" where
  "insert_item i = insert_checked
     (\<lambda>s. ti_id i \<notin> ti_id ` set (transcript_items s) \<and> session_exists (ti_session_id i) s \<and>
       opt_exists run_exists (ti_run_id i) s \<and> 0 < ti_sequence i \<and>
       (ti_session_id i, ti_sequence i)
         \<notin> (\<lambda>x. (ti_session_id x, ti_sequence x)) ` set (transcript_items s))
     (\<lambda>s. s\<lparr>transcript_items := transcript_items s @ [i]\<rparr>)"

definition insert_approval :: "approval_record \<Rightarrow> unit tx" where
  "insert_approval a = insert_checked
     (\<lambda>s. ap_id a \<notin> ap_id ` set (approval_requests s) \<and> session_exists (ap_session_id a) s \<and>
       run_exists (ap_run_id a) s \<and> 0 < ap_run_generation a)
     (\<lambda>s. s\<lparr>approval_requests := approval_requests s @ [a]\<rparr>)"

definition approval_exists :: "string \<Rightarrow> store \<Rightarrow> bool" where
  "approval_exists aid s \<longleftrightarrow> aid \<in> ap_id ` set (approval_requests s)"

definition artifact_exists :: "string \<Rightarrow> store \<Rightarrow> bool" where
  "artifact_exists aid s \<longleftrightarrow> aid \<in> set (artifacts s)"

definition effect_exists :: "string \<Rightarrow> store \<Rightarrow> bool" where
  "effect_exists eid s \<longleftrightarrow> eid \<in> se_id ` set (side_effect_executions s)"

definition effect_key :: "('z) side_effect_record_scheme \<Rightarrow> string \<times> nat \<times> string" where
  "effect_key e = (se_run_id e, se_run_generation e, se_idempotency_key e)"

definition insert_effect :: "side_effect_row \<Rightarrow> unit tx" where
  "insert_effect e = insert_checked
     (\<lambda>s. \<not> effect_exists (se_id e) s \<and> session_exists (se_session_id e) s \<and>
       run_exists (se_run_id e) s \<and> 0 < se_run_generation e \<and>
       opt_exists approval_exists (se_approval_id e) s \<and>
       opt_exists artifact_exists (se_result_reference e) s \<and>
       effect_key e \<notin> effect_key ` set (side_effect_executions s))
     (\<lambda>s. s\<lparr>side_effect_executions := side_effect_executions s @ [e]\<rparr>)"

text \<open>
  \<open>UNIQUE(run_id, run_generation, step_index, phase, tool_call_id)\<close>: a \<open>NULL\<close> call id is
  distinct from every other value.
\<close>

definition checkpoint_clash :: "step_checkpoint \<Rightarrow> step_checkpoint \<Rightarrow> bool" where
  "checkpoint_clash c d \<longleftrightarrow> sc_tool_call_id c \<noteq> None \<and>
     (sc_run_id c, sc_run_generation c, sc_step_index c, sc_phase c, sc_tool_call_id c) =
     (sc_run_id d, sc_run_generation d, sc_step_index d, sc_phase d, sc_tool_call_id d)"

definition checkpoint_unique :: "step_checkpoint \<Rightarrow> store \<Rightarrow> bool" where
  "checkpoint_unique c s \<longleftrightarrow>
     list_all (\<lambda>d. sc_id d \<noteq> sc_id c \<and> \<not> checkpoint_clash c d) (run_step_checkpoints s)"

definition checkpoint_references :: "step_checkpoint \<Rightarrow> store \<Rightarrow> bool" where
  "checkpoint_references c s \<longleftrightarrow> session_exists (sc_session_id c) s \<and> run_exists (sc_run_id c) s \<and>
     0 < sc_run_generation c \<and> opt_exists effect_exists (sc_side_effect_execution_id c) s"

definition insert_checkpoint :: "step_checkpoint \<Rightarrow> unit tx" where
  "insert_checkpoint c = insert_checked
     (\<lambda>s. checkpoint_unique c s \<and> checkpoint_references c s)
     (\<lambda>s. s\<lparr>run_step_checkpoints := run_step_checkpoints s @ [c]\<rparr>)"

text \<open>\<open>INSERT OR IGNORE\<close> skips a row that violates uniqueness, not one with a dangling reference.\<close>

definition insert_checkpoint_or_ignore :: "step_checkpoint \<Rightarrow> unit tx" where
  "insert_checkpoint_or_ignore c =
     bind_tx (gets (checkpoint_unique c)) (\<lambda>unique. when_tx unique (insert_checkpoint c))"

definition checkpoint_exists :: "string \<Rightarrow> store \<Rightarrow> bool" where
  "checkpoint_exists cid s \<longleftrightarrow> cid \<in> sc_id ` set (run_step_checkpoints s)"

definition insert_recovery :: "recovery_record \<Rightarrow> unit tx" where
  "insert_recovery r = insert_checked
     (\<lambda>s. rc_id r \<notin> rc_id ` set (run_recoveries s) \<and>
       (rc_run_id r, rc_interrupted_generation r)
         \<notin> (\<lambda>x. (rc_run_id x, rc_interrupted_generation x)) ` set (run_recoveries s) \<and>
       session_exists (rc_session_id r) s \<and> run_exists (rc_run_id r) s \<and>
       rc_previous_status r \<in> {Preparing, Running, WaitingApproval, WaitingUserInput, Cancelling} \<and>
       0 < rc_interrupted_generation r \<and>
       rc_resume_generation r = rc_interrupted_generation r + 1 \<and>
       opt_exists checkpoint_exists (rc_checkpoint_id r) s \<and>
       opt_exists effect_exists (rc_side_effect_execution_id r) s)
     (\<lambda>s. s\<lparr>run_recoveries := run_recoveries s @ [r]\<rparr>)"

definition insert_lease :: "lease_row \<Rightarrow> unit tx" where
  "insert_lease l = insert_checked
     (\<lambda>s. wl_checkout_id l \<notin> wl_checkout_id ` set (checkout_write_leases s) \<and>
       wl_run_id l \<notin> wl_run_id ` set (checkout_write_leases s) \<and>
       wl_checkout_id l \<in> set (workspace_checkouts s) \<and> run_exists (wl_run_id l) s \<and>
       0 < wl_run_generation l)
     (\<lambda>s. s\<lparr>checkout_write_leases := checkout_write_leases s @ [l]\<rparr>)"

definition idempotency_key :: "idempotency_row \<Rightarrow> string \<times> string \<times> string" where
  "idempotency_key r = (ir_principal r, ir_method r, ir_key r)"

definition insert_idempotency :: "idempotency_row \<Rightarrow> unit tx" where
  "insert_idempotency r = insert_checked
     (\<lambda>s. idempotency_key r \<notin> idempotency_key ` set (idempotency_records s))
     (\<lambda>s. s\<lparr>idempotency_records := idempotency_records s @ [r]\<rparr>)"

definition compaction_exists :: "string \<Rightarrow> store \<Rightarrow> bool" where
  "compaction_exists cid s \<longleftrightarrow> cid \<in> cc_id ` set (compaction_checkpoints s)"

definition insert_compaction :: "compaction_row \<Rightarrow> unit tx" where
  "insert_compaction c = insert_checked
     (\<lambda>s. \<not> compaction_exists (cc_id c) s \<and> session_exists (cc_session_id c) s \<and>
       opt_exists run_exists (cc_run_id c) s \<and>
       opt_exists (\<lambda>p s. p = cc_id c \<or> compaction_exists p s) (cc_previous_checkpoint_id c) s \<and>
       0 < cc_covered_through_sequence c \<and>
       (cc_session_id c, cc_covered_through_sequence c)
         \<notin> (\<lambda>x. (cc_session_id x, cc_covered_through_sequence x)) ` set (compaction_checkpoints s))
     (\<lambda>s. s\<lparr>compaction_checkpoints := compaction_checkpoints s @ [c]\<rparr>)"

definition insert_user_input :: "user_input_record \<Rightarrow> unit tx" where
  "insert_user_input u = insert_checked
     (\<lambda>s. ui_id u \<notin> ui_id ` set (user_input_requests s) \<and> session_exists (ui_session_id u) s \<and>
       run_exists (ui_run_id u) s \<and> 0 < ui_run_generation u \<and>
       ui_item_id u \<in> ti_id ` set (transcript_items s))
     (\<lambda>s. s\<lparr>user_input_requests := user_input_requests s @ [u]\<rparr>)"

section \<open>Transaction helpers\<close>

definition update_runs :: "(run_record \<Rightarrow> bool) \<Rightarrow> (run_record \<Rightarrow> run_record) \<Rightarrow> store \<Rightarrow> store" where
  "update_runs p f s = s\<lparr>runs := update_where p f (runs s)\<rparr>"

definition update_hosts :: "(host_tables \<Rightarrow> host_tables) \<Rightarrow> store \<Rightarrow> store" where
  "update_hosts f s = s\<lparr>hosts := f (hosts s)\<rparr>"

definition get_run :: "string \<Rightarrow> store \<Rightarrow> run_record option" where
  "get_run rid s = find (\<lambda>r. rr_id r = rid) (runs s)"

definition get_run_tx :: "string \<Rightarrow> run_record tx" where
  "get_run_tx rid = expect_tx (RunNotFound rid) (get_run rid)"

definition get_session :: "string \<Rightarrow> store \<Rightarrow> session_row option" where
  "get_session sid s = find (\<lambda>r. ss_id r = sid) (sessions s)"

text \<open>\<open>UPDATE sessions SET next_sequence = next_sequence + 1 ... RETURNING next_sequence - 1\<close>.\<close>

definition next_sequence_tx :: "string \<Rightarrow> int \<Rightarrow> nat tx" where
  "next_sequence_tx sid updated_at_ms =
     bind_tx (expect_tx (SessionNotFound sid) (get_session sid)) (\<lambda>row.
     bind_tx (modify (\<lambda>s. s\<lparr>sessions := update_where (\<lambda>r. ss_id r = sid)
         (\<lambda>r. r\<lparr>ss_next_sequence := Suc (ss_next_sequence r), ss_updated_at_ms := updated_at_ms\<rparr>)
         (sessions s)\<rparr>)) (\<lambda>_.
     ret (ss_next_sequence row)))"

definition append_event_typed_tx ::
    "string \<Rightarrow> string option \<Rightarrow> string \<Rightarrow> run_event_payload option \<Rightarrow> json \<Rightarrow> int \<Rightarrow> run_event_envelope tx" where
  "append_event_typed_tx sid rid event typed_payload payload created_at_ms =
     bind_tx (next_sequence_tx sid created_at_ms) (\<lambda>sequence.
     let envelope = \<lparr>ev_protocol_version = control_protocol_version, ev_sequence = sequence,
           ev_session_id = sid, ev_run_id = rid,
           ev_payload = (case typed_payload of Some p \<Rightarrow> p | None \<Rightarrow> Generic event payload),
           ev_created_at_ms = created_at_ms\<rparr>
     in bind_tx (insert_event envelope) (\<lambda>_. ret envelope))"

definition append_event_tx ::
    "string \<Rightarrow> string option \<Rightarrow> string \<Rightarrow> json \<Rightarrow> int \<Rightarrow> run_event_envelope tx" where
  "append_event_tx sid rid event payload created_at_ms =
     append_event_typed_tx sid rid event None payload created_at_ms"

text \<open>Statements whose result the caller drops.\<close>

definition emit_tx :: "string \<Rightarrow> string option \<Rightarrow> string \<Rightarrow> json \<Rightarrow> int \<Rightarrow> unit tx" where
  "emit_tx sid rid event payload created_at_ms =
     bind_tx (append_event_tx sid rid event payload created_at_ms) (\<lambda>_. ret ())"

definition emit_typed_tx :: "string \<Rightarrow> string option \<Rightarrow> run_event_payload \<Rightarrow> int \<Rightarrow> unit tx" where
  "emit_typed_tx sid rid payload created_at_ms =
     bind_tx (append_event_typed_tx sid rid (event_name payload) (Some payload) JNull created_at_ms)
       (\<lambda>_. ret ())"

text \<open>The upsert of \<open>environment.rs\<close>: a first row with revision 1, or the next revision.\<close>

definition bump_environment_revision_tx :: "string \<Rightarrow> int \<Rightarrow> nat tx" where
  "bump_environment_revision_tx sid updated_at_ms =
     bind_tx (expect_tx (SessionNotFound sid) (get_session sid)) (\<lambda>_.
     bind_tx (gets (\<lambda>s. find (\<lambda>e. en_session_id e = sid) (environment_states (hosts s)))) (\<lambda>old.
     case old of
       None \<Rightarrow> bind_tx (modify (update_hosts (\<lambda>h. h\<lparr>environment_states := environment_states h @
           [\<lparr>en_session_id = sid, en_revision = 1, en_updated_at_ms = updated_at_ms\<rparr>]\<rparr>))) (\<lambda>_. ret 1)
     | Some e \<Rightarrow> bind_tx (modify (update_hosts (\<lambda>h. h\<lparr>environment_states :=
           update_where (\<lambda>r. en_session_id r = sid)
             (\<lambda>r. r\<lparr>en_revision := en_revision r + 1, en_updated_at_ms := updated_at_ms\<rparr>)
             (environment_states h)\<rparr>))) (\<lambda>_. ret (en_revision e + 1))))"

end
