(* ===== verification/Store_Runs.thy ===== *)
theory Store_Runs
  imports Store_Tx Rust_String
begin

text \<open>
  Sessions, runs, the event log, the transcript, compaction checkpoints and the write leases of
  \<open>agent_store.rs\<close>, with the live deltas of \<open>active_events.rs\<close> and the run summary of
  \<open>run_summary.rs\<close>. Every operation is one transaction; the time it reads is its argument
  \<open>now\<close>.
\<close>

section \<open>Write leases\<close>

definition acquire_checkout_write_lease :: "string \<Rightarrow> string \<Rightarrow> nat \<Rightarrow> int \<Rightarrow> unit tx" where
  "acquire_checkout_write_lease checkout_id run_id run_generation now =
     bind_tx (gets (\<lambda>s. find (\<lambda>l. wl_checkout_id l = checkout_id) (checkout_write_leases s))) (\<lambda>held.
     case held of
       Some l \<Rightarrow>
         if wl_run_id l = run_id then ret ()
         else fail (CheckoutWriteLeaseHeld checkout_id (wl_run_id l))
     | None \<Rightarrow>
         insert_lease \<lparr>wl_checkout_id = checkout_id, wl_run_id = run_id,
           wl_run_generation = run_generation, wl_acquired_at_ms = now\<rparr>)"

definition lease_matches :: "string \<Rightarrow> string \<Rightarrow> nat \<Rightarrow> lease_row \<Rightarrow> bool" where
  "lease_matches checkout_id run_id run_generation l \<longleftrightarrow>
     wl_checkout_id l = checkout_id \<and> wl_run_id l = run_id \<and> wl_run_generation l = run_generation"

definition release_checkout_write_lease :: "string \<Rightarrow> string \<Rightarrow> nat \<Rightarrow> bool tx" where
  "release_checkout_write_lease checkout_id run_id run_generation =
     bind_tx (gets (\<lambda>s. count_where (lease_matches checkout_id run_id run_generation)
       (checkout_write_leases s))) (\<lambda>affected.
     bind_tx (modify (\<lambda>s. s\<lparr>checkout_write_leases :=
       filter (\<lambda>l. \<not> lease_matches checkout_id run_id run_generation l) (checkout_write_leases s)\<rparr>)) (\<lambda>_.
     ret (affected = 1)))"

section \<open>Sessions\<close>

text \<open>The sequence column of a new row has the default of the schema, whatever the caller holds.\<close>

definition create_session :: "session_row \<Rightarrow> session_row tx" where
  "create_session session =
     bind_tx (insert_session (session\<lparr>ss_next_sequence := 1\<rparr>)) (\<lambda>_.
     bind_tx (emit_tx (ss_id session) None ''session.created''
       (JObj [(''sessionId'', JStr (ss_id session))]) (ss_created_at_ms session)) (\<lambda>_.
     ret session))"

section \<open>Runs\<close>

definition send_activity :: "run_record \<Rightarrow> store \<Rightarrow> store" where
  "send_activity r s = s\<lparr>activity := activity s @
     [\<lparr>ra_id = rr_id r, ra_status = rr_status r, ra_updated_at_ms = rr_updated_at_ms r\<rparr>]\<rparr>"

definition create_run_idempotent :: "string \<Rightarrow> string \<Rightarrow> run_record \<Rightarrow> run_record tx" where
  "create_run_idempotent client key run =
     bind_tx (gets (\<lambda>s. find (\<lambda>r. idempotency_key r = (client, ''run.start'', key))
       (idempotency_records s))) (\<lambda>existing.
     case existing of
       Some r \<Rightarrow> expect_tx (RunNotFound (rr_id run)) (get_run (ir_resource_id r))
     | None \<Rightarrow>
         bind_tx (insert_run run) (\<lambda>_.
         bind_tx (emit_tx (rr_session_id run) (Some (rr_id run)) ''run.queued''
           (JObj [(''status'', JStr (run_status_str (rr_status run)))]) (rr_created_at_ms run)) (\<lambda>_.
         bind_tx (insert_idempotency \<lparr>ir_principal = client, ir_method = ''run.start'', ir_key = key,
           ir_resource_id = rr_id run, ir_created_at_ms = rr_created_at_ms run\<rparr>) (\<lambda>_.
         bind_tx (modify (send_activity run)) (\<lambda>_.
         ret run)))))"

text \<open>\<open>run_summary.rs\<close>: totals saturate at \<open>u32::MAX\<close>; the row replaces an earlier one.\<close>

definition put_run_summary :: "run_summary \<Rightarrow> run_summary tx" where
  "put_run_summary summary =
     bind_tx (require (is_terminal (rs_status summary))
       (InvalidPersistedValue ''run summary status'' (run_status_str (rs_status summary)))) (\<lambda>_.
     bind_tx (insert_checked
       (\<lambda>s. run_exists (rs_run_id summary) s \<and> opt_exists artifact_exists (rs_diff_artifact_id summary) s)
       (\<lambda>s. s\<lparr>run_summaries :=
         (if rs_run_id summary \<in> rs_run_id ` set (run_summaries s)
          then update_where (\<lambda>r. rs_run_id r = rs_run_id summary) (\<lambda>_. summary) (run_summaries s)
          else run_summaries s @ [summary])\<rparr>)) (\<lambda>_.
     ret summary))"

definition finalize_run_summary :: "string \<Rightarrow> run_status \<Rightarrow> int \<Rightarrow> run_summary tx" where
  "finalize_run_summary run_id status completed_at_ms =
     bind_tx (gets (\<lambda>s. map_of (run_diff_manifests s) run_id)) (\<lambda>snapshot.
     let files = (case snapshot of None \<Rightarrow> [] | Some d \<Rightarrow> ds_files d)
     in put_run_summary \<lparr>rs_run_id = run_id, rs_status = status,
          rs_changed_files = min u32_max (length files),
          rs_additions = foldl (\<lambda>total f. sat_add_u32 total (sf_additions f)) 0 files,
          rs_deletions = foldl (\<lambda>total f. sat_add_u32 total (sf_deletions f)) 0 files,
          rs_diff_artifact_id = (case snapshot of None \<Rightarrow> None | Some d \<Rightarrow> ds_artifact_id d),
          rs_diff_unavailable = (snapshot = None), rs_files = files,
          rs_completed_at_ms = completed_at_ms\<rparr>)"

text \<open>What a run takes down when it ends: its browser leases, host requests, computer sessions.\<close>

definition retire :: "string \<Rightarrow> string list \<Rightarrow> string \<Rightarrow> bool \<Rightarrow> int \<Rightarrow> aux_row list \<Rightarrow> aux_row list" where
  "retire run_id from next_status revise now = update_where
     (\<lambda>r. ax_run_id r = Some run_id \<and> ax_status r \<in> set from)
     (\<lambda>r. r\<lparr>ax_status := next_status, ax_updated_at_ms := now,
       ax_revision := (if revise then ax_revision r + 1 else ax_revision r)\<rparr>)"

definition release_run_hosts :: "string \<Rightarrow> int \<Rightarrow> host_tables \<Rightarrow> host_tables" where
  "release_run_hosts run_id now h = h\<lparr>
     browser_automation_leases :=
       retire run_id [''pending'', ''active'', ''suspended''] ''expired'' True now (browser_automation_leases h),
     host_access_requests := retire run_id [''pending''] ''expired'' False now (host_access_requests h),
     computer_control_sessions := update_where
       (\<lambda>r. ax_run_id r = Some run_id \<and> ax_status r \<noteq> ''stopped'')
       (\<lambda>r. r\<lparr>ax_status := ''stopped'', ax_updated_at_ms := now, ax_revision := ax_revision r + 1\<rparr>)
       (computer_control_sessions h)\<rparr>"

definition status_change_json :: "run_status \<Rightarrow> run_status \<Rightarrow> string option \<Rightarrow> json" where
  "status_change_json from_status to_status failure_code = JObj
     [(''from'', JStr (run_status_str from_status)), (''to'', JStr (run_status_str to_status)),
      (''failureCode'', json_opt failure_code)]"

text \<open>
  The transaction of \<open>transition_run\<close>, then what it does after the commit: the activity message
  and, for a terminal status, the summary; a failure of the summary only adds an event, whose text is the error's \<open>Display\<close> form.
\<close>

definition transition_run_tx :: "run_record \<Rightarrow> run_status \<Rightarrow> string option \<Rightarrow> int \<Rightarrow> run_record tx" where
  "transition_run_tx current next_status failure_code now =
     bind_tx (modify (update_runs (\<lambda>r. rr_id r = rr_id current)
       (\<lambda>r. r\<lparr>rr_status := next_status, rr_failure_code := failure_code, rr_updated_at_ms := now\<rparr>))) (\<lambda>_.
     bind_tx (emit_tx (rr_session_id current) (Some (rr_id current)) ''run.status_changed''
       (status_change_json (rr_status current) next_status failure_code) now) (\<lambda>_.
     bind_tx (when_tx (is_terminal next_status)
       (bind_tx (modify (update_hosts (release_run_hosts (rr_id current) now))) (\<lambda>_.
        bind_tx (gets (\<lambda>s. rr_id current \<in> set (accepted_plan_runs (hosts s)))) (\<lambda>accepted.
        when_tx accepted
          (bind_tx (bump_environment_revision_tx (rr_session_id current) now) (\<lambda>_. ret ())))))) (\<lambda>_.
     get_run_tx (rr_id current))))"

definition after_transition :: "(store_error \<Rightarrow> string) \<Rightarrow> run_record \<Rightarrow> run_status \<Rightarrow> int \<Rightarrow> int \<Rightarrow> store \<Rightarrow> store" where
  "after_transition display updated next_status now now' s =
     (let s1 = send_activity updated s
      in if is_terminal next_status
         then case finalize_run_summary (rr_id updated) next_status now s1 of
             Inr (_, s2) \<Rightarrow> s2
           | Inl e \<Rightarrow> (case emit_tx (rr_session_id updated) (Some (rr_id updated)) ''run.summary_failed''
               (JObj [(''message'', JStr (display e))]) now' s1 of
                 Inr (_, s2) \<Rightarrow> s2
               | Inl _ \<Rightarrow> s1)
         else s1)"

definition transition_run ::
    "(store_error \<Rightarrow> string) \<Rightarrow> string \<Rightarrow> run_status \<Rightarrow> string option \<Rightarrow> int \<Rightarrow> int \<Rightarrow> run_record tx" where
  "transition_run display run_id next_status failure_code now now' =
     bind_tx (get_run_tx run_id) (\<lambda>current.
     if rr_status current = next_status then ret current
     else bind_tx (require (can_transition_to (rr_status current) next_status)
         (InvalidRunTransition (rr_status current) next_status)) (\<lambda>_.
       bind_tx (transition_run_tx current next_status failure_code now) (\<lambda>updated.
       bind_tx (modify (after_transition display updated next_status now now')) (\<lambda>_.
       ret updated))))"

section \<open>Events\<close>

definition append_event :: "string \<Rightarrow> string option \<Rightarrow> string \<Rightarrow> json \<Rightarrow> int \<Rightarrow> run_event_envelope tx" where
  "append_event sid rid event payload now = append_event_tx sid rid event payload now"

definition append_typed_event ::
    "string \<Rightarrow> string option \<Rightarrow> string \<Rightarrow> run_event_payload \<Rightarrow> json \<Rightarrow> int \<Rightarrow> run_event_envelope tx" where
  "append_typed_event sid rid event typed_payload payload now =
     append_event_typed_tx sid rid event (Some typed_payload) payload now"

definition list_events :: "string \<Rightarrow> nat \<Rightarrow> store \<Rightarrow> run_event_envelope list" where
  "list_events sid after_sequence s = sort_key ev_sequence
     (filter (\<lambda>e. ev_session_id e = sid \<and> after_sequence < ev_sequence e) (run_events s))"

section \<open>Live deltas\<close>

definition max_replay_events_per_session :: nat where "max_replay_events_per_session = 512"
definition max_delta_chars :: nat where "max_delta_chars = 32 * 1024"

definition replay_of :: "string \<Rightarrow> store \<Rightarrow> run_event_envelope list" where
  "replay_of sid s = (case map_of (replay s) sid of None \<Rightarrow> [] | Some es \<Rightarrow> es)"

definition set_replay :: "string \<Rightarrow> run_event_envelope list \<Rightarrow> store \<Rightarrow> store" where
  "set_replay sid es s = s\<lparr>replay := (sid, es) # filter (\<lambda>kv. fst kv \<noteq> sid) (replay s)\<rparr>"

text \<open>A full buffer drops its oldest events.\<close>

definition publish :: "run_event_envelope \<Rightarrow> store \<Rightarrow> store" where
  "publish event s =
     (let es = replay_of (ev_session_id event) s @ [event]
      in set_replay (ev_session_id event) (drop (length es - max_replay_events_per_session) es) s)"

fun is_delta_of :: "string \<Rightarrow> run_event_payload \<Rightarrow> bool" where
  "is_delta_of item_id (ItemDelta candidate _) = (candidate = item_id)"
| "is_delta_of item_id _ = False"

definition complete_item :: "string \<Rightarrow> string \<Rightarrow> store \<Rightarrow> store" where
  "complete_item sid item_id s =
     (case map_of (replay s) sid of
        None \<Rightarrow> s
      | Some es \<Rightarrow>
          let kept = filter (\<lambda>e. \<not> is_delta_of item_id (ev_payload e)) es
          in if kept = [] then s\<lparr>replay := filter (\<lambda>kv. fst kv \<noteq> sid) (replay s)\<rparr>
             else set_replay sid kept s)"

definition append_live_item_delta ::
    "string \<Rightarrow> string \<Rightarrow> string \<Rightarrow> string \<Rightarrow> int \<Rightarrow> run_event_envelope tx" where
  "append_live_item_delta sid run_id item_id delta now =
     bind_tx (next_sequence_tx sid now) (\<lambda>sequence.
     let envelope = \<lparr>ev_protocol_version = control_protocol_version, ev_sequence = sequence,
           ev_session_id = sid, ev_run_id = Some run_id,
           ev_payload = ItemDelta item_id (Text_Delta (take_chars max_delta_chars delta)),
           ev_created_at_ms = now\<rparr>
     in bind_tx (modify (publish envelope)) (\<lambda>_. ret envelope))"

definition list_active_event_replay :: "string \<Rightarrow> nat \<Rightarrow> store \<Rightarrow> run_event_envelope list" where
  "list_active_event_replay sid after_sequence s =
     filter (\<lambda>e. after_sequence < ev_sequence e) (replay_of sid s)"

definition list_event_stream :: "string \<Rightarrow> nat \<Rightarrow> store \<Rightarrow> run_event_envelope list" where
  "list_event_stream sid after_sequence s =
     dedup_by (\<lambda>a b. ev_sequence a = ev_sequence b)
       (sort_key ev_sequence (list_events sid after_sequence s @ list_active_event_replay sid after_sequence s))"

section \<open>Transcript\<close>

definition append_transcript_item :: "transcript_item \<Rightarrow> transcript_item tx" where
  "append_transcript_item item =
     bind_tx (next_sequence_tx (ti_session_id item) (ti_created_at_ms item)) (\<lambda>sequence.
     let item' = item\<lparr>ti_sequence := sequence\<rparr>
     in bind_tx (insert_item item') (\<lambda>_.
        bind_tx (when_tx (ti_status item' = InProgress)
          (emit_typed_tx (ti_session_id item') (ti_run_id item') (ItemStarted item')
            (ti_created_at_ms item'))) (\<lambda>_.
        ret item')))"

definition get_item :: "string \<Rightarrow> store \<Rightarrow> transcript_item option" where
  "get_item item_id s = find (\<lambda>i. ti_id i = item_id) (transcript_items s)"

definition update_items ::
    "(transcript_item \<Rightarrow> bool) \<Rightarrow> (transcript_item \<Rightarrow> transcript_item) \<Rightarrow> store \<Rightarrow> store" where
  "update_items p f s = s\<lparr>transcript_items := update_where p f (transcript_items s)\<rparr>"

text \<open>The two completions differ in whether the kind is replaced as well.\<close>

definition complete_with ::
    "string \<Rightarrow> (transcript_item \<Rightarrow> transcript_item) \<Rightarrow> int \<Rightarrow> transcript_item tx" where
  "complete_with item_id f now =
     bind_tx (expect_tx (InvalidPersistedValue ''transcript item'' item_id) (get_item item_id)) (\<lambda>current.
     bind_tx (require (ti_status current = InProgress)
       (InvalidPersistedValue ''transcript item status'' (item_status_str (ti_status current)))) (\<lambda>_.
     bind_tx (modify (update_items (\<lambda>i. ti_id i = item_id \<and> ti_status i = InProgress) f)) (\<lambda>_.
     bind_tx (expect_tx Database (get_item item_id)) (\<lambda>item.
     bind_tx (emit_typed_tx (ti_session_id current) (ti_run_id current) (ItemCompleted item) now) (\<lambda>_.
     bind_tx (modify (complete_item (ti_session_id current) item_id)) (\<lambda>_.
     ret item))))))"

definition complete_transcript_item ::
    "string \<Rightarrow> item_status \<Rightarrow> item_payload \<Rightarrow> int \<Rightarrow> transcript_item tx" where
  "complete_transcript_item item_id status payload now =
     complete_with item_id (\<lambda>i. i\<lparr>ti_status := status, ti_payload := payload\<rparr>) now"

definition complete_transcript_item_as_kind ::
    "string \<Rightarrow> item_kind \<Rightarrow> item_status \<Rightarrow> item_payload \<Rightarrow> int \<Rightarrow> transcript_item tx" where
  "complete_transcript_item_as_kind item_id kind status payload now =
     complete_with item_id (\<lambda>i. i\<lparr>ti_kind := kind, ti_status := status, ti_payload := payload\<rparr>) now"

definition list_transcript :: "string \<Rightarrow> store \<Rightarrow> transcript_item list" where
  "list_transcript sid s = sort_key ti_sequence (filter (\<lambda>i. ti_session_id i = sid) (transcript_items s))"

section \<open>Compaction checkpoints\<close>

definition latest_compaction_checkpoint :: "string \<Rightarrow> store \<Rightarrow> compaction_row option" where
  "latest_compaction_checkpoint sid s =
     last_max cc_covered_through_sequence (filter (\<lambda>c. cc_session_id c = sid) (compaction_checkpoints s))"

definition transcript_max :: "string \<Rightarrow> store \<Rightarrow> nat" where
  "transcript_max sid s =
     foldr max (map ti_sequence (filter (\<lambda>i. ti_session_id i = sid) (transcript_items s))) 0"

definition compaction_json :: "compaction_row \<Rightarrow> json" where
  "compaction_json c = JObj
     [(''checkpointId'', JStr (cc_id c)),
      (''coveredThroughSequence'', JNum (int (cc_covered_through_sequence c))),
      (''reason'', JStr (cc_reason c)),
      (''sourceItems'', JNum (int (cc_source_items c))),
      (''sourceChars'', JNum (int (cc_source_chars c))),
      (''summaryChars'', JNum (int (cc_summary_chars c))),
      (''recentTailItems'', JNum (int (cc_recent_tail_items c))),
      (''preservedIdentifierCount'', JNum (int (cc_preserved_identifier_count c)))]"

definition create_compaction_checkpoint :: "compaction_row \<Rightarrow> compaction_row tx" where
  "create_compaction_checkpoint checkpoint =
     bind_tx (require (cc_accepted checkpoint) CompactionQualityRejected) (\<lambda>_.
     bind_tx (gets (latest_compaction_checkpoint (cc_session_id checkpoint))) (\<lambda>latest.
     bind_tx (case latest of
         Some previous \<Rightarrow>
           bind_tx (require (cc_previous_checkpoint_id checkpoint = Some (cc_id previous))
             CompactionPredecessorMismatch) (\<lambda>_.
           require (cc_covered_through_sequence previous < cc_covered_through_sequence checkpoint)
             CompactionSequenceNotAdvanced)
       | None \<Rightarrow> require (cc_previous_checkpoint_id checkpoint = None) CompactionPredecessorMismatch) (\<lambda>_.
     bind_tx (gets (transcript_max (cc_session_id checkpoint))) (\<lambda>max_sequence.
     bind_tx (require (cc_covered_through_sequence checkpoint \<noteq> 0 \<and>
         cc_covered_through_sequence checkpoint \<le> max_sequence) CompactionSequenceOutOfRange) (\<lambda>_.
     bind_tx (insert_compaction checkpoint) (\<lambda>_.
     bind_tx (emit_tx (cc_session_id checkpoint) (cc_run_id checkpoint)
       ''context.compaction_checkpoint_created'' (compaction_json checkpoint)
       (cc_created_at_ms checkpoint)) (\<lambda>_.
     ret checkpoint)))))))"

end
