(* ===== verification/Store_Effects.thy ===== *)
theory Store_Effects
  imports Store_Runs
begin

text \<open>
  Approvals (\<open>agent_store.rs\<close>) and the side-effect ledger (\<open>agent_store/side_effects.rs\<close>): an
  effect is claimed before it is sent to its host, a claim may consume one use of an approval,
  and every claim leaves a step checkpoint for recovery.
\<close>

section \<open>Approvals\<close>

definition approval_requested_json :: "approval_record \<Rightarrow> json" where
  "approval_requested_json a = JObj
     [(''approvalId'', JStr (ap_id a)), (''toolCallId'', JStr (ap_tool_call_id a)),
      (''action'', JStr (ap_action a)), (''resource'', JStr (ap_resource a)),
      (''riskSummary'', JStr (ap_risk_summary a)),
      (''expiresAtMs'', (case ap_expires_at_ms a of None \<Rightarrow> JNull | Some t \<Rightarrow> JNum t))]"

definition create_approval :: "approval_record \<Rightarrow> approval_record tx" where
  "create_approval approval =
     bind_tx (require (ap_status approval = Pending) (ApprovalNotPending (ap_id approval))) (\<lambda>_.
     bind_tx (insert_approval approval) (\<lambda>_.
     bind_tx (emit_tx (ap_session_id approval) (Some (ap_run_id approval)) ''approval.requested''
       (approval_requested_json approval) (ap_created_at_ms approval)) (\<lambda>_.
     ret approval)))"

definition get_approval :: "string \<Rightarrow> store \<Rightarrow> approval_record option" where
  "get_approval aid s = find (\<lambda>a. ap_id a = aid) (approval_requests s)"

definition list_pending_approvals :: "store \<Rightarrow> approval_record list" where
  "list_pending_approvals s =
     sort_key ap_created_at_ms (filter (\<lambda>a. ap_status a = Pending) (approval_requests s))"

record approval_resolution =
  ar_approval_id :: string
  ar_decision :: approval_status
  ar_parameter_hash :: string
  ar_run_generation :: nat
  ar_resolved_by :: string
  ar_resolved_at_ms :: int

definition update_approvals ::
    "(approval_record \<Rightarrow> bool) \<Rightarrow> (approval_record \<Rightarrow> approval_record) \<Rightarrow> store \<Rightarrow> store" where
  "update_approvals p f s = s\<lparr>approval_requests := update_where p f (approval_requests s)\<rparr>"

text \<open>The status a resolution gives: a late decision expires the request.\<close>

definition resolved_status :: "approval_record \<Rightarrow> approval_resolution \<Rightarrow> approval_status" where
  "resolved_status approval resolution =
     (case ap_expires_at_ms approval of
        Some expires_at \<Rightarrow>
          if expires_at \<le> ar_resolved_at_ms resolution then Expired else ar_decision resolution
      | None \<Rightarrow> ar_decision resolution)"

definition resolve_approval :: "approval_resolution \<Rightarrow> approval_record tx" where
  "resolve_approval resolution =
     bind_tx (require (ar_decision resolution \<in> {Approved, Denied, ApprovalCancelled})
       InvalidApprovalDecision) (\<lambda>_.
     bind_tx (expect_tx (ApprovalNotFound (ar_approval_id resolution))
       (get_approval (ar_approval_id resolution))) (\<lambda>approval.
     bind_tx (require (ap_status approval = Pending) (ApprovalNotPending (ap_id approval))) (\<lambda>_.
     bind_tx (require (ap_parameter_hash approval = ar_parameter_hash resolution \<and>
         ap_run_generation approval = ar_run_generation resolution) StaleApprovalResolution) (\<lambda>_.
     bind_tx (get_run_tx (ap_run_id approval)) (\<lambda>run.
     bind_tx (require (rr_generation run = ap_run_generation approval \<and>
         rr_status run = WaitingApproval) StaleApprovalResolution) (\<lambda>_.
     let status = resolved_status approval resolution;
         settle = (\<lambda>a. a\<lparr>ap_status := status, ap_resolved_by := Some (ar_resolved_by resolution),
           ap_resolved_at_ms := Some (ar_resolved_at_ms resolution)\<rparr>);
         pending = (\<lambda>a. ap_id a = ar_approval_id resolution \<and> ap_status a = Pending)
     in bind_tx (gets (\<lambda>s. count_where pending (approval_requests s))) (\<lambda>affected.
        bind_tx (modify (update_approvals pending settle)) (\<lambda>_.
        bind_tx (require (affected = 1) (ApprovalNotPending (ap_id approval))) (\<lambda>_.
        bind_tx (emit_tx (ap_session_id approval) (Some (ap_run_id approval))
          (if status = Expired then ''approval.expired'' else ''approval.resolved'')
          (JObj [(''approvalId'', JStr (ap_id approval)),
                 (''status'', JStr (approval_status_str status))])
          (ar_resolved_at_ms resolution)) (\<lambda>_.
        ret (settle approval)))))))))))"

definition cancel_run_approvals :: "string \<Rightarrow> int \<Rightarrow> nat tx" where
  "cancel_run_approvals run_id resolved_at_ms =
     bind_tx (gets (\<lambda>s. filter (\<lambda>a. ap_run_id a = run_id \<and> ap_status a = Pending)
       (approval_requests s))) (\<lambda>pending.
     bind_tx (for_tx pending (\<lambda>a.
       bind_tx (modify (update_approvals (\<lambda>b. ap_id b = ap_id a \<and> ap_status b = Pending)
         (\<lambda>b. b\<lparr>ap_status := ApprovalCancelled, ap_resolved_at_ms := Some resolved_at_ms\<rparr>))) (\<lambda>_.
       emit_tx (ap_session_id a) (Some run_id) ''approval.resolved''
         (JObj [(''approvalId'', JStr (ap_id a)),
                (''status'', JStr (approval_status_str ApprovalCancelled))]) resolved_at_ms))) (\<lambda>_.
     ret (length pending)))"

section \<open>Claims\<close>

record side_effect_authority =
  au_action :: string
  au_resource :: string
  au_target_host :: string

record side_effect_claim =
  cl_record :: side_effect_record
  cl_created :: bool
  cl_persisted_result :: "json option"

definition record_of :: "side_effect_row \<Rightarrow> side_effect_record" where
  "record_of e = side_effect_record.truncate e"

definition row_of :: "side_effect_record \<Rightarrow> side_effect_row" where
  "row_of e = side_effect_record.extend e \<lparr>se_result_json = None\<rparr>"

definition find_effect :: "string \<Rightarrow> nat \<Rightarrow> string \<Rightarrow> store \<Rightarrow> side_effect_row option" where
  "find_effect run_id generation key s =
     find (\<lambda>e. effect_key e = (run_id, generation, key)) (side_effect_executions s)"

definition get_side_effect_claim :: "string \<Rightarrow> nat \<Rightarrow> string \<Rightarrow> store \<Rightarrow> side_effect_claim option" where
  "get_side_effect_claim run_id generation key s =
     map_option (\<lambda>e. \<lparr>cl_record = record_of e, cl_created = False,
       cl_persisted_result = se_result_json e\<rparr>) (find_effect run_id generation key s)"

text \<open>Which approval rows a claim may use: a session grant is tied to the authority the host states.\<close>

definition approval_covers ::
    "approval_grant_scope \<Rightarrow> side_effect_record \<Rightarrow> side_effect_authority option \<Rightarrow> approval_record \<Rightarrow> bool"
where
  "approval_covers scope e authority a =
     (case scope of
        GrantSession \<Rightarrow>
          (case authority of
             None \<Rightarrow> False
           | Some au \<Rightarrow> ap_session_id a = se_session_id e \<and> ap_action a = au_action au \<and>
               ap_resource a = au_resource au \<and> ap_target_host a = au_target_host au \<and>
               ap_grant_scope a = GrantSession)
      | _ \<Rightarrow> ap_session_id a = se_session_id e \<and> ap_run_id a = se_run_id e \<and>
          ap_run_generation a = se_run_generation e \<and> ap_tool_call_id a = se_tool_call_id e \<and>
          ap_parameter_hash a = se_parameter_hash e)"

definition consume_approval ::
    "string \<Rightarrow> side_effect_record \<Rightarrow> side_effect_authority option \<Rightarrow> unit tx" where
  "consume_approval approval_id e authority =
     bind_tx (expect_tx SideEffectApprovalInvalid (get_approval approval_id)) (\<lambda>row.
     bind_tx (require (ap_grant_scope row = GrantSession \<longrightarrow> authority \<noteq> None)
       SideEffectApprovalInvalid) (\<lambda>_.
     let usable = (\<lambda>a. ap_id a = approval_id \<and> approval_covers (ap_grant_scope row) e authority a \<and>
           ap_status a = Approved \<and> 0 < ap_uses_remaining a)
     in bind_tx (gets (\<lambda>s. count_where usable (approval_requests s))) (\<lambda>affected.
        bind_tx (modify (update_approvals usable
          (\<lambda>a. a\<lparr>ap_uses_remaining := ap_uses_remaining a - 1\<rparr>))) (\<lambda>_.
        require (affected = 1) SideEffectApprovalInvalid))))"

text \<open>
  The checkpoint of the call, copied with the phase the effect has reached; its random id is
  the argument \<open>fresh\<close>.
\<close>

definition copy_side_effect_checkpoint_tx ::
    "string \<Rightarrow> side_effect_record \<Rightarrow> step_phase \<Rightarrow> int \<Rightarrow> unit tx" where
  "copy_side_effect_checkpoint_tx fresh e phase created_at_ms =
     bind_tx (gets (\<lambda>s. last_max (\<lambda>c. (sc_step_index c, sc_created_at_ms c))
       (filter (\<lambda>c. sc_run_id c = se_run_id e \<and> sc_run_generation c = se_run_generation e \<and>
         sc_tool_call_id c = Some (se_tool_call_id e)) (run_step_checkpoints s)))) (\<lambda>source.
     case source of
       None \<Rightarrow> ret ()
     | Some c \<Rightarrow> insert_checkpoint_or_ignore
         \<lparr>sc_id = fresh, sc_session_id = se_session_id e, sc_run_id = se_run_id e,
          sc_run_generation = se_run_generation e, sc_step_index = sc_step_index c,
          sc_phase = phase, sc_tool_call_id = Some (se_tool_call_id e),
          sc_tool_name = sc_tool_name c, sc_side_effect_execution_id = Some (se_id e),
          sc_recovery_policy = sc_recovery_policy c, sc_parameter_hash = sc_parameter_hash c,
          sc_world_revision = sc_world_revision c, sc_provider_revision = sc_provider_revision c,
          sc_revision_snapshot = sc_revision_snapshot c,
          sc_created_at_ms = max created_at_ms (sc_created_at_ms c)\<rparr>)"

definition claim_side_effect_with_authority ::
    "string \<Rightarrow> side_effect_record \<Rightarrow> side_effect_authority option \<Rightarrow> side_effect_claim tx" where
  "claim_side_effect_with_authority fresh e authority =
     bind_tx (require (se_status e = Claimed) (InvalidSideEffectTransition (se_status e) Claimed)) (\<lambda>_.
     bind_tx (get_run_tx (se_run_id e)) (\<lambda>run.
     bind_tx (require (rr_session_id run = se_session_id e \<and> rr_generation run = se_run_generation e)
       RunPreconditionFailed) (\<lambda>_.
     bind_tx (gets (find_effect (se_run_id e) (se_run_generation e) (se_idempotency_key e))) (\<lambda>existing.
     case existing of
       Some old \<Rightarrow>
         bind_tx (require (se_parameter_hash old = se_parameter_hash e \<and>
             se_tool_call_id old = se_tool_call_id e) SideEffectIdempotencyConflict) (\<lambda>_.
         ret \<lparr>cl_record = record_of old, cl_created = False, cl_persisted_result = se_result_json old\<rparr>)
     | None \<Rightarrow>
         bind_tx (require (rr_status run = Running) RunPreconditionFailed) (\<lambda>_.
         bind_tx (case se_approval_id e of
             None \<Rightarrow> ret ()
           | Some approval_id \<Rightarrow> consume_approval approval_id e authority) (\<lambda>_.
         bind_tx (insert_effect (row_of e)) (\<lambda>_.
         bind_tx (copy_side_effect_checkpoint_tx fresh e ToolClaimed (se_created_at_ms e)) (\<lambda>_.
         ret \<lparr>cl_record = e, cl_created = True, cl_persisted_result = None\<rparr>))))))))"

definition claim_side_effect :: "string \<Rightarrow> side_effect_record \<Rightarrow> side_effect_claim tx" where
  "claim_side_effect fresh e = claim_side_effect_with_authority fresh e None"

section \<open>Dispatch and results\<close>

definition get_effect :: "string \<Rightarrow> store \<Rightarrow> side_effect_row option" where
  "get_effect eid s = find (\<lambda>e. se_id e = eid) (side_effect_executions s)"

definition update_effects ::
    "(side_effect_row \<Rightarrow> bool) \<Rightarrow> (side_effect_row \<Rightarrow> side_effect_row) \<Rightarrow> store \<Rightarrow> store" where
  "update_effects p f s = s\<lparr>side_effect_executions := update_where p f (side_effect_executions s)\<rparr>"

text \<open>The update; a result reference must name a stored artifact.\<close>

definition set_effect ::
    "string \<Rightarrow> side_effect_status \<Rightarrow> side_effect_status \<Rightarrow> string option \<Rightarrow> string option \<Rightarrow>
     string option \<Rightarrow> json option \<Rightarrow> int \<Rightarrow> unit tx" where
  "set_effect eid expected next_status host_request_id result_code result_reference
       persisted_result updated_at_ms =
     insert_checked (opt_exists artifact_exists result_reference)
       (update_effects (\<lambda>e. se_id e = eid \<and> se_status e = expected)
         (\<lambda>e. e\<lparr>se_status := next_status,
            se_host_request_id :=
              (case host_request_id of None \<Rightarrow> se_host_request_id e | Some h \<Rightarrow> Some h),
            se_result_code := result_code, se_result_reference := result_reference,
            se_result_json := persisted_result, se_updated_at_ms := updated_at_ms\<rparr>))"

definition transition_side_effect ::
    "string \<Rightarrow> side_effect_status \<Rightarrow> side_effect_status \<Rightarrow> string option \<Rightarrow> string option \<Rightarrow>
     string option \<Rightarrow> json option \<Rightarrow> int \<Rightarrow> side_effect_record tx" where
  "transition_side_effect eid expected next_status host_request_id result_code result_reference
       persisted_result updated_at_ms =
     bind_tx (expect_tx (SideEffectNotFound eid) (get_effect eid)) (\<lambda>current.
     bind_tx (require (se_status current = expected)
       (InvalidSideEffectTransition (se_status current) next_status)) (\<lambda>_.
     bind_tx (set_effect eid expected next_status host_request_id result_code result_reference
       persisted_result updated_at_ms) (\<lambda>_.
     bind_tx (expect_tx Database (get_effect eid)) (\<lambda>updated.
     ret (record_of updated)))))"

definition mark_side_effect_dispatched :: "string \<Rightarrow> string \<Rightarrow> int \<Rightarrow> side_effect_record tx" where
  "mark_side_effect_dispatched eid host_request_id updated_at_ms =
     transition_side_effect eid Claimed Dispatched (Some host_request_id) None None None updated_at_ms"

definition mark_side_effect_dispatched_if_current ::
    "string \<Rightarrow> string \<Rightarrow> string \<Rightarrow> nat \<Rightarrow> string \<Rightarrow> int \<Rightarrow> side_effect_record tx" where
  "mark_side_effect_dispatched_if_current fresh eid run_id expected_generation host_request_id updated_at_ms =
     bind_tx (get_run_tx run_id) (\<lambda>run.
     bind_tx (require (rr_generation run = expected_generation \<and> rr_status run = Running)
       RunPreconditionFailed) (\<lambda>_.
     bind_tx (expect_tx (SideEffectNotFound eid) (get_effect eid)) (\<lambda>current.
     bind_tx (require (se_run_id current = run_id \<and> se_run_generation current = expected_generation \<and>
       se_status current = Claimed) RunPreconditionFailed) (\<lambda>_.
     bind_tx (modify (update_effects (\<lambda>e. se_id e = eid \<and> se_status e = Claimed)
       (\<lambda>e. e\<lparr>se_status := Dispatched, se_host_request_id := Some host_request_id,
         se_updated_at_ms := updated_at_ms\<rparr>))) (\<lambda>_.
     bind_tx (expect_tx Database (get_effect eid)) (\<lambda>updated.
     bind_tx (copy_side_effect_checkpoint_tx fresh (record_of updated) ToolDispatched updated_at_ms) (\<lambda>_.
     ret (record_of updated))))))))"

definition cancel_claimed_side_effect :: "string \<Rightarrow> int \<Rightarrow> side_effect_record tx" where
  "cancel_claimed_side_effect eid updated_at_ms =
     transition_side_effect eid Claimed EffectCancelled None (Some ''cancelled_before_dispatch'')
       None None updated_at_ms"

definition finish_side_effect ::
    "string \<Rightarrow> side_effect_status \<Rightarrow> string option \<Rightarrow> string option \<Rightarrow> json option \<Rightarrow> int \<Rightarrow>
     side_effect_record tx" where
  "finish_side_effect eid status result_code result_reference persisted_result updated_at_ms =
     bind_tx (require (status \<in> {EffectSucceeded, EffectFailed, EffectCancelled, Indeterminate})
       (InvalidSideEffectTransition Dispatched status)) (\<lambda>_.
     transition_side_effect eid Dispatched status None result_code result_reference
       persisted_result updated_at_ms)"

end
