(* ===== verification/Store_Recovery.thy ===== *)
theory Store_Recovery
  imports Store_Effects
begin

text \<open>
  Recovery after a restart: \<open>recover_interrupted\<close> of \<open>agent_store.rs\<close> moves every run that was
  executing into recovery and settles what it left open, and \<open>agent_store/recovery.rs\<close> records
  the step checkpoints, takes the user's decision and fences the tool calls of a resumed run.
\<close>

section \<open>Step checkpoints\<close>

text \<open>\<open>ORDER BY created_at_ms DESC, id DESC LIMIT 1\<close>, text order as a comparison of code points.\<close>

definition text_key :: "string \<Rightarrow> nat list" where
  "text_key t = map of_char t"

definition latest_effect_of_call :: "string \<Rightarrow> nat \<Rightarrow> string \<Rightarrow> store \<Rightarrow> side_effect_row option" where
  "latest_effect_of_call run_id generation call s =
     last_max (\<lambda>e. (se_created_at_ms e, text_key (se_id e)))
       (filter (\<lambda>e. se_run_id e = run_id \<and> se_run_generation e = generation \<and> se_tool_call_id e = call)
         (side_effect_executions s))"

definition link_checkpoint :: "step_checkpoint \<Rightarrow> store \<Rightarrow> step_checkpoint" where
  "link_checkpoint c s =
     (case (sc_side_effect_execution_id c, sc_tool_call_id c) of
        (None, Some call) \<Rightarrow> c\<lparr>sc_side_effect_execution_id :=
          map_option se_id (latest_effect_of_call (sc_run_id c) (sc_run_generation c) call s)\<rparr>
      | _ \<Rightarrow> c)"

definition record_run_step_checkpoint :: "step_checkpoint \<Rightarrow> step_checkpoint tx" where
  "record_run_step_checkpoint checkpoint =
     bind_tx (get_run_tx (sc_run_id checkpoint)) (\<lambda>run.
     bind_tx (require (rr_session_id run = sc_session_id checkpoint \<and>
       rr_generation run = sc_run_generation checkpoint) RunPreconditionFailed) (\<lambda>_.
     bind_tx (gets (link_checkpoint checkpoint)) (\<lambda>linked.
     bind_tx (insert_checkpoint linked) (\<lambda>_.
     ret linked))))"

definition latest_run_step_checkpoint :: "string \<Rightarrow> store \<Rightarrow> step_checkpoint option" where
  "latest_run_step_checkpoint run_id s =
     last_max (\<lambda>c. (sc_run_generation c, sc_step_index c, sc_created_at_ms c))
       (filter (\<lambda>c. sc_run_id c = run_id) (run_step_checkpoints s))"

definition latest_run_step_checkpoint_for_tool ::
    "string \<Rightarrow> nat \<Rightarrow> string \<Rightarrow> store \<Rightarrow> step_checkpoint option" where
  "latest_run_step_checkpoint_for_tool run_id generation call s =
     last_max (\<lambda>c. (sc_step_index c, sc_created_at_ms c))
       (filter (\<lambda>c. sc_run_id c = run_id \<and> sc_run_generation c = generation \<and>
         sc_tool_call_id c = Some call) (run_step_checkpoints s))"

section \<open>The restart\<close>

record recovery_report =
  rp_interrupted_runs :: nat
  rp_lost_tasks :: nat
  rp_expired_processes :: nat
  rp_expired_approvals :: nat
  rp_interrupted_user_inputs :: nat
  rp_stopped_mcp_servers :: nat
  rp_indeterminate_side_effects :: nat
  rp_cancelled_side_effect_claims :: nat
  rp_auto_resume_run_ids :: "string list"
  rp_awaiting_decision_run_ids :: "string list"

definition is_active :: "run_status \<Rightarrow> bool" where
  "is_active st \<longleftrightarrow> st \<in> {Preparing, Running, WaitingApproval, WaitingUserInput, Cancelling}"

definition set_status :: "run_status \<Rightarrow> string option \<Rightarrow> int \<Rightarrow> run_record \<Rightarrow> run_record" where
  "set_status st code now r = r\<lparr>rr_status := st, rr_failure_code := code, rr_updated_at_ms := now\<rparr>"

text \<open>First loop: every active run becomes \<open>recovering\<close>.\<close>

definition interrupt_run :: "int \<Rightarrow> run_record \<Rightarrow> unit tx" where
  "interrupt_run now r =
     bind_tx (modify (update_runs (\<lambda>x. rr_id x = rr_id r)
       (set_status Recovering (Some ''executor_lost'') now))) (\<lambda>_.
     emit_tx (rr_session_id r) (Some (rr_id r)) ''run.status_changed''
       (status_change_json (rr_status r) Recovering (Some ''executor_lost'')) now)"

text \<open>The statements between the two loops that touch one table each.\<close>

definition mark_rows :: "string list \<Rightarrow> string \<Rightarrow> string option \<Rightarrow> int \<Rightarrow> aux_row list \<Rightarrow> aux_row list" where
  "mark_rows from to_status code now = update_where (\<lambda>r. ax_status r \<in> set from)
     (\<lambda>r. r\<lparr>ax_status := to_status, ax_updated_at_ms := now,
       ax_code := (case code of None \<Rightarrow> ax_code r | Some c \<Rightarrow> Some c)\<rparr>)"

definition stop_mcp :: "int \<Rightarrow> mcp_health_row \<Rightarrow> mcp_health_row" where
  "stop_mcp now r = r\<lparr>mh_state := ''stopped'', mh_server_name := None, mh_server_version := None,
     mh_protocol_version := None, mh_tool_count := 0, mh_error_code := Some ''host_restarted'',
     mh_checked_at_ms := now\<rparr>"

definition mcp_live :: "mcp_health_row \<Rightarrow> bool" where
  "mcp_live r \<longleftrightarrow> mh_state r \<in> {''starting'', ''ready''}"

definition reset_hosts :: "int \<Rightarrow> host_tables \<Rightarrow> host_tables" where
  "reset_hosts now h = h\<lparr>
     task_runs := mark_rows [''running''] ''lost'' (Some ''executor lost during restart'') now (task_runs h),
     process_sessions := mark_rows [''starting'', ''running''] ''expired'' None now (process_sessions h),
     run_steers := update_where (\<lambda>r. ax_status r = ''pending'') (\<lambda>r. r\<lparr>ax_status := ''interrupted''\<rparr>)
       (run_steers h),
     capability_grants := map (\<lambda>g. case g of None \<Rightarrow> Some now | Some t \<Rightarrow> Some t) (capability_grants h),
     browser_site_permissions := [],
     browser_network_rules := [],
     browser_permission_requests :=
       mark_rows [''pending''] ''expired'' None now (browser_permission_requests h),
     mcp_server_health := update_where mcp_live (stop_mcp now) (mcp_server_health h)\<rparr>"

definition is_pending :: "approval_record \<Rightarrow> bool" where
  "is_pending a \<longleftrightarrow> ap_status a = Pending"

definition expire_pending_approvals :: "int \<Rightarrow> store \<Rightarrow> store" where
  "expire_pending_approvals now = update_approvals is_pending
     (\<lambda>a. a\<lparr>ap_status := Expired, ap_resolved_at_ms := Some now\<rparr>)"

definition update_inputs ::
    "(user_input_record \<Rightarrow> bool) \<Rightarrow> (user_input_record \<Rightarrow> user_input_record) \<Rightarrow> store \<Rightarrow> store" where
  "update_inputs p f s = s\<lparr>user_input_requests := update_where p f (user_input_requests s)\<rparr>"

definition input_pending :: "user_input_record \<Rightarrow> bool" where
  "input_pending u \<longleftrightarrow> ui_status u = InputPending"

definition interrupt_pending_inputs :: "int \<Rightarrow> store \<Rightarrow> store" where
  "interrupt_pending_inputs now = update_inputs input_pending
     (\<lambda>u. u\<lparr>ui_status := InputInterrupted, ui_resolved_at_ms := Some now,
       ui_resolved_by := Some ''system:restart''\<rparr>)"

definition interrupt_item :: "int \<Rightarrow> transcript_item \<Rightarrow> unit tx" where
  "interrupt_item now i =
     bind_tx (modify (update_items (\<lambda>x. ti_id x = ti_id i) (\<lambda>x. x\<lparr>ti_status := ItemInterrupted\<rparr>))) (\<lambda>_.
     emit_typed_tx (ti_session_id i) (ti_run_id i)
       (ItemCompleted (i\<lparr>ti_status := ItemInterrupted\<rparr>)) now)"

definition has_effect_status :: "side_effect_status \<Rightarrow> side_effect_row \<Rightarrow> bool" where
  "has_effect_status st e \<longleftrightarrow> se_status e = st"

definition settle_effects :: "int \<Rightarrow> store \<Rightarrow> store" where
  "settle_effects now s =
     update_effects (has_effect_status Claimed)
       (\<lambda>e. e\<lparr>se_status := EffectCancelled,
         se_result_code := Some ''cancelled_before_dispatch_on_restart'', se_updated_at_ms := now\<rparr>)
     (update_effects (has_effect_status Dispatched)
       (\<lambda>e. e\<lparr>se_status := Indeterminate,
         se_result_code := Some ''host_result_unknown_after_restart'', se_updated_at_ms := now\<rparr>) s)"

text \<open>Second loop: what is known about one interrupted run.\<close>

definition latest_generation_checkpoint :: "string \<Rightarrow> nat \<Rightarrow> store \<Rightarrow> step_checkpoint option" where
  "latest_generation_checkpoint run_id generation s =
     last_max (\<lambda>c. (sc_step_index c, sc_created_at_ms c))
       (filter (\<lambda>c. sc_run_id c = run_id \<and> sc_run_generation c = generation) (run_step_checkpoints s))"

text \<open>
  \<open>ORDER BY updated_at_ms DESC LIMIT 1\<close>: SQL leaves the choice among equal times open, and
  the model takes the last row.
\<close>

definition indeterminate_effect_of :: "string \<Rightarrow> nat \<Rightarrow> store \<Rightarrow> string option" where
  "indeterminate_effect_of run_id generation s = map_option se_id
     (last_max se_updated_at_ms
       (filter (\<lambda>e. se_run_id e = run_id \<and> se_run_generation e = generation \<and>
         se_status e = Indeterminate) (side_effect_executions s)))"

text \<open>An effect whose outcome is known: it ended, or it was cancelled before it was sent.\<close>

definition proven_safe :: "'z side_effect_record_scheme \<Rightarrow> bool" where
  "proven_safe e \<longleftrightarrow> se_status e \<in> {EffectSucceeded, EffectFailed} \<or>
     se_status e = EffectCancelled \<and>
     se_result_code e = Some ''cancelled_before_dispatch_on_restart''"

record recovery_facts =
  rf_checkpoint :: "step_checkpoint option"
  rf_indeterminate :: "string option"
  rf_effect_id :: "string option"
  rf_safe :: bool

definition recovery_facts :: "string \<Rightarrow> nat \<Rightarrow> store \<Rightarrow> recovery_facts" where
  "recovery_facts run_id generation s =
     (let checkpoint = latest_generation_checkpoint run_id generation s;
          indeterminate = indeterminate_effect_of run_id generation s;
          effect_id = (case indeterminate of Some eid \<Rightarrow> Some eid
            | None \<Rightarrow> (case checkpoint of None \<Rightarrow> None | Some c \<Rightarrow> sc_side_effect_execution_id c));
          effect = (case effect_id of None \<Rightarrow> None | Some eid \<Rightarrow> get_effect eid s)
      in \<lparr>rf_checkpoint = checkpoint, rf_indeterminate = indeterminate, rf_effect_id = effect_id,
          rf_safe = (case effect of None \<Rightarrow> True | Some e \<Rightarrow> proven_safe e)\<rparr>)"

definition auto_eligible :: "run_status \<Rightarrow> recovery_facts \<Rightarrow> bool" where
  "auto_eligible previous f \<longleftrightarrow>
     rf_indeterminate f = None \<and> rf_safe f \<and>
     previous \<notin> {WaitingApproval, WaitingUserInput, Cancelling} \<and>
     (case rf_checkpoint f of None \<Rightarrow> False
      | Some c \<Rightarrow> sc_recovery_policy c \<in> {ReadOnlyReplayable, IdempotentWithReceipt})"

definition reason_code :: "run_status \<Rightarrow> recovery_facts \<Rightarrow> string" where
  "reason_code previous f =
     (if auto_eligible previous f then ''safe_checkpoint_auto_resume_eligible''
      else if rf_indeterminate f \<noteq> None then ''side_effect_result_indeterminate''
      else if rf_checkpoint f = None then ''durable_checkpoint_missing''
      else if previous = WaitingApproval then ''approval_expired_on_restart''
      else if previous = WaitingUserInput then ''user_input_interrupted_on_restart''
      else if previous = Cancelling then ''cancellation_interrupted_on_restart''
      else ''checkpoint_not_replayable'')"

definition classify_run :: "(string \<Rightarrow> string) \<Rightarrow> int \<Rightarrow> run_record \<Rightarrow> bool tx" where
  "classify_run fresh now r =
     bind_tx (gets (recovery_facts (rr_id r) (rr_generation r))) (\<lambda>f.
     let eligible = auto_eligible (rr_status r) f; reason = reason_code (rr_status r) f
     in bind_tx (insert_recovery
          \<lparr>rc_id = fresh (rr_id r), rc_session_id = rr_session_id r, rc_run_id = rr_id r,
           rc_previous_status = rr_status r, rc_interrupted_generation = rr_generation r,
           rc_resume_generation = rr_generation r + 1,
           rc_state = (if eligible then EligibleAuto else AwaitingUser), rc_reason_code = reason,
           rc_checkpoint_id = map_option sc_id (rf_checkpoint f),
           rc_side_effect_execution_id = rf_effect_id f, rc_decision_action = None,
           rc_decision_idempotency_key = None, rc_resolved_by = None, rc_resolved_at_ms = None,
           rc_created_at_ms = now, rc_updated_at_ms = now\<rparr>) (\<lambda>_.
        bind_tx (when_tx (\<not> eligible)
          (bind_tx (modify (update_runs
             (\<lambda>x. rr_id x = rr_id r \<and> rr_generation x = rr_generation r \<and> rr_status x = Recovering)
             (\<lambda>x. x\<lparr>rr_status := WaitingRecoveryDecision, rr_updated_at_ms := now\<rparr>))) (\<lambda>_.
           emit_tx (rr_session_id r) (Some (rr_id r)) ''run.status_changed''
             (status_change_json Recovering WaitingRecoveryDecision (Some reason)) now))) (\<lambda>_.
        ret eligible)))"

definition count_status :: "string list \<Rightarrow> aux_row list \<Rightarrow> nat" where
  "count_status from rows = count_where (\<lambda>r. ax_status r \<in> set from) rows"

definition complete_items :: "transcript_item list \<Rightarrow> store \<Rightarrow> store" where
  "complete_items items s = fold (\<lambda>i. complete_item (ti_session_id i) (ti_id i)) items s"

definition recover_interrupted :: "(string \<Rightarrow> string) \<Rightarrow> int \<Rightarrow> recovery_report tx" where
  "recover_interrupted fresh now =
     bind_tx (gets (\<lambda>s. filter (\<lambda>r. is_active (rr_status r)) (runs s))) (\<lambda>active_runs.
     bind_tx (modify (\<lambda>s. s\<lparr>checkout_write_leases := []\<rparr>)) (\<lambda>_.
     bind_tx (for_tx active_runs (interrupt_run now)) (\<lambda>_.
     bind_tx (gets hosts) (\<lambda>h.
     bind_tx (gets (\<lambda>s. count_where is_pending (approval_requests s))) (\<lambda>expired_approvals.
     bind_tx (modify (expire_pending_approvals now)) (\<lambda>_.
     bind_tx (gets (\<lambda>s. count_where input_pending (user_input_requests s))) (\<lambda>interrupted_inputs.
     bind_tx (modify (interrupt_pending_inputs now)) (\<lambda>_.
     bind_tx (gets (\<lambda>s. sort_key ti_sequence
       (filter (\<lambda>i. ti_status i = InProgress) (transcript_items s)))) (\<lambda>in_progress_items.
     bind_tx (for_tx in_progress_items (interrupt_item now)) (\<lambda>_.
     bind_tx (modify (update_hosts (reset_hosts now))) (\<lambda>_.
     bind_tx (gets (\<lambda>s. (count_where (has_effect_status Dispatched) (side_effect_executions s),
       count_where (has_effect_status Claimed) (side_effect_executions s)))) (\<lambda>effects.
     bind_tx (modify (settle_effects now)) (\<lambda>_.
     bind_tx (collect_tx active_runs (classify_run fresh now)) (\<lambda>eligible.
     bind_tx (modify (complete_items in_progress_items)) (\<lambda>_.
     ret \<lparr>rp_interrupted_runs = length active_runs,
          rp_lost_tasks = count_status [''running''] (task_runs h),
          rp_expired_processes = count_status [''starting'', ''running''] (process_sessions h),
          rp_expired_approvals = expired_approvals,
          rp_interrupted_user_inputs = interrupted_inputs,
          rp_stopped_mcp_servers = count_where mcp_live (mcp_server_health h),
          rp_indeterminate_side_effects = fst effects,
          rp_cancelled_side_effect_claims = snd effects,
          rp_auto_resume_run_ids = map (rr_id \<circ> fst) (filter snd (zip active_runs eligible)),
          rp_awaiting_decision_run_ids =
            map (rr_id \<circ> fst) (filter (Not \<circ> snd) (zip active_runs eligible))\<rparr>)))))))))))))))"

definition is_recoverable :: "run_status \<Rightarrow> bool" where
  "is_recoverable st \<longleftrightarrow> st \<in> {Recovering, WaitingRecoveryDecision}"

definition fail_open_recovery :: "int \<Rightarrow> recovery_record \<Rightarrow> recovery_record" where
  "fail_open_recovery now r =
     (if rc_state r \<in> {EligibleAuto, AwaitingUser}
      then r\<lparr>rc_state := RecoveryFailed, rc_reason_code := ''run_recovery_feature_disabled'',
        rc_updated_at_ms := now\<rparr>
      else r)"

text \<open>
  With the feature disabled a second transaction takes every run out of recovery again; the
  first one stays committed whatever happens to the second.
\<close>

definition abandon_recoveries :: "int \<Rightarrow> unit tx" where
  "abandon_recoveries now =
     bind_tx (gets (\<lambda>s. filter (\<lambda>r. is_recoverable (rr_status r)) (runs s))) (\<lambda>recoverable.
     bind_tx (for_tx recoverable (\<lambda>r.
       bind_tx (modify (update_runs (\<lambda>x. rr_id x = rr_id r)
         (set_status Interrupted (Some ''run_recovery_feature_disabled'') now))) (\<lambda>_.
       emit_tx (rr_session_id r) (Some (rr_id r)) ''run.status_changed''
         (status_change_json (rr_status r) Interrupted (Some ''run_recovery_feature_disabled'')) now))) (\<lambda>_.
     modify (\<lambda>s. s\<lparr>run_recoveries := map (fail_open_recovery now) (run_recoveries s)\<rparr>)))"

definition recover_interrupted_with_run_recovery ::
    "(string \<Rightarrow> string) \<Rightarrow> int \<Rightarrow> int \<Rightarrow> bool \<Rightarrow> store \<Rightarrow> store \<times> (store_error, recovery_report) result" where
  "recover_interrupted_with_run_recovery fresh now now' run_recovery_enabled s =
     (case recover_interrupted fresh now s of
        Inl e \<Rightarrow> (s, Inl e)
      | Inr (report, s1) \<Rightarrow>
          if run_recovery_enabled \<or> rp_interrupted_runs report = 0 then (s1, Inr report)
          else (case abandon_recoveries now' s1 of
              Inl e \<Rightarrow> (s1, Inl e)
            | Inr (_, s2) \<Rightarrow> (s2, Inr (report\<lparr>rp_auto_resume_run_ids := [],
                rp_awaiting_decision_run_ids := []\<rparr>))))"

section \<open>The decision\<close>

record decision_request =
  dr_idempotency_key :: string
  dr_recovery_id :: string
  dr_expected_run_id :: string
  dr_expected_interrupted_generation :: nat
  dr_action :: decision_action

definition get_recovery :: "string \<Rightarrow> store \<Rightarrow> recovery_record option" where
  "get_recovery rid s = find (\<lambda>r. rc_id r = rid) (run_recoveries s)"

definition get_checkpoint :: "string \<Rightarrow> store \<Rightarrow> step_checkpoint option" where
  "get_checkpoint cid s = find (\<lambda>c. sc_id c = cid) (run_step_checkpoints s)"

definition recovery_checkpoint :: "recovery_record \<Rightarrow> store \<Rightarrow> step_checkpoint option" where
  "recovery_checkpoint r s =
     (case rc_checkpoint_id r of None \<Rightarrow> None | Some cid \<Rightarrow> get_checkpoint cid s)"

type_synonym recovery_snapshot = "recovery_record \<times> step_checkpoint option"

definition get_run_recovery_snapshot :: "string \<Rightarrow> store \<Rightarrow> recovery_snapshot option" where
  "get_run_recovery_snapshot rid s =
     map_option (\<lambda>r. (r, recovery_checkpoint r s)) (get_recovery rid s)"

definition list_pending_run_recoveries :: "store \<Rightarrow> recovery_snapshot list" where
  "list_pending_run_recoveries s = map (\<lambda>r. (r, recovery_checkpoint r s))
     (sort_key (\<lambda>r. (rc_created_at_ms r, text_key (rc_id r)))
       (filter (\<lambda>r. rc_state r \<in> {EligibleAuto, AwaitingUser, Resuming}) (run_recoveries s)))"

definition update_recovery_state_tx ::
    "string \<Rightarrow> recovery_state \<Rightarrow> string \<Rightarrow> decision_action \<Rightarrow> string \<Rightarrow> int \<Rightarrow> unit tx" where
  "update_recovery_state_tx rid state client action key now =
     modify (\<lambda>s. s\<lparr>run_recoveries := update_where (\<lambda>r. rc_id r = rid)
       (\<lambda>r. r\<lparr>rc_state := state, rc_decision_action := Some action,
          rc_decision_idempotency_key := Some key, rc_resolved_by := Some client,
          rc_resolved_at_ms := Some now, rc_updated_at_ms := now\<rparr>) (run_recoveries s)\<rparr>)"

definition resolve_indeterminate_side_effect_tx ::
    "string option \<Rightarrow> side_effect_status \<Rightarrow> string \<Rightarrow> int \<Rightarrow> unit tx" where
  "resolve_indeterminate_side_effect_tx effect_id status result_code now =
     (case effect_id of
        None \<Rightarrow> fail InvalidRunRecoveryDecision
      | Some eid \<Rightarrow>
          let target = (\<lambda>e. se_id e = eid \<and> se_status e = Indeterminate)
          in bind_tx (gets (\<lambda>s. count_where target (side_effect_executions s))) (\<lambda>changed.
             bind_tx (modify (update_effects target (\<lambda>e. e\<lparr>se_status := status,
               se_result_code := Some result_code, se_updated_at_ms := now\<rparr>))) (\<lambda>_.
             require (changed = 1) InvalidRunRecoveryDecision)))"

text \<open>\<open>UPDATE runs ... WHERE id, generation, status IN (recovering, waiting_recovery_decision)\<close>.\<close>

definition move_recovering_run :: "recovery_record \<Rightarrow> (run_record \<Rightarrow> run_record) \<Rightarrow> unit tx" where
  "move_recovering_run r f =
     (let target = (\<lambda>x. rr_id x = rc_run_id r \<and> rr_generation x = rc_interrupted_generation r \<and>
            is_recoverable (rr_status x))
      in bind_tx (gets (\<lambda>s. count_where target (runs s))) (\<lambda>changed.
         bind_tx (modify (update_runs target f)) (\<lambda>_.
         require (changed = 1) InvalidRunRecoveryDecision)))"

text \<open>What each decision demands before the run may go on.\<close>

definition check_decision ::
    "recovery_record \<Rightarrow> decision_action \<Rightarrow> step_checkpoint option \<Rightarrow> int \<Rightarrow> unit tx" where
  "check_decision r action checkpoint now =
     (case action of
        ResumeSafeRemainder \<Rightarrow>
          bind_tx (require (case checkpoint of None \<Rightarrow> False
              | Some c \<Rightarrow> sc_recovery_policy c \<in> {ReadOnlyReplayable, IdempotentWithReceipt})
            InvalidRunRecoveryDecision) (\<lambda>_.
          case rc_side_effect_execution_id r of
            None \<Rightarrow> ret ()
          | Some eid \<Rightarrow>
              bind_tx (expect_tx InvalidRunRecoveryDecision (get_effect eid)) (\<lambda>e.
              require (proven_safe e) InvalidRunRecoveryDecision))
      | ConfirmEffectSucceeded \<Rightarrow>
          resolve_indeterminate_side_effect_tx (rc_side_effect_execution_id r) EffectSucceeded
            ''user_confirmed_succeeded_after_restart'' now
      | RetryIdempotentEffect \<Rightarrow>
          bind_tx (require (case checkpoint of None \<Rightarrow> False
              | Some c \<Rightarrow> sc_recovery_policy c = IdempotentWithReceipt)
            InvalidRunRecoveryDecision) (\<lambda>_.
          resolve_indeterminate_side_effect_tx (rc_side_effect_execution_id r) EffectFailed
            ''user_confirmed_failed_before_idempotent_retry'' now)
      | AbandonRun \<Rightarrow> fail InvalidRunRecoveryDecision)"

text \<open>A request that repeats the decision already taken.\<close>

definition is_replay :: "decision_request \<Rightarrow> recovery_record \<Rightarrow> bool" where
  "is_replay request r \<longleftrightarrow>
     rc_run_id r = dr_expected_run_id request \<and>
     rc_interrupted_generation r = dr_expected_interrupted_generation request \<and>
     rc_decision_action r = Some (dr_action request) \<and>
     rc_decision_idempotency_key r = Some (dr_idempotency_key request)"

definition decidable_now :: "decision_request \<Rightarrow> recovery_record \<Rightarrow> bool" where
  "decidable_now request r \<longleftrightarrow>
     rc_run_id r = dr_expected_run_id request \<and>
     rc_interrupted_generation r = dr_expected_interrupted_generation request \<and>
     rc_state r \<in> {EligibleAuto, AwaitingUser}"

definition abandon_run_tx :: "recovery_record \<Rightarrow> decision_request \<Rightarrow> string \<Rightarrow> int \<Rightarrow> unit tx" where
  "abandon_run_tx r request client now =
     bind_tx (move_recovering_run r (set_status Cancelled (Some ''recovery_abandoned'') now)) (\<lambda>_.
     bind_tx (update_recovery_state_tx (rc_id r) Abandoned client (dr_action request)
       (dr_idempotency_key request) now) (\<lambda>_.
     emit_tx (rc_session_id r) (Some (rc_run_id r)) ''run.recovery_abandoned''
       (JObj [(''recoveryId'', JStr (rc_id r)),
              (''generation'', JNum (int (rc_interrupted_generation r)))]) now))"

definition resume_run_tx :: "recovery_record \<Rightarrow> decision_request \<Rightarrow> string \<Rightarrow> int \<Rightarrow> unit tx" where
  "resume_run_tx r request client now =
     bind_tx (gets (recovery_checkpoint r)) (\<lambda>checkpoint.
     bind_tx (check_decision r (dr_action request) checkpoint now) (\<lambda>_.
     bind_tx (move_recovering_run r (\<lambda>x. x\<lparr>rr_status := Queued,
       rr_generation := rc_resume_generation r, rr_failure_code := None, rr_updated_at_ms := now\<rparr>)) (\<lambda>_.
     bind_tx (update_recovery_state_tx (rc_id r) Resuming client (dr_action request)
       (dr_idempotency_key request) now) (\<lambda>_.
     emit_tx (rc_session_id r) (Some (rc_run_id r)) ''run.recovery_resuming''
       (JObj [(''recoveryId'', JStr (rc_id r)),
              (''fromGeneration'', JNum (int (rc_interrupted_generation r))),
              (''toGeneration'', JNum (int (rc_resume_generation r))),
              (''decision'', JStr (decision_action_str (dr_action request)))]) now))))"

definition resolve_run_recovery :: "decision_request \<Rightarrow> string \<Rightarrow> int \<Rightarrow> recovery_snapshot tx" where
  "resolve_run_recovery request client now =
     bind_tx (expect_tx (RunRecoveryNotFound (dr_recovery_id request))
       (get_recovery (dr_recovery_id request))) (\<lambda>r.
     bind_tx
       (if is_replay request r then ret ()
        else bind_tx (require (decidable_now request r) InvalidRunRecoveryDecision) (\<lambda>_.
          if dr_action request = AbandonRun then abandon_run_tx r request client now
          else resume_run_tx r request client now)) (\<lambda>_.
     expect_tx (RunRecoveryNotFound (rc_id r)) (get_run_recovery_snapshot (rc_id r))))"

definition finish_run_recovery :: "string \<Rightarrow> nat \<Rightarrow> bool \<Rightarrow> int \<Rightarrow> unit tx" where
  "finish_run_recovery run_id generation succeeded now =
     modify (\<lambda>s. s\<lparr>run_recoveries := update_where
       (\<lambda>r. rc_run_id r = run_id \<and> rc_resume_generation r = generation \<and> rc_state r = Resuming)
       (\<lambda>r. r\<lparr>rc_state := (if succeeded then Resumed else RecoveryFailed), rc_updated_at_ms := now\<rparr>)
       (run_recoveries s)\<rparr>)"

section \<open>The fence of a resumed run\<close>

datatype recovery_tool_fence =
    ReuseCompleted bool "json option"
  | RetryWithIdempotencyKey string

text \<open>The recovery joined with its checkpoint: the run and generation determine one row.\<close>

definition fenced_recovery :: "string \<Rightarrow> nat \<Rightarrow> string \<Rightarrow> string \<Rightarrow> store \<Rightarrow> (recovery_record \<times> step_checkpoint) option" where
  "fenced_recovery run_id generation tool_name parameter_hash s =
     find (\<lambda>(r, c). rc_run_id r = run_id \<and> rc_resume_generation r = generation \<and>
         rc_state r = Resuming \<and> sc_tool_name c = Some tool_name \<and>
         sc_parameter_hash c = Some parameter_hash)
       (List.map_filter (\<lambda>r. map_option (Pair r) (recovery_checkpoint r s)) (run_recoveries s))"

definition fenced_effect :: "recovery_record \<Rightarrow> step_checkpoint \<Rightarrow> store \<Rightarrow> side_effect_row option" where
  "fenced_effect r c s =
     (case rc_side_effect_execution_id r of
        Some eid \<Rightarrow> get_effect eid s
      | None \<Rightarrow> (case sc_tool_call_id c of
          None \<Rightarrow> None
        | Some call \<Rightarrow> last_max se_updated_at_ms
            (filter (\<lambda>e. se_run_id e = rc_run_id r \<and> se_run_generation e = rc_interrupted_generation r \<and>
              se_tool_call_id e = call) (side_effect_executions s))))"

definition recovery_tool_fence ::
    "string \<Rightarrow> nat \<Rightarrow> string \<Rightarrow> string \<Rightarrow> store \<Rightarrow> recovery_tool_fence option" where
  "recovery_tool_fence run_id generation tool_name parameter_hash s =
     (case fenced_recovery run_id generation tool_name parameter_hash s of
        None \<Rightarrow> None
      | Some (r, c) \<Rightarrow>
          (case fenced_effect r c s of
             None \<Rightarrow> None
           | Some e \<Rightarrow>
               if rc_decision_action r = Some RetryIdempotentEffect \<or>
                  rc_decision_action r = Some ResumeSafeRemainder \<and> se_status e = EffectCancelled \<and>
                  se_result_code e = Some ''cancelled_before_dispatch_on_restart''
               then Some (RetryWithIdempotencyKey (se_idempotency_key e))
               else if se_status e \<in> {EffectSucceeded, EffectFailed}
               then Some (ReuseCompleted (se_status e = EffectSucceeded) (se_result_json e))
               else None))"

end
