(* ===== verification/Store_Inputs.thy ===== *)
theory Store_Inputs
  imports Store_Recovery
begin

text \<open>
  User input requests (\<open>agent_store/user_input.rs\<close>): a running run asks up to three questions
  and waits; the answers resolve the request, and what is kept of them hides the secrets.
\<close>

section \<open>Validation\<close>

definition blank :: "string \<Rightarrow> bool" where
  "blank t \<longleftrightarrow> trim t = []"

text \<open>The checks of one question in order; the ids seen so far are the first argument.\<close>

definition check_question :: "string set \<Rightarrow> user_input_question \<Rightarrow> (store_error, unit) result" where
  "check_question ids q =
     (if blank (uq_id q) \<or> 64 < length (uq_id q) \<or> uq_id q \<in> ids
      then Inl (InvalidUserInputAnswer ''question IDs must be unique and bounded'')
      else if blank (uq_header q) \<or> 64 < chars_count (uq_header q) \<or> blank (uq_prompt q) \<or>
              4096 < chars_count (uq_prompt q)
      then Inl (InvalidUserInputAnswer ''question text is invalid'')
      else if uq_options q \<noteq> [] \<and> length (uq_options q) \<notin> {2, 3}
      then Inl (InvalidUserInputAnswer ''choice questions require two or three options'')
      else if uq_secret q \<and> (uq_options q \<noteq> [] \<or> uq_default_answer q \<noteq> None)
      then Inl (InvalidUserInputAnswer ''secret questions cannot contain options or defaults'')
      else if uq_auto_resolution_ms q = Some 0
      then Inl (InvalidUserInputAnswer ''auto-resolution timeout must be positive'')
      else Inr ())"

fun check_questions :: "string set \<Rightarrow> user_input_question list \<Rightarrow> (store_error, unit) result" where
  "check_questions ids [] = Inr ()"
| "check_questions ids (q # qs) =
     rbind (check_question ids q) (\<lambda>_. check_questions (insert (uq_id q) ids) qs)"

definition validate_questions :: "user_input_record \<Rightarrow> (store_error, unit) result" where
  "validate_questions request =
     (if ui_questions request = [] \<or> 3 < length (ui_questions request)
      then Inl (InvalidUserInputAnswer ''question count must be between one and three'')
      else check_questions {} (ui_questions request))"

record user_input_answer =
  ua_question_id :: string
  ua_value :: string

fun collect_answers ::
    "(string \<times> string) list \<Rightarrow> user_input_answer list \<Rightarrow> (store_error, (string \<times> string) list) result" where
  "collect_answers acc [] = Inr acc"
| "collect_answers acc (a # as) =
     (if 32000 < chars_count (ua_value a) \<or> map_of acc (ua_question_id a) \<noteq> None
      then Inl (InvalidUserInputAnswer ''answer is duplicated or too large'')
      else collect_answers ((ua_question_id a, ua_value a) # acc) as)"

fun check_answers :: "(string \<times> string) list \<Rightarrow> user_input_question list \<Rightarrow> (store_error, unit) result" where
  "check_answers by_id [] = Inr ()"
| "check_answers by_id (q # qs) =
     (case map_of by_id (uq_id q) of
        None \<Rightarrow> Inl (InvalidUserInputAnswer ''answer question ID is unknown'')
      | Some answer \<Rightarrow>
          if uq_options q \<noteq> [] \<and> \<not> list_ex (\<lambda>opt. uo_value opt = answer) (uq_options q)
          then Inl (InvalidUserInputAnswer ''choice answer is not one of the declared options'')
          else check_answers by_id qs)"

definition validate_answers :: "user_input_record \<Rightarrow> user_input_answer list \<Rightarrow> (store_error, unit) result" where
  "validate_answers request answers =
     (if length answers \<noteq> length (ui_questions request)
      then Inl (InvalidUserInputAnswer ''all questions must be answered exactly once'')
      else rbind (collect_answers [] answers) (\<lambda>by_id. check_answers by_id (ui_questions request)))"

definition lift_result :: "(store_error, 'a) result \<Rightarrow> 'a tx" where
  "lift_result r = (\<lambda>s. case r of Inl e \<Rightarrow> Inl e | Inr a \<Rightarrow> Inr (a, s))"

section \<open>Requests\<close>

definition create_user_input_request :: "user_input_record \<Rightarrow> user_input_record tx" where
  "create_user_input_request request =
     bind_tx (lift_result (validate_questions request)) (\<lambda>_.
     bind_tx (get_run_tx (ui_run_id request)) (\<lambda>run.
     bind_tx (require (rr_session_id run = ui_session_id request \<and>
         rr_generation run = ui_run_generation request \<and> rr_status run = Running \<and>
         ui_status request = InputPending) RunPreconditionFailed) (\<lambda>_.
     bind_tx (next_sequence_tx (ui_session_id request) (ui_created_at_ms request)) (\<lambda>sequence.
     bind_tx (insert_item
       \<lparr>ti_id = ui_item_id request, ti_session_id = ui_session_id request,
        ti_run_id = Some (ui_run_id request), ti_sequence = sequence,
        ti_kind = UserInputRequest_Item, ti_status = InProgress,
        ti_payload = UserInputRequestPayload (ui_id request) (ui_questions request) [],
        ti_relations = JObj [(''userInputRequestId'', JStr (ui_id request))],
        ti_created_at_ms = ui_created_at_ms request\<rparr>) (\<lambda>_.
     bind_tx (insert_user_input (request\<lparr>ui_display_answers := [], ui_resolved_at_ms := None,
       ui_resolved_by := None\<rparr>)) (\<lambda>_.
     bind_tx (modify (update_runs (\<lambda>r. rr_id r = ui_run_id request)
       (\<lambda>r. r\<lparr>rr_status := WaitingUserInput, rr_updated_at_ms := ui_created_at_ms request\<rparr>))) (\<lambda>_.
     bind_tx (emit_tx (ui_session_id request) (Some (ui_run_id request)) ''user_input.requested''
       (JObj [(''requestId'', JStr (ui_id request)), (''itemId'', JStr (ui_item_id request)),
              (''questionCount'', JNum (int (length (ui_questions request))))])
       (ui_created_at_ms request)) (\<lambda>_.
     ret request))))))))"

definition get_user_input_request :: "string \<Rightarrow> store \<Rightarrow> user_input_record option" where
  "get_user_input_request uid s = find (\<lambda>u. ui_id u = uid) (user_input_requests s)"

definition list_pending_user_inputs :: "string option \<Rightarrow> store \<Rightarrow> user_input_record list" where
  "list_pending_user_inputs sid s = sort_key (\<lambda>u. (ui_created_at_ms u, text_key (ui_id u)))
     (filter (\<lambda>u. input_pending u \<and> (case sid of None \<Rightarrow> True | Some x \<Rightarrow> ui_session_id u = x))
       (user_input_requests s))"

datatype resolution_action = Submit | Decline | CancelInput

fun resolution_action_str :: "resolution_action \<Rightarrow> string" where
  "resolution_action_str Submit = ''submit''"
| "resolution_action_str Decline = ''decline''"
| "resolution_action_str CancelInput = ''cancel''"

record user_input_resolution =
  ur_request_id :: string
  ur_expected_run_id :: string
  ur_expected_generation :: nat
  ur_action :: resolution_action
  ur_answers :: "user_input_answer list"
  ur_resolved_by :: string
  ur_resolved_at_ms :: int

fun resolution_outcome :: "resolution_action \<Rightarrow> user_input_status \<times> item_status \<times> string" where
  "resolution_outcome Submit = (InputResolved, ItemCompleted_Status, ''user_input.resolved'')"
| "resolution_outcome Decline = (InputCancelled, ItemInterrupted, ''user_input.declined'')"
| "resolution_outcome CancelInput = (InputCancelled, ItemInterrupted, ''user_input.cancelled'')"

text \<open>What is kept of an answer: nothing but the fact that it was given, for a secret question.\<close>

definition display_answer :: "user_input_question list \<Rightarrow> user_input_answer \<Rightarrow> user_input_display_answer" where
  "display_answer questions a =
     (let secret = (case find (\<lambda>q. uq_id q = ua_question_id a) questions of
          None \<Rightarrow> False | Some q \<Rightarrow> uq_secret q)
      in \<lparr>da_question_id = ua_question_id a,
          da_value = (if secret then None else Some (ua_value a)), da_secret_provided = secret\<rparr>)"

text \<open>
  The writes of a resolution: the request, its transcript item, the run, and two events. Of the
  answers themselves only the number is used here.
\<close>

definition settle_user_input ::
    "user_input_resolution \<Rightarrow> user_input_record \<Rightarrow> user_input_display_answer list \<Rightarrow> user_input_record tx" where
  "settle_user_input resolution request answers =
     (let (request_status, item_status, event) = resolution_outcome (ur_action resolution);
         settle = (\<lambda>u. u\<lparr>ui_status := request_status, ui_display_answers := answers,
           ui_resolved_at_ms := Some (ur_resolved_at_ms resolution),
           ui_resolved_by := Some (ur_resolved_by resolution)\<rparr>);
         pending = (\<lambda>u. ui_id u = ui_id request \<and> input_pending u)
     in bind_tx (gets (\<lambda>s. count_where pending (user_input_requests s))) (\<lambda>affected.
        bind_tx (modify (update_inputs pending settle)) (\<lambda>_.
        bind_tx (require (affected = 1) (UserInputNotPending (ui_id request))) (\<lambda>_.
        bind_tx (modify (update_items (\<lambda>i. ti_id i = ui_item_id request)
          (\<lambda>i. i\<lparr>ti_status := item_status, ti_payload :=
            UserInputRequestPayload (ui_id request) (ui_questions request) answers\<rparr>))) (\<lambda>_.
        bind_tx (modify (update_runs (\<lambda>r. rr_id r = ui_run_id request)
          (\<lambda>r. r\<lparr>rr_status := Running, rr_updated_at_ms := ur_resolved_at_ms resolution\<rparr>))) (\<lambda>_.
        bind_tx (expect_tx Database (get_item (ui_item_id request))) (\<lambda>item.
        bind_tx (emit_tx (ui_session_id request) (Some (ui_run_id request)) event
          (JObj [(''requestId'', JStr (ui_id request)), (''itemId'', JStr (ui_item_id request)),
                 (''answerCount'', JNum (int (length (ur_answers resolution)))),
                 (''action'', JStr (resolution_action_str (ur_action resolution)))])
          (ur_resolved_at_ms resolution)) (\<lambda>_.
        bind_tx (emit_typed_tx (ui_session_id request) (Some (ui_run_id request))
          (ItemCompleted (item\<lparr>ti_session_id := ui_session_id request\<rparr>))
          (ur_resolved_at_ms resolution)) (\<lambda>_.
        ret (settle request))))))))))"

definition resolve_user_input :: "user_input_resolution \<Rightarrow> user_input_record tx" where
  "resolve_user_input resolution =
     bind_tx (expect_tx (UserInputNotFound (ur_request_id resolution))
       (get_user_input_request (ur_request_id resolution))) (\<lambda>request.
     bind_tx (require (ui_status request = InputPending) (UserInputNotPending (ui_id request))) (\<lambda>_.
     bind_tx (require (ui_run_id request = ur_expected_run_id resolution \<and>
         ui_run_generation request = ur_expected_generation resolution) StaleUserInputResolution) (\<lambda>_.
     bind_tx (get_run_tx (ui_run_id request)) (\<lambda>run.
     bind_tx (require (rr_generation run = ui_run_generation request \<and>
         rr_status run = WaitingUserInput) StaleUserInputResolution) (\<lambda>_.
     bind_tx (if ur_action resolution = Submit
         then lift_result (validate_answers request (ur_answers resolution))
         else require (ur_answers resolution = [])
           (InvalidUserInputAnswer ''decline and cancel resolutions cannot contain answers'')) (\<lambda>_.
     settle_user_input resolution request
       (if ur_action resolution = Submit
        then map (display_answer (ui_questions request)) (ur_answers resolution) else [])))))))"

definition cancel_run_user_inputs :: "string \<Rightarrow> int \<Rightarrow> string \<Rightarrow> nat tx" where
  "cancel_run_user_inputs run_id resolved_at_ms resolved_by =
     bind_tx (gets (\<lambda>s. filter (\<lambda>u. ui_run_id u = run_id \<and> input_pending u)
       (user_input_requests s))) (\<lambda>rows.
     bind_tx (for_tx rows (\<lambda>u.
       bind_tx (modify (update_inputs (\<lambda>v. ui_id v = ui_id u \<and> input_pending v)
         (\<lambda>v. v\<lparr>ui_status := InputCancelled, ui_resolved_at_ms := Some resolved_at_ms,
           ui_resolved_by := Some resolved_by\<rparr>))) (\<lambda>_.
       bind_tx (modify (update_items (\<lambda>i. ti_id i = ui_item_id u)
         (\<lambda>i. i\<lparr>ti_status := ItemInterrupted\<rparr>))) (\<lambda>_.
       emit_tx (ui_session_id u) (Some run_id) ''user_input.cancelled''
         (JObj [(''requestId'', JStr (ui_id u))]) resolved_at_ms)))) (\<lambda>_.
     ret (length rows)))"

definition expire_user_input :: "string \<Rightarrow> int \<Rightarrow> user_input_record tx" where
  "expire_user_input request_id resolved_at_ms =
     bind_tx (expect_tx (UserInputNotFound request_id) (get_user_input_request request_id)) (\<lambda>request.
     bind_tx (require (ui_status request = InputPending) (UserInputNotPending (ui_id request))) (\<lambda>_.
     let settle = (\<lambda>u. u\<lparr>ui_status := InputExpired, ui_resolved_at_ms := Some resolved_at_ms,
           ui_resolved_by := Some ''system:expired''\<rparr>)
     in bind_tx (modify (update_inputs (\<lambda>u. ui_id u = ui_id request \<and> input_pending u) settle)) (\<lambda>_.
        bind_tx (modify (update_items (\<lambda>i. ti_id i = ui_item_id request)
          (\<lambda>i. i\<lparr>ti_status := ItemInterrupted\<rparr>))) (\<lambda>_.
        bind_tx (modify (update_runs
          (\<lambda>r. rr_id r = ui_run_id request \<and> rr_status r = WaitingUserInput)
          (\<lambda>r. r\<lparr>rr_status := Running, rr_updated_at_ms := resolved_at_ms\<rparr>))) (\<lambda>_.
        bind_tx (emit_tx (ui_session_id request) (Some (ui_run_id request)) ''user_input.expired''
          (JObj [(''requestId'', JStr (ui_id request)), (''itemId'', JStr (ui_item_id request))])
          resolved_at_ms) (\<lambda>_.
        ret (settle request)))))))"

end
