(* ===== verification/Store_Order.thy ===== *)
theory Store_Order
  imports Store_Inputs
begin

text \<open>
  How the store may change: a relation between the rows before and after for every table, and
  the well-formedness of a store. \<open>store_ok\<close> collects what the schema and the allocation of
  sequence numbers guarantee, \<open>store_le\<close> what no operation ever undoes. Both together are a
  \<open>store_order\<close>, so that the rules of that locale establish them for every operation.
\<close>

named_theorems ok_intros \<open>rules that establish the order of the store for a transaction\<close>

section \<open>Statuses only move forward\<close>

fun side_effect_rank :: "side_effect_status \<Rightarrow> nat" where
  "side_effect_rank Claimed = 0"
| "side_effect_rank Dispatched = 1"
| "side_effect_rank Indeterminate = 2"
| "side_effect_rank _ = 3"

instantiation side_effect_status :: order
begin

definition less_eq_side_effect_status :: "side_effect_status \<Rightarrow> side_effect_status \<Rightarrow> bool" where
  "less_eq_side_effect_status a b \<longleftrightarrow> a = b \<or> side_effect_rank a < side_effect_rank b"

definition less_side_effect_status :: "side_effect_status \<Rightarrow> side_effect_status \<Rightarrow> bool" where
  "less_side_effect_status a b \<longleftrightarrow> side_effect_rank a < side_effect_rank b"

instance
  by intro_classes (auto simp: less_eq_side_effect_status_def less_side_effect_status_def)

end

fun recovery_rank :: "recovery_state \<Rightarrow> nat" where
  "recovery_rank EligibleAuto = 0"
| "recovery_rank AwaitingUser = 0"
| "recovery_rank Resuming = 1"
| "recovery_rank _ = 2"

instantiation recovery_state :: order
begin

definition less_eq_recovery_state :: "recovery_state \<Rightarrow> recovery_state \<Rightarrow> bool" where
  "less_eq_recovery_state a b \<longleftrightarrow> a = b \<or> recovery_rank a < recovery_rank b"

definition less_recovery_state :: "recovery_state \<Rightarrow> recovery_state \<Rightarrow> bool" where
  "less_recovery_state a b \<longleftrightarrow> recovery_rank a < recovery_rank b"

instance
  by intro_classes (auto simp: less_eq_recovery_state_def less_recovery_state_def)

end

lemmas status_order = less_eq_side_effect_status_def less_side_effect_status_def
  less_eq_recovery_state_def less_recovery_state_def

text \<open>The statuses a run never leaves.\<close>

definition settled :: "run_status \<Rightarrow> bool" where
  "settled st \<longleftrightarrow> st \<in> {Succeeded, Failed, TimedOut, Cancelled}"

section \<open>Rows\<close>

definition session_le :: "session_row \<Rightarrow> session_row \<Rightarrow> bool" where
  "session_le x y \<longleftrightarrow> ss_id y = ss_id x \<and> ss_next_sequence x \<le> ss_next_sequence y"

definition run_le :: "run_record \<Rightarrow> run_record \<Rightarrow> bool" where
  "run_le x y \<longleftrightarrow> rr_id y = rr_id x \<and> rr_session_id y = rr_session_id x \<and>
     rr_created_at_ms y = rr_created_at_ms x \<and> rr_configuration y = rr_configuration x \<and>
     rr_generation x \<le> rr_generation y \<and>
     (settled (rr_status x) \<longrightarrow>
       rr_status y = rr_status x \<and> rr_generation y = rr_generation x)"

definition item_le :: "transcript_item \<Rightarrow> transcript_item \<Rightarrow> bool" where
  "item_le x y \<longleftrightarrow> ti_id y = ti_id x \<and> ti_session_id y = ti_session_id x \<and>
     ti_run_id y = ti_run_id x \<and> ti_sequence y = ti_sequence x \<and>
     ti_created_at_ms y = ti_created_at_ms x"

definition approval_request_of :: "approval_record \<Rightarrow> approval_record" where
  "approval_request_of a = a\<lparr>ap_status := Pending, ap_uses_remaining := 0, ap_resolved_by := None,
     ap_resolved_at_ms := None\<rparr>"

definition approval_le :: "approval_record \<Rightarrow> approval_record \<Rightarrow> bool" where
  "approval_le x y \<longleftrightarrow> approval_request_of y = approval_request_of x \<and>
     ap_uses_remaining y \<le> ap_uses_remaining x \<and>
     (ap_status x \<noteq> Pending \<longrightarrow> ap_status y = ap_status x \<and>
       ap_resolved_by y = ap_resolved_by x \<and> ap_resolved_at_ms y = ap_resolved_at_ms x) \<and>
     (ap_uses_remaining y \<noteq> ap_uses_remaining x \<longrightarrow> ap_status y = Approved)"

definition effect_identity :: "side_effect_row \<Rightarrow> side_effect_row" where
  "effect_identity e = e\<lparr>se_status := Claimed, se_host_request_id := None, se_result_code := None,
     se_result_reference := None, se_updated_at_ms := 0, se_result_json := None\<rparr>"

definition effect_le :: "side_effect_row \<Rightarrow> side_effect_row \<Rightarrow> bool" where
  "effect_le x y \<longleftrightarrow> effect_identity y = effect_identity x \<and> se_status x \<le> se_status y \<and>
     (se_status x \<in> {EffectSucceeded, EffectFailed, EffectCancelled} \<longrightarrow> y = x)"

definition recovery_case :: "recovery_record \<Rightarrow> recovery_record" where
  "recovery_case r = r\<lparr>rc_state := EligibleAuto, rc_reason_code := [], rc_decision_action := None,
     rc_decision_idempotency_key := None, rc_resolved_by := None, rc_resolved_at_ms := None,
     rc_updated_at_ms := 0\<rparr>"

definition recovery_le :: "recovery_record \<Rightarrow> recovery_record \<Rightarrow> bool" where
  "recovery_le x y \<longleftrightarrow> recovery_case y = recovery_case x \<and>
     (rc_state x \<in> {EligibleAuto, AwaitingUser} \<or> rc_state x \<le> rc_state y \<and>
       rc_decision_action y = rc_decision_action x \<and>
       rc_decision_idempotency_key y = rc_decision_idempotency_key x)"

definition input_le :: "user_input_record \<Rightarrow> user_input_record \<Rightarrow> bool" where
  "input_le x y \<longleftrightarrow> ui_id y = ui_id x \<and> ui_session_id y = ui_session_id x \<and>
     ui_run_id y = ui_run_id x \<and> ui_run_generation y = ui_run_generation x \<and>
     ui_item_id y = ui_item_id x \<and> ui_questions y = ui_questions x \<and>
     (ui_status x \<noteq> InputPending \<longrightarrow> y = x)"

interpretation session_row: row_order session_le
  by unfold_locales (auto simp: session_le_def)

interpretation run_row: row_order run_le
  by unfold_locales (auto simp: run_le_def)

interpretation item_row: row_order item_le
  by unfold_locales (auto simp: item_le_def)

interpretation approval_row: row_order approval_le
  by unfold_locales (auto simp: approval_le_def)

interpretation effect_row: row_order effect_le
  by unfold_locales (auto simp: effect_le_def)

lemma recovery_rank_le: "(x::recovery_state) \<le> y \<Longrightarrow> x \<notin> {EligibleAuto, AwaitingUser} \<Longrightarrow> y \<notin> {EligibleAuto, AwaitingUser}"
  by (cases x; cases y) (simp_all add: status_order)

interpretation recovery_row: row_order recovery_le
proof
  fix x y z
  assume "recovery_le x y" and "recovery_le y z"
  then show "recovery_le x z"
    unfolding recovery_le_def using recovery_rank_le [of "rc_state x" "rc_state y"] by auto
qed (simp add: recovery_le_def)

interpretation input_row: row_order input_le
  by unfold_locales (auto simp: input_le_def)

section \<open>The store\<close>

text \<open>Everything that carries a sequence number of a session: events, items, live deltas.\<close>

definition log_keys :: "store \<Rightarrow> (string \<times> nat) list" where
  "log_keys s = map (\<lambda>e. (ev_session_id e, ev_sequence e)) (run_events s) @
     map (\<lambda>i. (ti_session_id i, ti_sequence i)) (transcript_items s)"

definition next_sequence_of :: "string \<Rightarrow> store \<Rightarrow> nat" where
  "next_sequence_of sid s = (case get_session sid s of None \<Rightarrow> 0 | Some r \<Rightarrow> ss_next_sequence r)"

text \<open>
  Primary keys and the resume generation of a recovery, one sequence number per entry of a
  session, numbers below the next one, and every claimed approval and every session of a run
  present.
\<close>

definition keys_ok :: "store \<Rightarrow> bool" where
  "keys_ok s \<longleftrightarrow> distinct (map ss_id (sessions s)) \<and> distinct (map rr_id (runs s)) \<and>
     distinct (map ti_id (transcript_items s)) \<and> distinct (map ap_id (approval_requests s)) \<and>
     distinct (map se_id (side_effect_executions s)) \<and>
     distinct (map effect_key (side_effect_executions s)) \<and>
     distinct (map rc_id (run_recoveries s)) \<and> distinct (map ui_id (user_input_requests s)) \<and>
     list_all (\<lambda>r. rc_resume_generation r = rc_interrupted_generation r + 1) (run_recoveries s)"

definition log_ok :: "store \<Rightarrow> bool" where
  "log_ok s \<longleftrightarrow> distinct (log_keys s) \<and>
     (\<forall>(sid, q) \<in> set (log_keys s). 0 < q \<and> q < next_sequence_of sid s) \<and>
     (\<forall>r \<in> set (sessions s). 0 < ss_next_sequence r)"

definition claims_ok :: "store \<Rightarrow> bool" where
  "claims_ok s \<longleftrightarrow> (\<forall>e \<in> set (side_effect_executions s). opt_exists approval_exists (se_approval_id e) s)"

definition runs_ok :: "store \<Rightarrow> bool" where
  "runs_ok s \<longleftrightarrow> rr_session_id ` set (runs s) \<subseteq> ss_id ` set (sessions s)"

definition store_ok :: "store \<Rightarrow> bool" where
  "store_ok s \<longleftrightarrow> keys_ok s \<and> log_ok s \<and> claims_ok s \<and> runs_ok s"

definition store_le :: "store \<Rightarrow> store \<Rightarrow> bool" where
  "store_le s s' \<longleftrightarrow>
     evolves session_le (sessions s) (sessions s') \<and>
     evolves run_le (runs s) (runs s') \<and>
     evolves (=) (run_events s) (run_events s') \<and>
     evolves item_le (transcript_items s) (transcript_items s') \<and>
     evolves approval_le (approval_requests s) (approval_requests s') \<and>
     evolves effect_le (side_effect_executions s) (side_effect_executions s') \<and>
     evolves (=) (run_step_checkpoints s) (run_step_checkpoints s') \<and>
     evolves recovery_le (run_recoveries s) (run_recoveries s') \<and>
     evolves (=) (idempotency_records s) (idempotency_records s') \<and>
     evolves (=) (compaction_checkpoints s) (compaction_checkpoints s') \<and>
     evolves input_le (user_input_requests s) (user_input_requests s')"

lemmas evolves_refls = session_row.evolves_refl run_row.evolves_refl item_row.evolves_refl
  approval_row.evolves_refl effect_row.evolves_refl recovery_row.evolves_refl
  input_row.evolves_refl same_row.evolves_refl

lemmas evolves_inserts = session_row.evolves_insert run_row.evolves_insert item_row.evolves_insert
  approval_row.evolves_insert effect_row.evolves_insert recovery_row.evolves_insert
  input_row.evolves_insert same_row.evolves_insert

lemma store_le_refl: "store_le s s"
  by (simp add: store_le_def evolves_refls)

lemma store_le_trans: "store_le s s' \<Longrightarrow> store_le s' s'' \<Longrightarrow> store_le s s''"
  unfolding store_le_def
  by (blast intro: session_row.evolves_trans run_row.evolves_trans item_row.evolves_trans
      approval_row.evolves_trans effect_row.evolves_trans recovery_row.evolves_trans
      input_row.evolves_trans same_row.evolves_trans)

text \<open>From a well-formed store an operation leads to a well-formed later store.\<close>

definition advances :: "store \<Rightarrow> store \<Rightarrow> bool" where
  "advances s s' \<longleftrightarrow> (store_ok s \<longrightarrow> store_ok s' \<and> store_le s s')"

interpretation adv: store_order advances
  by unfold_locales (auto simp: advances_def store_le_refl intro: store_le_trans)

lemma advI: "(store_ok s \<Longrightarrow> store_ok s' \<and> store_le s s') \<Longrightarrow> advances s s'"
  by (simp add: advances_def)

lemma adv_assume: "(store_ok s \<Longrightarrow> tx_rel advances s m) \<Longrightarrow> tx_rel advances s m"
  by (auto simp: tx_rel_def advances_def split: sum.splits)

end
