(* ===== verification/Store_Rules.thy ===== *)
theory Store_Rules
  imports Store_Order
begin

text \<open>
  The order of the store for every statement: updates of one table, insertions, the allocation
  of a sequence number. The rules are collected in \<open>ok_intros\<close>; the operations are composed of
  them.
\<close>

lemmas ok_defs = store_ok_def runs_ok_def store_le_def keys_ok_def log_ok_def claims_ok_def log_keys_def
  next_sequence_of_def get_session_def opt_exists_def approval_exists_def

section \<open>Updates\<close>

text \<open>Tables outside the order may change freely.\<close>

lemma adv_frame:
  assumes "sessions s' = sessions s" "runs s' = runs s" "run_events s' = run_events s"
    "transcript_items s' = transcript_items s" "approval_requests s' = approval_requests s"
    "side_effect_executions s' = side_effect_executions s"
    "run_step_checkpoints s' = run_step_checkpoints s" "run_recoveries s' = run_recoveries s"
    "idempotency_records s' = idempotency_records s"
    "compaction_checkpoints s' = compaction_checkpoints s"
    "user_input_requests s' = user_input_requests s"
  shows "advances s s'"
  by (rule advI) (simp add: ok_defs evolves_refls assms split: option.splits)

lemma adv_update_runs:
  assumes "\<And>x. store_ok s \<Longrightarrow> x \<in> set (runs s) \<Longrightarrow> p x \<Longrightarrow> run_le x (f x)"
  shows "advances s (update_runs p f s)"
proof (rule advI)
  assume ok: "store_ok s"
  have *: "map rr_id (update_where p f (runs s)) = map rr_id (runs s)"
    using assms [OF ok] by (intro map_update_where) (simp add: run_le_def)
  have "map rr_session_id (update_where p f (runs s)) = map rr_session_id (runs s)"
    using assms [OF ok] by (intro map_update_where) (simp add: run_le_def)
  then have **: "rr_session_id ` set (update_where p f (runs s)) = rr_session_id ` set (runs s)"
    by (metis list.set_map)
  show "store_ok (update_runs p f s) \<and> store_le s (update_runs p f s)"
    using ok assms [OF ok]
    by (simp add: update_runs_def ok_defs * ** evolves_refls run_row.evolves_update split: option.splits)
qed

lemma adv_update_items:
  assumes "\<And>x. store_ok s \<Longrightarrow> x \<in> set (transcript_items s) \<Longrightarrow> p x \<Longrightarrow> item_le x (f x)"
  shows "advances s (update_items p f s)"
proof (rule advI)
  assume ok: "store_ok s"
  have *: "map ti_id (update_where p f (transcript_items s)) = map ti_id (transcript_items s)"
    "map (\<lambda>i. (ti_session_id i, ti_sequence i)) (update_where p f (transcript_items s)) =
     map (\<lambda>i. (ti_session_id i, ti_sequence i)) (transcript_items s)"
    using assms [OF ok] by (intro map_update_where; simp add: item_le_def)+
  have log: "log_keys (update_items p f s) = log_keys s"
    by (simp add: log_keys_def update_items_def *)
  have next': "next_sequence_of sid (update_items p f s) = next_sequence_of sid s" for sid
    by (simp add: next_sequence_of_def get_session_def update_items_def)
  have "keys_ok (update_items p f s)" and "claims_ok (update_items p f s)"
    and "runs_ok (update_items p f s)"
    using ok by (simp_all add: store_ok_def keys_ok_def claims_ok_def runs_ok_def update_items_def *
        opt_exists_def approval_exists_def split: option.splits)
  moreover have "log_ok (update_items p f s)"
    using ok unfolding store_ok_def log_ok_def log next' by (simp add: update_items_def)
  moreover have "store_le s (update_items p f s)"
    using assms [OF ok] by (simp add: store_le_def update_items_def evolves_refls item_row.evolves_update)
  ultimately show "store_ok (update_items p f s) \<and> store_le s (update_items p f s)"
    by (simp add: store_ok_def)
qed

lemma approval_le_id: "approval_le x y \<Longrightarrow> ap_id y = ap_id x"
  by (auto simp: approval_le_def approval_request_of_def dest!: arg_cong [where f = ap_id])

lemma effect_le_key:
  assumes "effect_le x y"
  shows "se_id y = se_id x" and "effect_key y = effect_key x" and "se_approval_id y = se_approval_id x"
proof -
  have eq: "effect_identity y = effect_identity x" using assms by (simp add: effect_le_def)
  show "se_id y = se_id x" using arg_cong [OF eq, of se_id] by (simp add: effect_identity_def)
  show "effect_key y = effect_key x"
    using arg_cong [OF eq, of effect_key] by (simp add: effect_identity_def effect_key_def)
  show "se_approval_id y = se_approval_id x"
    using arg_cong [OF eq, of se_approval_id] by (simp add: effect_identity_def)
qed

lemma recovery_le_fields:
  assumes "recovery_le x y"
  shows "rc_id y = rc_id x" "rc_resume_generation y = rc_resume_generation x"
    "rc_interrupted_generation y = rc_interrupted_generation x"
proof -
  have eq: "recovery_case y = recovery_case x" using assms by (simp add: recovery_le_def)
  show "rc_id y = rc_id x" using arg_cong [OF eq, of rc_id] by (simp add: recovery_case_def)
  show "rc_resume_generation y = rc_resume_generation x"
    using arg_cong [OF eq, of rc_resume_generation] by (simp add: recovery_case_def)
  show "rc_interrupted_generation y = rc_interrupted_generation x"
    using arg_cong [OF eq, of rc_interrupted_generation] by (simp add: recovery_case_def)
qed

lemma adv_update_approvals:
  assumes "\<And>x. store_ok s \<Longrightarrow> x \<in> set (approval_requests s) \<Longrightarrow> p x \<Longrightarrow> approval_le x (f x)"
  shows "advances s (update_approvals p f s)"
proof (rule advI)
  assume ok: "store_ok s"
  have *: "map ap_id (update_where p f (approval_requests s)) = map ap_id (approval_requests s)"
    using assms [OF ok] by (intro map_update_where) (rule approval_le_id)
  have **: "ap_id ` set (update_where p f (approval_requests s)) = ap_id ` set (approval_requests s)"
    by (metis * list.set_map)
  show "store_ok (update_approvals p f s) \<and> store_le s (update_approvals p f s)"
    using ok assms [OF ok]
    by (simp add: update_approvals_def ok_defs * ** evolves_refls approval_row.evolves_update
        split: option.splits)
qed

lemma adv_update_effects:
  assumes "\<And>x. store_ok s \<Longrightarrow> x \<in> set (side_effect_executions s) \<Longrightarrow> p x \<Longrightarrow> effect_le x (f x)"
  shows "advances s (update_effects p f s)"
proof (rule advI)
  assume ok: "store_ok s"
  let ?rows = "side_effect_executions s"
  have *: "map se_id (update_where p f ?rows) = map se_id ?rows"
    "map effect_key (update_where p f ?rows) = map effect_key ?rows"
    "map se_approval_id (update_where p f ?rows) = map se_approval_id ?rows"
    using assms [OF ok] effect_le_key by (intro map_update_where; blast)+
  have ids: "se_approval_id ` set (update_where p f ?rows) = se_approval_id ` set ?rows"
    by (metis *(3) list.set_map)
  have "claims_ok (update_effects p f s)"
    unfolding claims_ok_def
  proof
    fix e assume "e \<in> set (side_effect_executions (update_effects p f s))"
    then have "se_approval_id e \<in> se_approval_id ` set ?rows"
      unfolding ids [symmetric] by (simp add: update_effects_def)
    then show "opt_exists approval_exists (se_approval_id e) (update_effects p f s)"
      using ok by (auto simp: store_ok_def claims_ok_def update_effects_def opt_exists_def
          approval_exists_def split: option.splits)
  qed
  then show "store_ok (update_effects p f s) \<and> store_le s (update_effects p f s)"
    using ok assms [OF ok]
    by (simp add: update_effects_def store_ok_def runs_ok_def store_le_def keys_ok_def log_ok_def log_keys_def
        next_sequence_of_def get_session_def * evolves_refls effect_row.evolves_update
        split: option.splits)
qed

lemma adv_update_recoveries:
  assumes "\<And>x. store_ok s \<Longrightarrow> x \<in> set (run_recoveries s) \<Longrightarrow> p x \<Longrightarrow> recovery_le x (f x)"
  shows "advances s (s\<lparr>run_recoveries := update_where p f (run_recoveries s)\<rparr>)"
proof (rule advI)
  assume ok: "store_ok s"
  have *: "map rc_id (update_where p f (run_recoveries s)) = map rc_id (run_recoveries s)"
    using assms [OF ok] by (intro map_update_where) (rule recovery_le_fields)
  have **: "list_all (\<lambda>r. rc_resume_generation r = rc_interrupted_generation r + 1)
      (update_where p f (run_recoveries s))"
    using ok recovery_le_fields [OF assms [OF ok]]
    by (auto simp: store_ok_def keys_ok_def list_all_iff set_update_where)
  show "store_ok (s\<lparr>run_recoveries := update_where p f (run_recoveries s)\<rparr>) \<and>
    store_le s (s\<lparr>run_recoveries := update_where p f (run_recoveries s)\<rparr>)"
    using ok assms [OF ok] **
    by (simp add: ok_defs * evolves_refls recovery_row.evolves_update split: option.splits)
qed

lemma adv_update_inputs:
  assumes "\<And>x. store_ok s \<Longrightarrow> x \<in> set (user_input_requests s) \<Longrightarrow> p x \<Longrightarrow> input_le x (f x)"
  shows "advances s (update_inputs p f s)"
proof (rule advI)
  assume ok: "store_ok s"
  have *: "map ui_id (update_where p f (user_input_requests s)) = map ui_id (user_input_requests s)"
    using assms [OF ok] by (intro map_update_where) (simp add: input_le_def)
  show "store_ok (update_inputs p f s) \<and> store_le s (update_inputs p f s)"
    using ok assms [OF ok]
    by (simp add: update_inputs_def ok_defs * evolves_refls input_row.evolves_update split: option.splits)
qed

section \<open>Sequence numbers\<close>

text \<open>What the allocation hands out: a number of the session that no entry carries.\<close>

definition fresh_seq :: "string \<Rightarrow> nat \<Rightarrow> store \<Rightarrow> bool" where
  "fresh_seq sid q s \<longleftrightarrow> (sid, q) \<notin> set (log_keys s) \<and> 0 < q \<and> q < next_sequence_of sid s"

definition bump_session :: "string \<Rightarrow> int \<Rightarrow> store \<Rightarrow> store" where
  "bump_session sid t s = s\<lparr>sessions := update_where (\<lambda>r. ss_id r = sid)
     (\<lambda>r. r\<lparr>ss_next_sequence := Suc (ss_next_sequence r), ss_updated_at_ms := t\<rparr>) (sessions s)\<rparr>"

lemma next_sequence_of_bump:
  "next_sequence_of sid (bump_session tid t s) =
     (if sid = tid \<and> session_exists sid s then Suc (next_sequence_of sid s) else next_sequence_of sid s)"
proof -
  have "get_session sid (bump_session tid t s) = map_option (\<lambda>r. if ss_id r = tid
      then r\<lparr>ss_next_sequence := Suc (ss_next_sequence r), ss_updated_at_ms := t\<rparr> else r)
      (get_session sid s)"
    by (simp add: get_session_def bump_session_def find_update_where)
  moreover have "session_exists sid s \<longleftrightarrow> get_session sid s \<noteq> None"
    by (auto simp: session_exists_def get_session_def find_None_iff)
  moreover have "ss_id r = sid" if "get_session sid s = Some r" for r
    using that by (auto simp: get_session_def dest: find_Some_imp)
  ultimately show ?thesis
    by (auto simp: next_sequence_of_def split: option.splits)
qed

lemma next_sequence_tx_eq:
  "next_sequence_tx sid t s = (case get_session sid s of None \<Rightarrow> Inl (SessionNotFound sid)
     | Some r \<Rightarrow> Inr (ss_next_sequence r, bump_session sid t s))"
  by (simp add: next_sequence_tx_def tx_simps bump_session_def split: option.splits)

lemma bump_session_ok:
  assumes "store_ok s" and "get_session sid s = Some r"
  shows "store_ok (bump_session sid t s)" and "store_le s (bump_session sid t s)"
    and "fresh_seq sid (ss_next_sequence r) (bump_session sid t s)"
proof -
  let ?s = "bump_session sid t s"
  have r: "r \<in> set (sessions s)" "ss_id r = sid"
    using assms(2) by (auto simp: get_session_def dest: find_Some_imp)
  have exists: "session_exists sid s" using r by (auto simp: session_exists_def)
  have next_is: "next_sequence_of sid s = ss_next_sequence r"
    using assms(2) by (simp add: next_sequence_of_def)
  have log: "log_keys ?s = log_keys s" by (simp add: log_keys_def bump_session_def)
  have ids: "map ss_id (sessions ?s) = map ss_id (sessions s)"
    by (auto simp: bump_session_def intro!: map_update_where)
  have le: "next_sequence_of tid s \<le> next_sequence_of tid ?s" for tid
    by (simp add: next_sequence_of_bump)
  have "log_ok ?s"
    using assms(1) le unfolding store_ok_def log_ok_def log
    by (auto simp: bump_session_def set_update_where intro: order_less_le_trans)
  moreover have "ss_id ` set (sessions ?s) = ss_id ` set (sessions s)"
    by (metis ids list.set_map)
  then have "runs_ok ?s"
    using assms(1) by (simp add: store_ok_def runs_ok_def bump_session_def)
  moreover have "keys_ok ?s" and "claims_ok ?s"
    using assms(1) ids by (simp_all add: store_ok_def keys_ok_def claims_ok_def bump_session_def
        opt_exists_def approval_exists_def split: option.splits)
  ultimately show "store_ok ?s" by (simp add: store_ok_def)
  show "store_le s ?s"
    by (simp add: store_le_def bump_session_def evolves_refls session_row.evolves_update session_le_def)
  have "0 < ss_next_sequence r" using assms(1) r by (simp add: store_ok_def log_ok_def)
  moreover have "(sid, ss_next_sequence r) \<notin> set (log_keys s)"
    using assms(1) next_is unfolding store_ok_def log_ok_def by fastforce
  ultimately show "fresh_seq sid (ss_next_sequence r) ?s"
    by (simp add: fresh_seq_def log next_sequence_of_bump exists next_is)
qed

lemma adv_alloc:
  assumes "\<And>q s'. store_ok s' \<Longrightarrow> fresh_seq sid q s' \<Longrightarrow> runs s' = runs s \<Longrightarrow> tx_rel advances s' (g q)"
  shows "tx_rel advances s (bind_tx (next_sequence_tx sid t) g)"
proof (rule adv_assume, rule adv.rel_bind)
  assume ok: "store_ok s"
  show "tx_rel advances s (next_sequence_tx sid t)"
    by (auto simp: tx_rel_def next_sequence_tx_eq advances_def bump_session_ok split: option.splits)
  fix q s'
  assume "next_sequence_tx sid t s = Inr (q, s')"
  then obtain r where r: "get_session sid s = Some r" "q = ss_next_sequence r" "s' = bump_session sid t s"
    by (auto simp: next_sequence_tx_eq split: option.splits)
  show "tx_rel advances s' (g q)"
    using bump_session_ok [OF ok r(1)] r by (intro assms) (auto simp: bump_session_def)
qed

section \<open>Insertions\<close>

lemma adv_insert_event:
  assumes "fresh_seq (ev_session_id e) (ev_sequence e) s"
  shows "tx_rel advances s (insert_event e)"
  unfolding insert_event_def
proof (rule adv.rel_insert, rule advI)
  let ?s = "s\<lparr>run_events := run_events s @ [e]\<rparr>"
  assume ok: "store_ok s"
  have keys: "set (log_keys ?s) = insert (ev_session_id e, ev_sequence e) (set (log_keys s))"
    "distinct (log_keys ?s) \<longleftrightarrow> distinct (log_keys s) \<and> (ev_session_id e, ev_sequence e) \<notin> set (log_keys s)"
    by (auto simp: log_keys_def)
  have next': "next_sequence_of sid ?s = next_sequence_of sid s" for sid
    by (simp add: next_sequence_of_def get_session_def)
  have "log_ok ?s"
    using ok assms unfolding store_ok_def log_ok_def keys next' by (simp add: fresh_seq_def)
  moreover have "keys_ok ?s" and "claims_ok ?s" and "runs_ok ?s" and "store_le s ?s"
    using ok by (simp_all add: store_ok_def keys_ok_def claims_ok_def runs_ok_def opt_exists_def
        approval_exists_def store_le_def evolves_refls evolves_inserts split: option.splits)
  ultimately show "store_ok ?s \<and> store_le s ?s" by (simp add: store_ok_def)
qed

lemma adv_insert_item:
  assumes "fresh_seq (ti_session_id i) (ti_sequence i) s"
  shows "tx_rel advances s (insert_item i)"
  unfolding insert_item_def
proof (rule adv.rel_insert, rule advI)
  let ?s = "s\<lparr>transcript_items := transcript_items s @ [i]\<rparr>"
  assume ok: "store_ok s" and new: "ti_id i \<notin> ti_id ` set (transcript_items s) \<and>
    session_exists (ti_session_id i) s \<and> opt_exists run_exists (ti_run_id i) s \<and>
    0 < ti_sequence i \<and> (ti_session_id i, ti_sequence i)
      \<notin> (\<lambda>x. (ti_session_id x, ti_sequence x)) ` set (transcript_items s)"
  have keys: "set (log_keys ?s) = insert (ti_session_id i, ti_sequence i) (set (log_keys s))"
    "distinct (log_keys ?s) \<longleftrightarrow> distinct (log_keys s) \<and> (ti_session_id i, ti_sequence i) \<notin> set (log_keys s)"
    by (auto simp: log_keys_def)
  have next': "next_sequence_of sid ?s = next_sequence_of sid s" for sid
    by (simp add: next_sequence_of_def get_session_def)
  have "log_ok ?s"
    using ok assms unfolding store_ok_def log_ok_def keys next' by (simp add: fresh_seq_def)
  moreover have "keys_ok ?s" and "claims_ok ?s" and "runs_ok ?s" and "store_le s ?s"
    using ok new by (simp_all add: store_ok_def keys_ok_def claims_ok_def runs_ok_def opt_exists_def
        approval_exists_def store_le_def evolves_refls evolves_inserts split: option.splits)
  ultimately show "store_ok ?s \<and> store_le s ?s" by (simp add: store_ok_def)
qed

end
