(* ===== verification/Store_Advance.thy ===== *)
theory Store_Advance
  imports Store_Rules
begin

text \<open>
  Every operation of the store respects the order: one rule per insertion and per helper, then
  one lemma per operation, proved by applying the rules of \<open>store_order\<close> and of the statements.
\<close>

section \<open>Insertions without a sequence number\<close>

lemma next_sequence_insert:
  "next_sequence_of sid s \<noteq> 0 \<Longrightarrow>
    next_sequence_of sid (s\<lparr>sessions := sessions s @ rows\<rparr>) = next_sequence_of sid s"
  by (simp add: next_sequence_of_def get_session_def find_append split: option.splits)

lemma adv_insert_session: "tx_rel advances s (insert_session r)"
  unfolding insert_session_def
proof (rule adv.rel_insert, rule advI)
  let ?s = "s\<lparr>sessions := sessions s @ [r]\<rparr>"
  assume ok: "store_ok s" and new: "\<not> session_exists (ss_id r) s \<and>
      (case ss_parent_session_id r of None \<Rightarrow> True | Some p \<Rightarrow> p = ss_id r \<or> session_exists p s) \<and>
      0 < ss_next_sequence r"
  have keys: "log_keys ?s = log_keys s" by (simp add: log_keys_def)
  have "log_ok ?s"
    using ok new unfolding store_ok_def log_ok_def keys
    by (auto simp: next_sequence_insert)
  moreover have "runs_ok ?s" using ok by (auto simp: store_ok_def runs_ok_def)
  moreover have "keys_ok ?s" and "claims_ok ?s" and "store_le s ?s"
    using ok new by (simp_all add: store_ok_def keys_ok_def claims_ok_def opt_exists_def
        approval_exists_def session_exists_def store_le_def evolves_refls evolves_inserts
        split: option.splits)
  ultimately show "store_ok ?s \<and> store_le s ?s" by (simp add: store_ok_def)
qed

lemma adv_insert_run: "tx_rel advances s (insert_run r)"
  unfolding insert_run_def
  by (rule adv.rel_insert, rule advI)
    (simp add: ok_defs run_exists_def session_exists_def evolves_refls evolves_inserts
      split: option.splits)

lemma adv_insert_approval: "tx_rel advances s (insert_approval a)"
  unfolding insert_approval_def
  by (rule adv.rel_insert, rule advI)
    (auto simp: ok_defs evolves_refls evolves_inserts split: option.splits)

lemma adv_insert_effect: "tx_rel advances s (insert_effect e)"
  unfolding insert_effect_def
proof (rule adv.rel_insert, rule advI)
  let ?s = "s\<lparr>side_effect_executions := side_effect_executions s @ [e]\<rparr>"
  assume ok: "store_ok s" and new: "\<not> effect_exists (se_id e) s \<and>
    session_exists (se_session_id e) s \<and> run_exists (se_run_id e) s \<and> 0 < se_run_generation e \<and>
    opt_exists approval_exists (se_approval_id e) s \<and>
    opt_exists artifact_exists (se_result_reference e) s \<and>
    effect_key e \<notin> effect_key ` set (side_effect_executions s)"
  have "log_ok ?s"
    using ok by (simp add: store_ok_def log_ok_def log_keys_def next_sequence_of_def get_session_def)
  moreover have "claims_ok ?s"
    using ok new by (auto simp: store_ok_def claims_ok_def opt_exists_def approval_exists_def
        split: option.splits)
  moreover have "keys_ok ?s" and "runs_ok ?s" and "store_le s ?s"
    using ok new by (simp_all add: store_ok_def keys_ok_def runs_ok_def effect_exists_def store_le_def
        evolves_refls evolves_inserts)
  ultimately show "store_ok ?s \<and> store_le s ?s" by (simp add: store_ok_def)
qed

lemma adv_insert_checkpoint: "tx_rel advances s (insert_checkpoint c)"
  unfolding insert_checkpoint_def
  by (rule adv.rel_insert, rule advI)
    (simp add: ok_defs evolves_refls evolves_inserts split: option.splits)

lemma adv_insert_recovery: "tx_rel advances s (insert_recovery r)"
  unfolding insert_recovery_def
  by (rule adv.rel_insert, rule advI)
    (simp add: ok_defs evolves_refls evolves_inserts split: option.splits)

lemma adv_insert_idempotency: "tx_rel advances s (insert_idempotency r)"
  unfolding insert_idempotency_def
  by (rule adv.rel_insert, rule advI)
    (simp add: ok_defs evolves_refls evolves_inserts split: option.splits)

lemma adv_insert_compaction: "tx_rel advances s (insert_compaction c)"
  unfolding insert_compaction_def
  by (rule adv.rel_insert, rule advI)
    (simp add: ok_defs evolves_refls evolves_inserts split: option.splits)

lemma adv_insert_user_input: "tx_rel advances s (insert_user_input u)"
  unfolding insert_user_input_def
  by (rule adv.rel_insert, rule advI)
    (simp add: ok_defs evolves_refls evolves_inserts split: option.splits)

lemma adv_insert_lease: "tx_rel advances s (insert_lease l)"
  unfolding insert_lease_def by (rule adv.rel_insert) (simp add: adv_frame)

section \<open>Helpers\<close>

lemma adv_append_event_typed: "tx_rel advances s (append_event_typed_tx sid rid event typed payload t)"
  unfolding append_event_typed_tx_def Let_def
  by (intro adv_alloc adv.rel_bind adv_insert_event) (simp_all add: adv.rel_ret)

lemma adv_emit: "tx_rel advances s (emit_tx sid rid event payload t)"
  "tx_rel advances s (emit_typed_tx sid rid p t)"
  unfolding emit_tx_def append_event_tx_def emit_typed_tx_def
  by (intro adv.rel_bind adv_append_event_typed adv.rel_ret)+

lemma adv_get_run: "(\<And>r. get_run rid s = Some r \<Longrightarrow> tx_rel advances s (g r)) \<Longrightarrow>
    tx_rel advances s (bind_tx (get_run_tx rid) g)"
  unfolding get_run_tx_def by (rule adv.rel_bind_expect)

lemma adv_get_run_end: "tx_rel advances s (get_run_tx rid)"
  unfolding get_run_tx_def by (rule adv.rel_expect)

lemma adv_bump: "tx_rel advances s (bump_environment_revision_tx sid t)"
  unfolding bump_environment_revision_tx_def
  by (intro adv.rel_bind_expect adv.rel_bind_gets adv.rel_option adv.rel_bind_modify adv.rel_ret)
    (simp_all add: adv_frame update_hosts_def)

lemmas [ok_intros] = adv.rel_intros adv_insert_session adv_insert_run adv_insert_approval
  adv_insert_effect adv_insert_checkpoint adv_insert_recovery adv_insert_idempotency
  adv_insert_compaction adv_insert_user_input adv_insert_lease adv_append_event_typed adv_emit
  adv_get_run adv_get_run_end adv_bump adv_alloc

text \<open>One application of the rules, from the read or checked parts to the last statement.\<close>

lemmas ok_seq = ok_intros adv.rel_bind_modify adv.rel_modify adv.rel_for adv.rel_collect adv.rel_bind

section \<open>Runs, events and transcript\<close>

lemma adv_leases:
  "tx_rel advances s (acquire_checkout_write_lease cid rid g t)"
  "tx_rel advances s (release_checkout_write_lease cid rid g)"
  unfolding acquire_checkout_write_lease_def release_checkout_write_lease_def
  by (intro ok_seq adv_frame; simp)+

lemma adv_create_session: "tx_rel advances s (create_session r)"
  unfolding create_session_def by (intro ok_seq)

lemma adv_create_run: "tx_rel advances s (create_run_idempotent client key run)"
  unfolding create_run_idempotent_def
  by (intro ok_seq adv_frame; simp add: send_activity_def)

lemma get_run_unique:
  assumes "store_ok s" and "get_run rid s = Some r" and "x \<in> set (runs s)" and "rr_id x = rr_id r"
  shows "x = r"
proof -
  have "r \<in> set (runs s)" using assms(2) by (auto simp: get_run_def dest: find_Some_imp)
  with assms show ?thesis by (auto simp: store_ok_def keys_ok_def intro: key_unique)
qed

lemma get_run_id: "get_run rid s = Some r \<Longrightarrow> rr_id r = rid \<and> r \<in> set (runs s)"
  by (auto simp: get_run_def dest: find_Some_imp)

text \<open>The legal transitions never leave a settled status.\<close>

lemma can_transition_settled: "can_transition_to st st' \<Longrightarrow> \<not> settled st"
  by (cases st) (simp_all add: settled_def)

lemma adv_put_summary: "tx_rel advances s (put_run_summary summary)"
  unfolding put_run_summary_def by (intro ok_seq) (auto intro!: adv.rel_insert adv_frame)

lemma adv_finalize: "tx_rel advances s (finalize_run_summary rid st t)"
  unfolding finalize_run_summary_def Let_def by (intro ok_seq adv_put_summary)

lemma adv_send_activity: "advances s (send_activity r s)"
  by (rule adv_frame) (simp_all add: send_activity_def)

lemma adv_result: "tx_rel advances s m \<Longrightarrow> m s = Inr (a, s') \<Longrightarrow> advances s0 s \<Longrightarrow> advances s0 s'"
  by (blast intro: adv.trans dest: tx_relD)

lemma adv_after_transition: "advances s (after_transition display updated st t t' s)"
  unfolding after_transition_def Let_def
  by (auto split: sum.splits prod.splits intro: adv_send_activity
      adv_result [OF adv_finalize _ adv_send_activity] adv_result [OF adv_emit(1) _ adv_send_activity])

lemma adv_transition_tx:
  assumes "get_run rid s = Some r" and "can_transition_to (rr_status r) st"
  shows "tx_rel advances s (transition_run_tx r st code t)"
  unfolding transition_run_tx_def
proof (intro ok_seq adv_update_runs adv_frame)
  fix x assume "store_ok s" and "x \<in> set (runs s)" and "rr_id x = rr_id r"
  then have "x = r" using assms(1) get_run_unique by blast
  then show "run_le x (x\<lparr>rr_status := st, rr_failure_code := code, rr_updated_at_ms := t\<rparr>)"
    using can_transition_settled [OF assms(2)] by (simp add: run_le_def)
qed (simp_all add: update_hosts_def)

lemma adv_transition_run: "tx_rel advances s (transition_run display rid st code t t')"
  unfolding transition_run_def
  by (intro ok_seq adv_transition_tx adv_after_transition) (auto dest: get_run_id)

lemma adv_events:
  "tx_rel advances s (append_event sid rid event payload t)"
  "tx_rel advances s (append_typed_event sid rid event p payload t)"
  unfolding append_event_def append_typed_event_def append_event_tx_def by (intro ok_seq)+

lemma adv_live_delta: "tx_rel advances s (append_live_item_delta sid rid iid delta t)"
  unfolding append_live_item_delta_def Let_def
  by (intro ok_seq adv_frame; simp add: publish_def set_replay_def Let_def)

lemma adv_complete_item: "advances s (complete_item sid iid s)"
  by (rule adv_frame) (simp_all add: complete_item_def set_replay_def Let_def split: option.splits)

lemma adv_append_item: "tx_rel advances s (append_transcript_item item)"
  unfolding append_transcript_item_def Let_def
  by (intro adv_alloc adv.rel_bind adv.rel_when adv_insert_item adv_emit adv.rel_ret) simp

lemma adv_complete_with:
  assumes "\<And>i. item_le i (f i)"
  shows "tx_rel advances s (complete_with iid f t)"
  unfolding complete_with_def by (intro ok_seq adv_update_items adv_complete_item assms)

lemma adv_complete_transcript_item:
  "tx_rel advances s (complete_transcript_item iid st p t)"
  "tx_rel advances s (complete_transcript_item_as_kind iid k st p t)"
  unfolding complete_transcript_item_def complete_transcript_item_as_kind_def
  by (rule adv_complete_with; simp add: item_le_def)+

lemma adv_compaction: "tx_rel advances s (create_compaction_checkpoint c)"
  unfolding create_compaction_checkpoint_def by (intro ok_seq)

section \<open>Approvals and side effects\<close>

lemma adv_create_approval: "tx_rel advances s (create_approval a)"
  unfolding create_approval_def by (intro ok_seq)

lemma approval_settle_le:
  "ap_status a = Pending \<Longrightarrow>
    approval_le a (a\<lparr>ap_status := st, ap_resolved_by := by, ap_resolved_at_ms := t\<rparr>)"
  "ap_status a = Pending \<Longrightarrow> approval_le a (a\<lparr>ap_status := st, ap_resolved_at_ms := t\<rparr>)"
  "ap_status a = Approved \<Longrightarrow> approval_le a (a\<lparr>ap_uses_remaining := ap_uses_remaining a - 1\<rparr>)"
  by (simp_all add: approval_le_def approval_request_of_def)

lemma adv_resolve_approval: "tx_rel advances s (resolve_approval r)"
  unfolding resolve_approval_def Let_def
  by (intro ok_seq adv_update_approvals approval_settle_le) auto

lemma adv_cancel_run_approvals: "tx_rel advances s (cancel_run_approvals rid t)"
  unfolding cancel_run_approvals_def
  by (intro ok_seq adv_update_approvals approval_settle_le) auto

lemma adv_consume: "tx_rel advances s (consume_approval aid e authority)"
  unfolding consume_approval_def Let_def
  by (intro ok_seq adv_update_approvals approval_settle_le) auto

lemma adv_copy: "tx_rel advances s (copy_side_effect_checkpoint_tx fresh e phase t)"
  unfolding copy_side_effect_checkpoint_tx_def insert_checkpoint_or_ignore_def by (intro ok_seq)

lemma adv_claim: "tx_rel advances s (claim_side_effect_with_authority fresh e authority)"
  unfolding claim_side_effect_with_authority_def by (intro ok_seq adv_copy adv_consume)

lemma effect_step_le:
  assumes "se_status e = st" and "st < st'" and "st \<in> {Claimed, Dispatched, Indeterminate}"
    and "effect_identity e' = effect_identity e" and "se_status e' = st'"
  shows "effect_le e e'"
  using assms by (auto simp: effect_le_def)

lemma adv_transition_effect:
  assumes "expected < st" and "expected \<in> {Claimed, Dispatched}"
  shows "tx_rel advances s (transition_side_effect eid expected st hr code ref res t)"
  unfolding transition_side_effect_def set_effect_def
  using assms
  by (intro ok_seq adv.rel_insert adv_update_effects effect_step_le)
    (auto simp: effect_identity_def split: option.splits)

lemma adv_effect_ops:
  "tx_rel advances s (mark_side_effect_dispatched eid hr t)"
  "tx_rel advances s (cancel_claimed_side_effect eid t)"
  "tx_rel advances s (finish_side_effect eid st code ref res t)"
  unfolding mark_side_effect_dispatched_def cancel_claimed_side_effect_def finish_side_effect_def
  by (intro ok_seq adv_transition_effect; auto simp: status_order)+

lemma adv_dispatch: "tx_rel advances s (mark_side_effect_dispatched_if_current fresh eid rid g hr t)"
  unfolding mark_side_effect_dispatched_if_current_def
  by (intro ok_seq adv_copy adv_update_effects effect_step_le)
    (auto simp: status_order effect_identity_def)

section \<open>Recovery\<close>

lemma adv_record_checkpoint: "tx_rel advances s (record_run_step_checkpoint c)"
  unfolding record_run_step_checkpoint_def by (intro ok_seq)

lemma run_status_le:
  "\<not> settled (rr_status r) \<Longrightarrow> rr_generation r \<le> g \<Longrightarrow>
    run_le r (r\<lparr>rr_status := st, rr_generation := g, rr_failure_code := code, rr_updated_at_ms := t\<rparr>)"
  "\<not> settled (rr_status r) \<Longrightarrow> run_le r (set_status st code t r)"
  "\<not> settled (rr_status r) \<Longrightarrow> run_le r (r\<lparr>rr_status := st, rr_updated_at_ms := t\<rparr>)"
  by (simp_all add: run_le_def set_status_def)

lemma not_settled: "is_active st \<Longrightarrow> \<not> settled st" "is_recoverable st \<Longrightarrow> \<not> settled st"
  by (auto simp: is_active_def is_recoverable_def settled_def)

text \<open>
  Both loops over runs change only rows that are not settled: the ids come from rows with such
  a status, and a row with the same id in a later store is the same run. The rows of the loops
  are therefore tracked by \<open>open_ids\<close>, which no statement of the loops breaks.
\<close>

definition open_ids :: "string set \<Rightarrow> store \<Rightarrow> bool" where
  "open_ids ids s \<longleftrightarrow> (\<forall>r \<in> set (runs s). rr_id r \<in> ids \<longrightarrow> \<not> settled (rr_status r))"

definition advances_open :: "string set \<Rightarrow> store \<Rightarrow> store \<Rightarrow> bool" where
  "advances_open ids s s' \<longleftrightarrow> (open_ids ids s \<longrightarrow> advances s s' \<and> open_ids ids s')"

interpretation adv_open: store_order "advances_open ids" for ids
  by unfold_locales (auto simp: advances_open_def adv.refl intro: adv.trans)

lemma adv_open_frame: "advances s s' \<Longrightarrow> runs s' = runs s \<Longrightarrow> advances_open ids s s'"
  by (simp add: advances_open_def open_ids_def)

lemma emit_runs: "emit_tx sid rid event p t s = Inr (u, s') \<Longrightarrow> runs s' = runs s"
  "emit_typed_tx sid rid q t s = Inr (u, s') \<Longrightarrow> runs s' = runs s"
  by (auto simp: emit_tx_def append_event_tx_def append_event_typed_tx_def emit_typed_tx_def Let_def
      next_sequence_tx_eq tx_simps insert_event_def bump_session_def split: option.splits if_splits sum.splits)

lemma adv_open_emit: "tx_rel (advances_open ids) s (emit_tx sid rid event p t)"
  using adv_emit(1) [of s sid rid event p t] emit_runs(1) [of sid rid event p t s]
  by (auto simp: tx_rel_def adv_open_frame split: sum.splits)

lemma adv_open_update:
  assumes "\<And>x. x \<in> set (runs s) \<Longrightarrow> p x \<Longrightarrow> rr_id x \<in> ids" "\<And>x. \<not> settled (rr_status x) \<Longrightarrow> run_le x (f x)"
    and "\<And>x. \<not> settled (rr_status (f x))"
  shows "advances_open ids s (update_runs p f s)"
  unfolding advances_open_def
proof (intro impI conjI)
  assume op: "open_ids ids s"
  then show "advances s (update_runs p f s)"
    by (intro adv_update_runs assms(2)) (auto simp: open_ids_def assms(1))
  show "open_ids ids (update_runs p f s)"
    using op assms(3) by (auto simp: open_ids_def update_runs_def set_update_where)
qed

lemma adv_of_open:
  "tx_rel (advances_open ids) s m \<Longrightarrow> open_ids ids s \<Longrightarrow> tx_rel advances s m"
  by (auto simp: tx_rel_def advances_open_def split: sum.splits)

lemma open_ids_of_status:
  assumes "store_ok s" and "\<And>st. p st \<Longrightarrow> \<not> settled st"
  shows "open_ids (rr_id ` set (filter (\<lambda>r. p (rr_status r)) (runs s))) s"
  using assms by (auto simp: open_ids_def store_ok_def keys_ok_def dest: key_unique)

lemma adv_open_interrupt:
  "rr_id r \<in> ids \<Longrightarrow> tx_rel (advances_open ids) s (interrupt_run t r)"
  unfolding interrupt_run_def
  by (intro adv_open.rel_bind_modify adv_open_emit adv_open_update run_status_le)
    (simp_all add: set_status_def settled_def)

lemma adv_classify: "tx_rel advances s (classify_run fresh t r)"
  unfolding classify_run_def Let_def
  by (intro ok_seq adv_update_runs run_status_le) (simp add: settled_def)

lemma adv_interrupt_item: "tx_rel advances s (interrupt_item t i)"
  unfolding interrupt_item_def by (intro ok_seq adv_update_items) (simp add: item_le_def)

lemma adv_expire: "advances s (expire_pending_approvals t s)"
  unfolding expire_pending_approvals_def
  by (intro adv_update_approvals approval_settle_le) (simp add: is_pending_def)

lemma adv_interrupt_inputs: "advances s (interrupt_pending_inputs t s)"
  unfolding interrupt_pending_inputs_def
  by (intro adv_update_inputs) (simp add: input_le_def input_pending_def)

lemma adv_settle_effects: "advances s (settle_effects t s)"
  unfolding settle_effects_def
  by (rule adv.trans [OF adv_update_effects adv_update_effects];
      simp add: has_effect_status_def effect_le_def effect_identity_def status_order)

lemma adv_complete_items: "advances s (complete_items is s)"
  by (induction "is" arbitrary: s)
    (auto simp: complete_items_def adv.refl intro: adv.trans adv_complete_item)

lemma adv_interrupt_loop:
  assumes "store_ok s" and "rows = filter (\<lambda>r. is_active (rr_status r)) (runs s)"
    and "runs s1 = runs s"
  shows "tx_rel advances s1 (for_tx rows (interrupt_run t))"
proof (rule adv_of_open)
  show "tx_rel (advances_open (rr_id ` set rows)) s1 (for_tx rows (interrupt_run t))"
    by (intro adv_open.rel_for adv_open_interrupt) simp
  show "open_ids (rr_id ` set rows) s1"
    using open_ids_of_status [OF assms(1) not_settled(1)] assms(2,3) by (simp add: open_ids_def)
qed

lemma adv_recover: "tx_rel advances s (recover_interrupted fresh t)"
proof (rule adv_assume)
  assume "store_ok s"
  then show "tx_rel advances s (recover_interrupted fresh t)"
    unfolding recover_interrupted_def
    by (intro ok_seq adv_frame adv_interrupt_loop adv_classify adv_interrupt_item adv_expire
        adv_interrupt_inputs adv_settle_effects adv_complete_items)
      (simp_all add: update_hosts_def)
qed

lemma recovery_open_le:
  "rc_state r \<in> {EligibleAuto, AwaitingUser} \<Longrightarrow> recovery_case r' = recovery_case r \<Longrightarrow> recovery_le r r'"
  by (simp add: recovery_le_def)

lemma adv_fail_open: "advances s (s\<lparr>run_recoveries := map (fail_open_recovery t) (run_recoveries s)\<rparr>)"
proof -
  have "map (fail_open_recovery t) rows = update_where (\<lambda>r. True) (fail_open_recovery t) rows" for rows
    by (simp add: update_where_def)
  then show ?thesis
    by (simp, intro adv_update_recoveries)
      (auto simp: fail_open_recovery_def recovery_row.row_refl intro!: recovery_open_le
        simp: recovery_case_def)
qed

lemma adv_abandon: "tx_rel advances s (abandon_recoveries t)"
proof (rule adv_assume)
  assume ok: "store_ok s"
  let ?rows = "filter (\<lambda>r. is_recoverable (rr_status r)) (runs s)"
  have "tx_rel (advances_open (rr_id ` set ?rows)) s (for_tx ?rows (\<lambda>r.
       bind_tx (modify (update_runs (\<lambda>x. rr_id x = rr_id r)
         (set_status Interrupted (Some ''run_recovery_feature_disabled'') t))) (\<lambda>_.
       emit_tx (rr_session_id r) (Some (rr_id r)) ''run.status_changed''
         (status_change_json (rr_status r) Interrupted (Some ''run_recovery_feature_disabled'')) t)))"
    by (intro adv_open.rel_for adv_open.rel_bind_modify adv_open_emit adv_open_update run_status_le)
      (auto simp: set_status_def settled_def)
  then have loop: "tx_rel advances s (for_tx ?rows (\<lambda>r.
       bind_tx (modify (update_runs (\<lambda>x. rr_id x = rr_id r)
         (set_status Interrupted (Some ''run_recovery_feature_disabled'') t))) (\<lambda>_.
       emit_tx (rr_session_id r) (Some (rr_id r)) ''run.status_changed''
         (status_change_json (rr_status r) Interrupted (Some ''run_recovery_feature_disabled'')) t)))"
    by (rule adv_of_open) (rule open_ids_of_status [OF ok not_settled(2)])
  show "tx_rel advances s (abandon_recoveries t)"
    unfolding abandon_recoveries_def
    by (intro adv.rel_bind_gets adv.rel_bind loop adv.rel_modify adv_fail_open)
qed

lemma adv_recover_feature:
  assumes "recover_interrupted_with_run_recovery fresh t t' enabled s = (s', res)"
  shows "advances s s'"
  using assms adv_recover [of s fresh t]
  by (auto simp: recover_interrupted_with_run_recovery_def tx_rel_def adv.refl
      split: sum.splits if_splits intro: adv.trans dest!: tx_relD [OF adv_abandon])

text \<open>The statements between reading a recovery and deciding it leave the recoveries alone.\<close>

definition same_recoveries :: "store \<Rightarrow> store \<Rightarrow> bool" where
  "same_recoveries s s' \<longleftrightarrow> run_recoveries s' = run_recoveries s"

interpretation rec_frame: store_order same_recoveries
  by unfold_locales (auto simp: same_recoveries_def)

lemma move_frame: "tx_rel same_recoveries s (move_recovering_run r f)"
  unfolding move_recovering_run_def Let_def
  by (intro rec_frame.rel_intros rec_frame.rel_bind_modify)
    (simp add: same_recoveries_def update_runs_def)

lemma indeterminate_frame:
  "tx_rel same_recoveries s (resolve_indeterminate_side_effect_tx eid st code t)"
  unfolding resolve_indeterminate_side_effect_tx_def Let_def
  by (intro rec_frame.rel_intros rec_frame.rel_bind_modify)
    (simp add: same_recoveries_def update_effects_def)

lemma check_frame: "tx_rel same_recoveries s (check_decision r action c t)"
  unfolding check_decision_def
  by (cases action; simp; intro rec_frame.rel_intros indeterminate_frame)

lemma adv_move:
  assumes "\<And>x. \<not> settled (rr_status x) \<Longrightarrow> rr_generation x = rc_interrupted_generation r \<Longrightarrow> run_le x (f x)"
  shows "tx_rel advances s (move_recovering_run r f)"
  unfolding move_recovering_run_def Let_def
  by (intro ok_seq adv_update_runs assms) (auto dest: not_settled)

lemma adv_indeterminate:
  assumes "Indeterminate < st"
  shows "tx_rel advances s (resolve_indeterminate_side_effect_tx eid st code t)"
  unfolding resolve_indeterminate_side_effect_tx_def Let_def
  using assms by (intro ok_seq adv_update_effects effect_step_le) (auto simp: effect_identity_def)

lemma adv_check: "tx_rel advances s (check_decision r action c t)"
  unfolding check_decision_def
  by (cases action; simp; intro ok_seq adv_indeterminate; simp add: status_order)

definition decidable_row :: "recovery_record \<Rightarrow> store \<Rightarrow> bool" where
  "decidable_row r s \<longleftrightarrow> r \<in> set (run_recoveries s) \<and> rc_state r \<in> {EligibleAuto, AwaitingUser}"

lemma adv_decide:
  assumes "decidable_row r s"
  shows "tx_rel advances s (update_recovery_state_tx (rc_id r) st client action key t)"
  unfolding update_recovery_state_tx_def
proof (rule adv.rel_modify, rule adv_update_recoveries, rule recovery_open_le)
  fix x assume "store_ok s" and "x \<in> set (run_recoveries s)" and "rc_id x = rc_id r"
  then have "x = r"
    using assms by (auto simp: store_ok_def keys_ok_def decidable_row_def dest: key_unique)
  then show "rc_state x \<in> {EligibleAuto, AwaitingUser}" using assms by (simp add: decidable_row_def)
qed (simp add: recovery_case_def)

lemma decidable_frame: "decidable_row r s \<Longrightarrow> same_recoveries s s' \<Longrightarrow> decidable_row r s'"
  by (simp add: decidable_row_def same_recoveries_def)

lemma adv_abandon_run: "decidable_row r s \<Longrightarrow> tx_rel advances s (abandon_run_tx r request client t)"
  unfolding abandon_run_tx_def
  by (intro adv.rel_bind adv_move adv_decide adv_emit run_status_le)
    (auto dest: tx_relD [OF move_frame] decidable_frame)

lemma adv_resume_run:
  assumes "decidable_row r s" and "rc_resume_generation r = rc_interrupted_generation r + 1"
  shows "tx_rel advances s (resume_run_tx r request client t)"
  unfolding resume_run_tx_def using assms
  by (intro adv.rel_bind_gets adv.rel_bind adv_check adv_move adv_decide adv_emit run_status_le)
    (auto dest!: tx_relD [OF move_frame] tx_relD [OF check_frame] intro: decidable_frame)

lemma adv_resolve_recovery: "tx_rel advances s (resolve_run_recovery request client t)"
proof (rule adv_assume)
  assume ok: "store_ok s"
  show "tx_rel advances s (resolve_run_recovery request client t)"
    unfolding resolve_run_recovery_def
  proof (rule adv.rel_bind_expect)
    fix r assume "get_recovery (dr_recovery_id request) s = Some r"
    then have r: "r \<in> set (run_recoveries s)" by (auto simp: get_recovery_def dest: find_Some_imp)
    then have gen: "rc_resume_generation r = rc_interrupted_generation r + 1"
      using ok by (simp add: store_ok_def keys_ok_def list_all_iff)
    have open_row: "decidable_row r s" if "decidable_now request r"
      using that r by (simp add: decidable_now_def decidable_row_def)
    show "tx_rel advances s (bind_tx
       (if is_replay request r then ret ()
        else bind_tx (require (decidable_now request r) InvalidRunRecoveryDecision) (\<lambda>_.
          if dr_action request = AbandonRun then abandon_run_tx r request client t
          else resume_run_tx r request client t)) (\<lambda>_.
        expect_tx (RunRecoveryNotFound (rc_id r)) (get_run_recovery_snapshot (rc_id r))))"
      by (intro adv.rel_bind adv.rel_if adv.rel_ret adv.rel_expect adv.rel_bind_require
          adv_abandon_run adv_resume_run open_row gen)
  qed
qed

lemma adv_finish_recovery: "tx_rel advances s (finish_run_recovery rid g ok t)"
  unfolding finish_run_recovery_def
  by (intro adv.rel_modify adv_update_recoveries)
    (simp add: recovery_le_def recovery_case_def status_order)

section \<open>User input\<close>

lemma adv_lift: "tx_rel advances s (lift_result r)"
  by (cases r) (simp_all add: tx_rel_def lift_result_def adv.refl)

lemma adv_bind_lift: "(\<And>a. r = Inr a \<Longrightarrow> tx_rel advances s (g a)) \<Longrightarrow> tx_rel advances s (bind_tx (lift_result r) g)"
  by (cases r) (simp_all add: tx_rel_def lift_result_def bind_tx_def)

lemma adv_wait_for_input:
  assumes "get_run rid s0 = Some r" and "\<not> settled (rr_status r)" and "runs s = runs s0"
  shows "advances s (update_runs (\<lambda>x. rr_id x = rid) (\<lambda>x. x\<lparr>rr_status := st, rr_updated_at_ms := t\<rparr>) s)"
proof (intro adv_update_runs run_status_le)
  fix x assume "store_ok s" and "x \<in> set (runs s)" and "rr_id x = rid"
  moreover have "get_run rid s = Some r" using assms(1,3) by (simp add: get_run_def)
  ultimately have "x = r" using get_run_unique get_run_id by metis
  then show "\<not> settled (rr_status x)" using assms(2) by simp
qed

lemma next_sequence_runs: "next_sequence_tx sid t s = Inr (q, s') \<Longrightarrow> runs s' = runs s"
  by (auto simp: next_sequence_tx_eq bump_session_def split: option.splits)

lemma insert_runs:
  "insert_item i s = Inr (u, s') \<Longrightarrow> runs s' = runs s"
  "insert_user_input ui s = Inr (u, s') \<Longrightarrow> runs s' = runs s"
  by (auto simp: insert_item_def insert_user_input_def tx_simps split: if_splits)

lemma adv_create_input: "tx_rel advances s (create_user_input_request u)"
  unfolding create_user_input_request_def
  apply (rule adv_bind_lift adv_get_run adv.rel_bind_require adv_alloc)+
  apply (rule adv.rel_bind, rule adv_insert_item, simp)
  apply (rule adv.rel_bind, rule adv_insert_user_input)
  apply (rule adv.rel_bind_modify, erule adv_wait_for_input)
    apply (auto simp: settled_def dest!: insert_runs intro: adv.rel_bind adv_emit adv.rel_ret)
  done

lemma input_settle_le:
  "ui_status u = InputPending \<Longrightarrow> input_le u (u\<lparr>ui_status := st, ui_display_answers := as,
     ui_resolved_at_ms := t, ui_resolved_by := by\<rparr>)"
  "ui_status u = InputPending \<Longrightarrow> input_le u (u\<lparr>ui_status := st, ui_resolved_at_ms := t,
     ui_resolved_by := by\<rparr>)"
  by (simp_all add: input_le_def)

lemma update_runs_frame: "runs (update_inputs p f s) = runs s" "runs (update_items q g s) = runs s"
  by (simp_all add: update_inputs_def update_items_def)

text \<open>The statements of a resolution, after its checks.\<close>

lemma adv_settle_input:
  assumes "get_run rid s = Some run" "rr_status run = WaitingUserInput"
    and "\<And>u. item_le u (f u)" and "\<And>u. ui_status u = InputPending \<Longrightarrow> input_le u (g u)"
    and "\<And>s'. tx_rel advances s' rest"
  shows "tx_rel advances s (bind_tx (modify (update_inputs (\<lambda>u. ui_id u = uid \<and> input_pending u) g)) (\<lambda>_.
     bind_tx (require b e) (\<lambda>_.
     bind_tx (modify (update_items p f)) (\<lambda>_.
     bind_tx (modify (update_runs (\<lambda>r. rr_id r = rid)
       (\<lambda>r. r\<lparr>rr_status := Running, rr_updated_at_ms := t\<rparr>))) (\<lambda>_. rest)))))"
  by (intro adv.rel_bind_modify adv.rel_bind_require adv_update_inputs adv_update_items
      adv_wait_for_input [OF assms(1)] assms)
    (simp_all add: input_pending_def update_runs_frame settled_def assms)

lemma adv_bind_check:
  assumes "\<And>a s'. m s = Inr (a, s') \<Longrightarrow> s' = s" and "\<And>a. tx_rel advances s (g a)"
  shows "tx_rel advances s (bind_tx m g)"
  using assms by (rule_tac adv.rel_bind) (auto simp: tx_rel_def adv.refl split: sum.splits)

lemma check_answers_pure:
  "(if b then lift_result r else require c e) s = Inr (a, s') \<Longrightarrow> s' = s"
  by (auto simp: lift_result_def tx_simps split: if_splits sum.splits)

lemma adv_resolve_input: "tx_rel advances s (resolve_user_input r)"
  unfolding resolve_user_input_def settle_user_input_def Let_def case_prod_beta
  apply (rule adv.rel_bind_expect adv_get_run adv.rel_bind_require)+
  apply (rule adv_bind_check, erule check_answers_pure)
  apply (rule adv.rel_bind_gets, rule adv_settle_input, assumption)
     prefer 4
     apply (intro ok_seq)
    apply (simp_all add: item_le_def input_settle_le)
  done

lemma adv_cancel_inputs: "tx_rel advances s (cancel_run_user_inputs rid t by)"
  unfolding cancel_run_user_inputs_def
  by (intro ok_seq adv_update_inputs adv_update_items input_settle_le)
    (auto simp: input_pending_def item_le_def)

lemma adv_expire_input: "tx_rel advances s (expire_user_input uid t)"
  unfolding expire_user_input_def Let_def
  by (intro ok_seq adv_update_inputs adv_update_items adv_update_runs input_settle_le run_status_le)
    (auto simp: input_pending_def item_le_def settled_def)

end
