(* ===== verification/Store_Steps.thy ===== *)
theory Store_Steps
  imports Store_Advance
begin

text \<open>
  The store as a transition system: one rule per committed operation, and one for the other
  components, which may rewrite their own tables. Every reachable store is well-formed, and
  along every execution the tables evolve by \<open>store_le\<close>.
\<close>

section \<open>Steps\<close>

definition empty_hosts :: host_tables where
  "empty_hosts = \<lparr>accepted_plan_runs = [], environment_states = [], browser_automation_leases = [],
     host_access_requests = [], computer_control_sessions = [], task_runs = [], process_sessions = [],
     run_steers = [], capability_grants = [], browser_site_permissions = [],
     browser_network_rules = [], browser_permission_requests = [], mcp_server_health = []\<rparr>"

definition empty_store :: store where
  "empty_store = \<lparr>sessions = [], runs = [], run_events = [], transcript_items = [],
     approval_requests = [], side_effect_executions = [], run_step_checkpoints = [],
     run_recoveries = [], checkout_write_leases = [], idempotency_records = [],
     compaction_checkpoints = [], user_input_requests = [], workspace_checkouts = [],
     artifacts = [], run_diff_manifests = [], run_summaries = [], hosts = empty_hosts,
     replay = [], activity = []\<rparr>"

definition commits :: "'a tx \<Rightarrow> store \<Rightarrow> store \<Rightarrow> bool" where
  "commits m s s' \<longleftrightarrow> (\<exists>a. m s = Inr (a, s'))"

inductive store_step :: "store \<Rightarrow> store \<Rightarrow> bool" where
  acquire: "commits (acquire_checkout_write_lease cid rid g t) s s' \<Longrightarrow> store_step s s'"
| release: "commits (release_checkout_write_lease cid rid g) s s' \<Longrightarrow> store_step s s'"
| session: "commits (create_session ss) s s' \<Longrightarrow> store_step s s'"
| run: "commits (create_run_idempotent client key r) s s' \<Longrightarrow> store_step s s'"
| transition: "commits (transition_run display rid st code t t') s s' \<Longrightarrow> store_step s s'"
| event: "commits (append_event sid orid ev payload t) s s' \<Longrightarrow> store_step s s'"
| typed_event: "commits (append_typed_event sid orid ev typed payload t) s s' \<Longrightarrow> store_step s s'"
| live_delta: "commits (append_live_item_delta sid rid iid delta t) s s' \<Longrightarrow> store_step s s'"
| item: "commits (append_transcript_item i) s s' \<Longrightarrow> store_step s s'"
| complete: "commits (complete_transcript_item iid ist p t) s s' \<Longrightarrow> store_step s s'"
| complete_kind: "commits (complete_transcript_item_as_kind iid k ist p t) s s' \<Longrightarrow> store_step s s'"
| compaction: "commits (create_compaction_checkpoint c) s s' \<Longrightarrow> store_step s s'"
| approval: "commits (create_approval a) s s' \<Longrightarrow> store_step s s'"
| resolve: "commits (resolve_approval res) s s' \<Longrightarrow> store_step s s'"
| cancel_approvals: "commits (cancel_run_approvals rid t) s s' \<Longrightarrow> store_step s s'"
| claim: "commits (claim_side_effect_with_authority fresh e authority) s s' \<Longrightarrow> store_step s s'"
| dispatched: "commits (mark_side_effect_dispatched eid hr t) s s' \<Longrightarrow> store_step s s'"
| dispatched_current:
    "commits (mark_side_effect_dispatched_if_current fresh eid rid g hr t) s s' \<Longrightarrow> store_step s s'"
| cancel_effect: "commits (cancel_claimed_side_effect eid t) s s' \<Longrightarrow> store_step s s'"
| finish_effect: "commits (finish_side_effect eid est code art res t) s s' \<Longrightarrow> store_step s s'"
| checkpoint: "commits (record_run_step_checkpoint sc) s s' \<Longrightarrow> store_step s s'"
| recover: "recover_interrupted_with_run_recovery freshes t t' enabled s = (s', report) \<Longrightarrow> store_step s s'"
| resolve_recovery: "commits (resolve_run_recovery request client t) s s' \<Longrightarrow> store_step s s'"
| finish_recovery: "commits (finish_run_recovery rid g ok t) s s' \<Longrightarrow> store_step s s'"
| ask: "commits (create_user_input_request u) s s' \<Longrightarrow> store_step s s'"
| answer: "commits (resolve_user_input ur) s s' \<Longrightarrow> store_step s s'"
| cancel_inputs: "commits (cancel_run_user_inputs rid t by_client) s s' \<Longrightarrow> store_step s s'"
| expire_input: "commits (expire_user_input uid t) s s' \<Longrightarrow> store_step s s'"
| others: "store_step s (s\<lparr>workspace_checkouts := cs, artifacts := arts, run_diff_manifests := ms,
     run_summaries := sums, hosts := h\<rparr>)"

inductive store_run :: "store \<Rightarrow> store \<Rightarrow> bool" where
  start: "store_run s s"
| more: "store_run s s' \<Longrightarrow> store_step s' s'' \<Longrightarrow> store_run s s''"

definition reachable :: "store \<Rightarrow> bool" where
  "reachable s \<longleftrightarrow> store_run empty_store s"

lemma commits_rel: "tx_rel R s m \<Longrightarrow> commits m s s' \<Longrightarrow> R s s'"
  by (auto simp: commits_def dest: tx_relD)

lemmas adv_ops = adv_leases adv_create_session adv_create_run adv_transition_run adv_events
  adv_live_delta adv_append_item adv_complete_transcript_item adv_compaction adv_create_approval
  adv_resolve_approval adv_cancel_run_approvals adv_claim adv_effect_ops adv_dispatch
  adv_record_checkpoint adv_resolve_recovery adv_finish_recovery adv_create_input
  adv_resolve_input adv_cancel_inputs adv_expire_input

lemma step_advances: "store_step s s' \<Longrightarrow> advances s s'"
  by (induction rule: store_step.induct)
    ((erule commits_rel [rotated], rule adv_ops) | erule adv_recover_feature | rule adv_frame; simp)+

lemma empty_ok: "store_ok empty_store"
  by (simp add: ok_defs empty_store_def)

lemma run_advances: "store_run s s' \<Longrightarrow> advances s s'"
  by (induction rule: store_run.induct) (auto simp: adv.refl intro: adv.trans step_advances)

lemma reachable_ok: "reachable s \<Longrightarrow> store_ok s"
  using run_advances [of empty_store s] empty_ok by (simp add: reachable_def advances_def)

lemma run_le_of: "store_ok s \<Longrightarrow> store_run s s' \<Longrightarrow> store_ok s' \<and> store_le s s'"
  using run_advances by (auto simp: advances_def)

lemma store_run_trans: "store_run s' s'' \<Longrightarrow> store_run s s' \<Longrightarrow> store_run s s''"
  by (induction rule: store_run.induct) (auto intro: store_run.more)

lemma reachable_run:
  assumes "store_run s s'" and "reachable s"
  shows "reachable s'"
  using assms by (induction rule: store_run.induct) (auto simp: reachable_def intro: store_run.more)

end
