(* ===== verification/Store_Frame.thy ===== *)
theory Store_Frame
  imports Store_Steps
begin

text \<open>
  What the other operations leave alone. The contract \<open>quiet_order\<close> is that of a relation which
  no change outside the lease table and no insertion but that of a side effect can break; in it
  every operation that neither takes leases nor claims effects is shown to respect the relation.
  It is interpreted by the equality of the lease table and by the equality of the claimed approvals.
\<close>

section \<open>The contract\<close>

locale quiet_order = store_order +
  assumes quiet_sessions: "R s (s\<lparr>sessions := v1\<rparr>)"
    and quiet_runs: "R s (s\<lparr>runs := v2\<rparr>)"
    and quiet_events: "R s (s\<lparr>run_events := v3\<rparr>)"
    and quiet_items: "R s (s\<lparr>transcript_items := v4\<rparr>)"
    and quiet_approvals: "R s (s\<lparr>approval_requests := v5\<rparr>)"
    and quiet_effects: "(\<And>e. se_approval_id (f e) = se_approval_id e) \<Longrightarrow> R s (update_effects p f s)"
    and quiet_checkpoints: "R s (s\<lparr>run_step_checkpoints := v6\<rparr>)"
    and quiet_recoveries: "R s (s\<lparr>run_recoveries := v7\<rparr>)"
    and quiet_idempotency: "R s (s\<lparr>idempotency_records := v8\<rparr>)"
    and quiet_compactions: "R s (s\<lparr>compaction_checkpoints := v9\<rparr>)"
    and quiet_inputs: "R s (s\<lparr>user_input_requests := v10\<rparr>)"
    and quiet_summaries: "R s (s\<lparr>run_summaries := v11\<rparr>)"
    and quiet_hosts: "R s (s\<lparr>hosts := v12\<rparr>)"
    and quiet_replay: "R s (s\<lparr>replay := v13\<rparr>)"
    and quiet_activity: "R s (s\<lparr>activity := v14\<rparr>)"
    and quiet_others: "R s (s\<lparr>workspace_checkouts := cs, artifacts := arts,
      run_diff_manifests := ms, run_summaries := v11, hosts := v12\<rparr>)"
begin

lemma quiet_updates:
  "R s (update_runs q1 f1 s)" "R s (update_items q2 f2 s)" "R s (update_approvals q3 f3 s)"
  "R s (update_inputs q4 f4 s)" "R s (update_hosts g s)"
  by (simp_all add: update_runs_def update_items_def update_approvals_def update_inputs_def
      update_hosts_def quiet_runs quiet_items quiet_approvals quiet_inputs quiet_hosts)

lemma quiet_inserts:
  "tx_rel R s (insert_session i1)" "tx_rel R s (insert_run i2)" "tx_rel R s (insert_event i3)"
  "tx_rel R s (insert_item i4)" "tx_rel R s (insert_approval i5)" "tx_rel R s (insert_checkpoint i6)"
  "tx_rel R s (insert_recovery i7)" "tx_rel R s (insert_idempotency i8)"
  "tx_rel R s (insert_compaction i9)" "tx_rel R s (insert_user_input i10)"
  unfolding insert_session_def insert_run_def insert_event_def insert_item_def insert_approval_def
    insert_checkpoint_def insert_recovery_def insert_idempotency_def insert_compaction_def
    insert_user_input_def
  by (rule rel_insert, rule quiet_sessions quiet_runs quiet_events quiet_items quiet_approvals
      quiet_checkpoints quiet_recoveries quiet_idempotency quiet_compactions quiet_inputs)+

lemma quiet_sequence: "tx_rel R s (next_sequence_tx sid t)"
  unfolding next_sequence_tx_def
  by (intro rel_bind_expect rel_bind_modify quiet_sessions rel_ret)

lemma quiet_append: "tx_rel R s (append_event_typed_tx sid rid event typed payload t)"
  unfolding append_event_typed_tx_def Let_def
  by (intro rel_bind quiet_sequence quiet_inserts rel_ret)

lemma quiet_emit: "tx_rel R s (emit_tx sid rid event payload t)"
  "tx_rel R s (emit_typed_tx sid rid q t)"
  unfolding emit_tx_def append_event_tx_def emit_typed_tx_def
  by (intro rel_bind quiet_append rel_ret)+

lemma quiet_get_run: "tx_rel R s (get_run_tx rid)"
  unfolding get_run_tx_def by (rule rel_expect)

lemma quiet_bump: "tx_rel R s (bump_environment_revision_tx sid t)"
  unfolding bump_environment_revision_tx_def
  by (intro rel_bind_expect rel_bind_gets rel_option rel_bind_modify rel_ret quiet_updates)

lemmas quiet_seq = rel_ret rel_fail rel_gets rel_require rel_expect rel_when rel_if rel_option
  rel_modify quiet_inserts quiet_sequence quiet_append quiet_emit quiet_get_run quiet_bump
  quiet_updates rel_for rel_collect rel_bind

section \<open>Runs, events, transcript\<close>

lemma quiet_send: "R s (send_activity r s)"
  by (simp add: send_activity_def quiet_activity)

lemma quiet_session_ops: "tx_rel R s (create_session r)" "tx_rel R s (create_run_idempotent c k run)"
  unfolding create_session_def create_run_idempotent_def by (intro quiet_seq quiet_send)+

lemma quiet_finalize: "tx_rel R s (finalize_run_summary rid st t)"
  unfolding finalize_run_summary_def put_run_summary_def Let_def
  by (intro quiet_seq rel_insert quiet_summaries)

lemma quiet_result: "tx_rel R s m \<Longrightarrow> m s = Inr (a, s') \<Longrightarrow> R s0 s \<Longrightarrow> R s0 s'"
  by (blast intro: trans dest: tx_relD)

lemma quiet_after: "R s (after_transition display updated st t t' s)"
  unfolding after_transition_def Let_def
  by (auto split: sum.splits prod.splits intro: quiet_send
      quiet_result [OF quiet_finalize _ quiet_send] quiet_result [OF quiet_emit(1) _ quiet_send])

lemma quiet_transition: "tx_rel R s (transition_run display rid st code t t')"
  unfolding transition_run_def transition_run_tx_def by (intro quiet_seq quiet_after)

lemma quiet_event_ops:
  "tx_rel R s (append_event sid rid event payload t)"
  "tx_rel R s (append_typed_event sid rid event typed payload t)"
  unfolding append_event_def append_typed_event_def append_event_tx_def by (rule quiet_append)+

lemma quiet_complete_item: "R s (complete_item sid iid s)"
  by (simp add: complete_item_def set_replay_def Let_def refl quiet_replay split: option.splits)

lemma quiet_live: "tx_rel R s (append_live_item_delta sid rid iid delta t)"
  unfolding append_live_item_delta_def publish_def set_replay_def Let_def
  by (intro quiet_seq quiet_replay)

lemma quiet_item_ops:
  "tx_rel R s (append_transcript_item i)" "tx_rel R s (complete_transcript_item iid st p t)"
  "tx_rel R s (complete_transcript_item_as_kind iid k st p t)"
  unfolding append_transcript_item_def complete_transcript_item_def
    complete_transcript_item_as_kind_def complete_with_def Let_def
  by (intro quiet_seq quiet_complete_item)+

lemma quiet_compaction: "tx_rel R s (create_compaction_checkpoint c)"
  unfolding create_compaction_checkpoint_def by (intro quiet_seq)

section \<open>Approvals and effects\<close>

lemma quiet_approval_ops:
  "tx_rel R s (create_approval a)" "tx_rel R s (resolve_approval r)"
  "tx_rel R s (cancel_run_approvals rid t)" "tx_rel R s (consume_approval aid e authority)"
  unfolding create_approval_def resolve_approval_def cancel_run_approvals_def consume_approval_def Let_def
  by (intro quiet_seq)+

lemma quiet_copy: "tx_rel R s (copy_side_effect_checkpoint_tx fresh e phase t)"
  unfolding copy_side_effect_checkpoint_tx_def insert_checkpoint_or_ignore_def by (intro quiet_seq)

lemma quiet_transition_effect:
  "tx_rel R s (transition_side_effect eid expected st hr code ref res t)"
  unfolding transition_side_effect_def set_effect_def
  by (intro quiet_seq rel_insert quiet_effects) simp

lemma quiet_effect_ops:
  "tx_rel R s (mark_side_effect_dispatched eid hr t)"
  "tx_rel R s (cancel_claimed_side_effect eid t)"
  "tx_rel R s (finish_side_effect eid st code ref res t)"
  "tx_rel R s (mark_side_effect_dispatched_if_current fresh eid rid g hr t)"
  unfolding mark_side_effect_dispatched_def cancel_claimed_side_effect_def finish_side_effect_def
    mark_side_effect_dispatched_if_current_def
  by (intro quiet_seq quiet_transition_effect quiet_copy quiet_effects; simp)+

section \<open>Recovery and user input\<close>

lemma quiet_record: "tx_rel R s (record_run_step_checkpoint c)"
  unfolding record_run_step_checkpoint_def by (intro quiet_seq)

lemma quiet_complete_items: "R s (complete_items rows s)"
  by (induction rows arbitrary: s)
    (auto simp: complete_items_def refl intro: trans quiet_complete_item)

lemma quiet_settle: "R s (settle_effects t s)"
  unfolding settle_effects_def by (rule trans [OF quiet_effects quiet_effects]) simp_all

lemma quiet_recover:
  assumes "R s (s\<lparr>checkout_write_leases := []\<rparr>)"
  shows "tx_rel R s (recover_interrupted fresh t)"
  unfolding recover_interrupted_def interrupt_run_def interrupt_item_def classify_run_def Let_def
    expire_pending_approvals_def interrupt_pending_inputs_def
  by (intro rel_bind_gets rel_bind_modify assms quiet_seq quiet_settle quiet_complete_items)

lemma quiet_abandon: "tx_rel R s (abandon_recoveries t)"
  unfolding abandon_recoveries_def by (intro quiet_seq quiet_recoveries)

lemma quiet_recover_feature:
  assumes "R s (s\<lparr>checkout_write_leases := []\<rparr>)"
    and "recover_interrupted_with_run_recovery fresh t t' enabled s = (s', res)"
  shows "R s s'"
  using assms(2) quiet_recover [OF assms(1), of fresh t]
  by (auto simp: recover_interrupted_with_run_recovery_def tx_rel_def refl
      split: sum.splits if_splits intro: trans dest!: tx_relD [OF quiet_abandon])

lemma quiet_indeterminate: "tx_rel R s (resolve_indeterminate_side_effect_tx eid st code t)"
  unfolding resolve_indeterminate_side_effect_tx_def Let_def
  by (intro quiet_seq quiet_effects) simp

lemma quiet_decide: "tx_rel R s (update_recovery_state_tx rid st client action key t)"
  unfolding update_recovery_state_tx_def by (intro rel_modify quiet_recoveries)

lemma quiet_check: "tx_rel R s (check_decision r action c t)"
  unfolding check_decision_def by (cases action; simp; intro quiet_seq quiet_indeterminate)

lemma quiet_move: "tx_rel R s (move_recovering_run r f)"
  unfolding move_recovering_run_def Let_def by (intro quiet_seq)

lemma quiet_recovery_ops:
  "tx_rel R s (resolve_run_recovery request client t)" "tx_rel R s (finish_run_recovery rid g ok t)"
  unfolding resolve_run_recovery_def finish_run_recovery_def abandon_run_tx_def resume_run_tx_def
  by (intro quiet_seq quiet_decide quiet_check quiet_move quiet_recoveries)+

lemma quiet_lift: "tx_rel R s (lift_result r)"
  by (cases r) (simp_all add: tx_rel_def lift_result_def refl)

lemma quiet_input_ops:
  "tx_rel R s (create_user_input_request u)" "tx_rel R s (resolve_user_input r)"
  "tx_rel R s (cancel_run_user_inputs rid t by)" "tx_rel R s (expire_user_input uid t)"
  unfolding create_user_input_request_def resolve_user_input_def settle_user_input_def cancel_run_user_inputs_def
    expire_user_input_def Let_def case_prod_beta
  by (intro quiet_seq quiet_lift)+

lemmas quiet_ops = quiet_session_ops quiet_transition quiet_event_ops quiet_live quiet_item_ops
  quiet_compaction quiet_approval_ops quiet_effect_ops quiet_record quiet_recovery_ops
  quiet_input_ops

text \<open>A step respects the relation, given the operations the contract does not speak of.\<close>

lemma quiet_step:
  assumes "store_step s s'"
    and "\<And>cid rid g t. commits (acquire_checkout_write_lease cid rid g t) s s' \<Longrightarrow> R s s'"
    and "\<And>cid rid g. commits (release_checkout_write_lease cid rid g) s s' \<Longrightarrow> R s s'"
    and "\<And>fresh e authority. commits (claim_side_effect_with_authority fresh e authority) s s' \<Longrightarrow> R s s'"
    and "R s (s\<lparr>checkout_write_leases := []\<rparr>)"
  shows "R s s'"
  using assms
  by (cases rule: store_step.cases)
    ((erule commits_rel [rotated], rule quiet_ops) | (rule quiet_recover_feature, assumption, assumption) |
      (simp, rule quiet_others) | blast)+

end

end
