(* ===== verification/Store_Demo.thy ===== *)
theory Store_Demo
  imports Store_Steps
begin

text \<open>
  A short execution on concrete data, for the witnesses: a session, a run that is started, an
  approval that is granted, and a side effect that is claimed with it.
\<close>

definition demo_session :: session_row where
  "demo_session = \<lparr>ss_id = ''s'', ss_context = [], ss_entry_profile = Workbench_Entry, ss_title = [],
     ss_archived = False, ss_pinned = False, ss_parent_session_id = None,
     ss_source_run_id = None, ss_next_sequence = 0, ss_created_at_ms = 1, ss_updated_at_ms = 1\<rparr>"

definition demo_run :: run_record where
  "demo_run = \<lparr>rr_id = ''r'', rr_session_id = ''s'', rr_status = Queued, rr_purpose = Task,
     rr_origin = [], rr_generation = 1, rr_configuration = [], rr_requested_capabilities = [],
     rr_negotiated_capabilities = [], rr_provider_capability_probe = None,
     rr_capability_degradations = [], rr_failure_code = None, rr_created_at_ms = 2,
     rr_updated_at_ms = 2\<rparr>"

definition demo_approval :: approval_record where
  "demo_approval = \<lparr>ap_id = ''a'', ap_session_id = ''s'', ap_run_id = ''r'', ap_tool_call_id = ''c'',
     ap_run_generation = 1, ap_status = Pending, ap_action = [], ap_resource = [],
     ap_parameter_hash = ''h'', ap_risk_summary = [], ap_target_host = [], ap_required_scopes = [],
     ap_grant_scope = GrantOnce, ap_uses_remaining = 1, ap_requester_principal = [],
     ap_resolved_by = None, ap_expires_at_ms = None, ap_created_at_ms = 3, ap_resolved_at_ms = None\<rparr>"

definition demo_resolution :: approval_resolution where
  "demo_resolution = \<lparr>ar_approval_id = ''a'', ar_decision = Approved, ar_parameter_hash = ''h'',
     ar_run_generation = 1, ar_resolved_by = ''u'', ar_resolved_at_ms = 4\<rparr>"

definition demo_effect :: side_effect_record where
  "demo_effect = \<lparr>se_id = ''e'', se_session_id = ''s'', se_run_id = ''r'', se_run_generation = 1,
     se_tool_call_id = ''c'', se_idempotency_key = ''k'', se_parameter_hash = ''h'',
     se_approval_id = Some ''a'', se_host_request_id = None, se_status = Claimed,
     se_result_code = None, se_result_reference = None, se_created_at_ms = 5, se_updated_at_ms = 5\<rparr>"

definition demo_display :: "store_error \<Rightarrow> string" where
  "demo_display e = []"

definition after :: "'a tx \<Rightarrow> store \<Rightarrow> store" where
  "after m s = (case m s of Inl _ \<Rightarrow> s | Inr (_, s') \<Rightarrow> s')"

definition demo_move :: "run_status \<Rightarrow> store \<Rightarrow> store" where
  "demo_move st = after (transition_run demo_display ''r'' st None 3 3)"

definition demo_started :: store where
  "demo_started = demo_move Running (demo_move Preparing
     (after (create_run_idempotent ''p'' ''i'' demo_run) (after (create_session demo_session) empty_store)))"

definition demo_waiting :: store where
  "demo_waiting = after (create_approval demo_approval) (demo_move WaitingApproval demo_started)"

definition demo_approved :: store where
  "demo_approved = demo_move Running (after (resolve_approval demo_resolution) demo_waiting)"

definition demo_claimed :: store where
  "demo_claimed = after (claim_side_effect_with_authority ''cp'' demo_effect None) demo_approved"

definition demo_succeeded :: store where
  "demo_succeeded = demo_move Succeeded demo_claimed"

lemma after_run: "store_run s0 s \<Longrightarrow> (\<And>s'. commits m s s' \<Longrightarrow> store_step s s') \<Longrightarrow> store_run s0 (after m s)"
  by (auto simp: after_def commits_def split: sum.splits intro: store_run.more)

lemma demo_move_run: "store_run s0 s \<Longrightarrow> store_run s0 (demo_move st s)"
  unfolding demo_move_def by (rule after_run) (auto intro: store_step.transition)

lemma demo_started_run: "store_run empty_store demo_started"
  unfolding demo_started_def
  by (intro demo_move_run after_run store_run.start) (auto intro: store_step.intros)

lemma demo_waiting_run: "store_run demo_started demo_waiting"
  unfolding demo_waiting_def
  by (intro demo_move_run after_run store_run.start) (auto intro: store_step.intros)

lemma demo_approved_run: "store_run demo_waiting demo_approved"
  unfolding demo_approved_def
  by (intro demo_move_run after_run store_run.start) (auto intro: store_step.intros)

lemma demo_claimed_run: "store_run demo_approved demo_claimed"
  unfolding demo_claimed_def
  by (intro demo_move_run after_run store_run.start) (auto intro: store_step.intros)

lemma demo_succeeded_run: "store_run demo_claimed demo_succeeded"
  unfolding demo_succeeded_def by (intro demo_move_run store_run.start)

lemma demo_reachable: "reachable demo_started" "reachable demo_waiting" "reachable demo_approved"
  "reachable demo_claimed" "reachable demo_succeeded"
proof -
  show *: "reachable demo_started" using demo_started_run by (simp add: reachable_def)
  show **: "reachable demo_waiting" by (rule reachable_run [OF demo_waiting_run *])
  show ***: "reachable demo_approved" by (rule reachable_run [OF demo_approved_run **])
  show ****: "reachable demo_claimed" by (rule reachable_run [OF demo_claimed_run ***])
  show "reachable demo_succeeded" by (rule reachable_run [OF demo_succeeded_run ****])
qed

text \<open>The definitions that evaluate an operation of this execution.\<close>

lemmas demo_ops = demo_session_def demo_run_def demo_approval_def demo_resolution_def demo_effect_def
  demo_move_def after_def empty_store_def empty_hosts_def tx_simps Let_def
  insert_session_def insert_run_def insert_event_def insert_idempotency_def insert_approval_def
  insert_effect_def session_exists_def run_exists_def opt_exists_def approval_exists_def
  artifact_exists_def effect_exists_def effect_key_def
  emit_tx_def append_event_tx_def append_event_typed_tx_def next_sequence_tx_def get_session_def
  get_run_tx_def get_run_def update_runs_def update_hosts_def send_activity_def
  create_session_def create_run_idempotent_def transition_run_def transition_run_tx_def
  after_transition_def is_terminal_def release_run_hosts_def retire_def
  create_approval_def resolve_approval_def resolved_status_def get_approval_def update_approvals_def
  claim_side_effect_with_authority_def consume_approval_def approval_covers_def find_effect_def
  copy_side_effect_checkpoint_tx_def row_of_def record_of_def
  side_effect_record.defs finalize_run_summary_def put_run_summary_def

text \<open>The stores of the execution, evaluated once.\<close>

declare demo_ops [simp]

lemmas demo_started_nf = demo_started_def [simplified]
lemmas demo_waiting_nf = demo_waiting_def [unfolded demo_started_nf, simplified]
lemmas demo_approved_nf = demo_approved_def [unfolded demo_waiting_nf, simplified]
lemmas demo_claimed_nf = demo_claimed_def [unfolded demo_approved_nf, simplified]
lemmas demo_succeeded_nf = demo_succeeded_def [unfolded demo_claimed_nf, simplified]

declare demo_ops [simp del]

lemmas demo_eval = demo_ops demo_started_nf demo_waiting_nf demo_approved_nf demo_claimed_nf
  demo_succeeded_nf

lemma demo_facts:
  "map_option rr_status (get_run ''r'' demo_started) = Some Running"
  "map_option ap_status (get_approval ''a'' demo_approved) = Some Approved"
  "map_option ap_uses_remaining (get_approval ''a'' demo_approved) = Some 1"
  "map_option ap_uses_remaining (get_approval ''a'' demo_claimed) = Some 0"
  "map_option se_status (get_effect ''e'' demo_claimed) = Some Claimed"
  by (simp_all add: demo_eval get_effect_def)

lemma demo_succeeded_status: "map_option rr_status (get_run ''r'' demo_succeeded) = Some Succeeded"
  by (simp add: demo_eval)

section \<open>A restart\<close>

text \<open>The run is interrupted with the effect claimed, after a checkpoint of its step.\<close>

definition demo_checkpoint :: step_checkpoint where
  "demo_checkpoint = \<lparr>sc_id = ''k'', sc_session_id = ''s'', sc_run_id = ''r'', sc_run_generation = 1,
     sc_step_index = 0, sc_phase = ToolPrepared, sc_tool_call_id = Some ''c'', sc_tool_name = Some ''t'',
     sc_side_effect_execution_id = None, sc_recovery_policy = IdempotentWithReceipt,
     sc_parameter_hash = Some ''h'', sc_world_revision = [], sc_provider_revision = [],
     sc_revision_snapshot = [], sc_created_at_ms = 6\<rparr>"

definition demo_saved :: store where
  "demo_saved = after (record_run_step_checkpoint demo_checkpoint) demo_claimed"

lemma demo_saved_run: "store_run demo_claimed demo_saved"
  unfolding demo_saved_def by (intro after_run store_run.start) (auto intro: store_step.intros)

lemma demo_saved_reachable: "reachable demo_saved"
  by (rule reachable_run [OF demo_saved_run demo_reachable(4)])

lemmas restart_ops = demo_ops demo_checkpoint_def record_run_step_checkpoint_def
  link_checkpoint_def latest_effect_of_call_def text_key_def insert_checkpoint_def
  checkpoint_unique_def checkpoint_references_def checkpoint_clash_def checkpoint_exists_def
  recover_interrupted_def is_active_def interrupt_run_def set_status_def expire_pending_approvals_def
  interrupt_pending_inputs_def update_inputs_def settle_effects_def update_effects_def
  has_effect_status_def complete_items_def classify_run_def recovery_facts_def
  latest_generation_checkpoint_def indeterminate_effect_of_def get_effect_def proven_safe_def
  auto_eligible_def reason_code_def insert_recovery_def reset_hosts_def mark_rows_def
  count_status_def

declare restart_ops [simp]

lemmas demo_saved_nf = demo_saved_def [unfolded demo_claimed_nf, simplified]

declare restart_ops [simp del]

lemmas restart_eval = restart_ops demo_eval demo_saved_nf

lemma demo_restart_saved:
  "\<exists>report s'. recover_interrupted (\<lambda>r. r) 9 demo_saved = Inr (report, s') \<and> rp_auto_resume_run_ids report = [''r'']"
  by (simp add: restart_eval)

lemma demo_restart_claimed:
  "\<exists>report s'. recover_interrupted (\<lambda>r. r) 9 demo_claimed = Inr (report, s') \<and> rp_awaiting_decision_run_ids report = [''r'']"
  by (simp add: restart_eval)

end
