(* ===== verification/Store_Props.thy ===== *)
theory Store_Props
  imports Store_Frame Store_Demo
begin

text \<open>
  What the agent store promises over whole executions: the log of a session, the life of runs,
  approvals and side effects, and the leases.
\<close>

section \<open>Rows over time\<close>

lemma get_later:
  assumes "evolves r xs ys" and "distinct (map k ys)" and "\<And>x y. r x y \<Longrightarrow> k y = k x"
    and "find (\<lambda>x. k x = v) xs = Some x"
  shows "\<exists>y. find (\<lambda>y. k y = v) ys = Some y \<and> r x y"
proof -
  have "x \<in> set xs" and "k x = v" using find_Some_imp [OF assms(4)] by auto
  then obtain i where i: "i < length xs" "x = xs ! i" by (auto simp: in_set_conv_nth)
  then have "r x (ys ! i)" and "ys ! i \<in> set ys" using assms(1) by (auto simp: evolves_def)
  then show ?thesis
    using find_key_Some_iff [OF assms(2)] assms(3) \<open>k x = v\<close> by blast
qed

lemma run_later:
  assumes "reachable s" and "store_run s s'" and "get_run rid s = Some r"
  obtains r' where "get_run rid s' = Some r'" and "run_le r r'"
proof -
  have "store_ok s'" and "store_le s s'"
    using run_le_of [OF reachable_ok [OF assms(1)] assms(2)] by auto
  then show thesis
    using get_later [of run_le "runs s" "runs s'" rr_id] assms(3) that
    by (auto simp: store_ok_def keys_ok_def store_le_def get_run_def run_le_def)
qed

lemma approval_later:
  assumes "reachable s" and "store_run s s'" and "get_approval aid s = Some a"
  obtains a' where "get_approval aid s' = Some a'" and "approval_le a a'"
proof -
  have "store_ok s'" and "store_le s s'"
    using run_le_of [OF reachable_ok [OF assms(1)] assms(2)] by auto
  then show thesis
    using get_later [of approval_le "approval_requests s" "approval_requests s'" ap_id] assms(3) that
      approval_le_id
    by (auto simp: store_ok_def keys_ok_def store_le_def get_approval_def)
qed

lemma effect_later:
  assumes "reachable s" and "store_run s s'" and "get_effect eid s = Some e"
  obtains e' where "get_effect eid s' = Some e'" and "effect_le e e'"
proof -
  have "store_ok s'" and "store_le s s'"
    using run_le_of [OF reachable_ok [OF assms(1)] assms(2)] by auto
  then show thesis
    using get_later [of effect_le "side_effect_executions s" "side_effect_executions s'" se_id]
      assms(3) that effect_le_key(1)
    by (auto simp: store_ok_def keys_ok_def store_le_def get_effect_def)
qed

section \<open>The log\<close>

text \<open>In every reachable store the sequence numbers of a session are allocated once: no two
  events or transcript items of a session share one, and all of them are positive and below the
  next number the session hands out.\<close>

theorem session_log_unique:
  assumes "reachable s"
  shows "distinct (log_keys s) \<and>
    list_all (\<lambda>(sid, q). 0 < q \<and> q < next_sequence_of sid s) (log_keys s)"
  using reachable_ok [OF assms] by (auto simp: store_ok_def log_ok_def list_all_iff)

theorem session_log_unique_witness:
  "distinct (log_keys demo_claimed) \<and>
    list_all (\<lambda>(sid, q). 0 < q \<and> q < next_sequence_of sid demo_claimed) (log_keys demo_claimed)"
  by (rule session_log_unique [OF demo_reachable(4)])



section \<open>Runs\<close>

text \<open>C7: A run that has succeeded, failed, timed out or been cancelled stays so through every
  later operation, recovery after restarts included, and its generation no longer changes; the
  generation of any run never decreases.\<close>

theorem settled_run_stays:
  assumes "reachable s" and "store_run s s'" and "get_run rid s = Some r"
  shows "\<exists>r'. get_run rid s' = Some r' \<and> rr_generation r \<le> rr_generation r' \<and>
    (settled (rr_status r) \<longrightarrow> rr_status r' = rr_status r \<and> rr_generation r' = rr_generation r)"
  using run_later [OF assms] by (auto simp: run_le_def)

theorem settled_run_stays_witness:
  "\<exists>r r'. get_run ''r'' demo_claimed = Some r \<and> get_run ''r'' demo_succeeded = Some r' \<and>
    rr_generation r \<le> rr_generation r'"
proof -
  obtain r where r: "get_run ''r'' demo_started = Some r" using demo_facts(1) by auto
  have run: "store_run demo_started demo_claimed"
    by (metis demo_waiting_run demo_approved_run demo_claimed_run store_run_trans)
  obtain r1 where r1: "get_run ''r'' demo_claimed = Some r1"
    using settled_run_stays [OF demo_reachable(1) run r] by auto
  then show ?thesis
    using settled_run_stays [OF demo_reachable(4) demo_succeeded_run r1] by auto
qed

lemma bump_session_exists [simp]: "session_exists tid (bump_session sid t s) = session_exists tid s"
proof -
  have "map ss_id (sessions (bump_session sid t s)) = map ss_id (sessions s)"
    by (auto simp: bump_session_def intro!: map_update_where)
  then show ?thesis by (metis session_exists_def list.set_map)
qed

text \<open>On a well-formed store an event of an existing session and run is always written.\<close>

definition event_row :: "string \<Rightarrow> string option \<Rightarrow> run_event_payload \<Rightarrow> int \<Rightarrow> nat \<Rightarrow> run_event_envelope" where
  "event_row sid rid payload t q = \<lparr>ev_protocol_version = control_protocol_version, ev_sequence = q,
     ev_session_id = sid, ev_run_id = rid, ev_payload = payload, ev_created_at_ms = t\<rparr>"

definition with_event :: "string \<Rightarrow> string option \<Rightarrow> run_event_payload \<Rightarrow> int \<Rightarrow> store \<Rightarrow> store" where
  "with_event sid rid payload t s = (bump_session sid t s)\<lparr>run_events := run_events s @
     [event_row sid rid payload t (next_sequence_of sid s)]\<rparr>"

lemma emit_result:
  assumes "store_ok s" and "session_exists sid s" and "opt_exists run_exists rid s"
  shows "append_event_typed_tx sid rid event typed payload t s =
      Inr (event_row sid rid (case typed of Some p \<Rightarrow> p | None \<Rightarrow> Generic event payload) t
        (next_sequence_of sid s),
        with_event sid rid (case typed of Some p \<Rightarrow> p | None \<Rightarrow> Generic event payload) t s)"
proof -
  obtain r where r: "get_session sid s = Some r"
    using assms(2) by (cases "get_session sid s") (auto simp: session_exists_def get_session_def find_None_iff)
  have q: "next_sequence_of sid s = ss_next_sequence r" using r by (simp add: next_sequence_of_def)
  have "fresh_seq sid (ss_next_sequence r) (bump_session sid t s)"
    by (rule bump_session_ok [OF assms(1) r])
  then have fresh: "(sid, ss_next_sequence r) \<notin> (\<lambda>x. (ev_session_id x, ev_sequence x)) ` set (run_events s)"
    "0 < ss_next_sequence r"
    by (auto simp: fresh_seq_def log_keys_def bump_session_def)
  have "session_exists sid (bump_session sid t s)" using assms(2) by (simp add: bump_session_exists)
  moreover have "opt_exists run_exists rid (bump_session sid t s)"
    using assms(3) by (auto simp: opt_exists_def run_exists_def bump_session_def split: option.splits)
  moreover have "run_events (bump_session sid t s) = run_events s" by (simp add: bump_session_def)
  ultimately show ?thesis
    using fresh by (simp add: append_event_typed_tx_def tx_simps next_sequence_tx_eq r Let_def
        insert_event_def with_event_def event_row_def q)
qed

lemma emit_results:
  assumes "store_ok s" and "session_exists sid s" and "opt_exists run_exists rid s"
  shows "emit_tx sid rid event payload t s = Inr ((), with_event sid rid (Generic event payload) t s)"
    and "emit_typed_tx sid rid p t s = Inr ((), with_event sid rid p t s)"
  using emit_result [OF assms] by (simp_all add: emit_tx_def append_event_tx_def emit_typed_tx_def tx_simps)

lemma with_event_fields [simp]:
  "runs (with_event sid rid p t s) = runs s"
  "run_events (with_event sid rid p t s) = run_events s @ [event_row sid rid p t (next_sequence_of sid s)]"
  "hosts (with_event sid rid p t s) = hosts s"
  "side_effect_executions (with_event sid rid p t s) = side_effect_executions s"
  "approval_requests (with_event sid rid p t s) = approval_requests s"
  "run_recoveries (with_event sid rid p t s) = run_recoveries s"
  by (simp_all add: with_event_def bump_session_def)

lemma run_session_exists:
  "store_ok s \<Longrightarrow> get_run rid s = Some r \<Longrightarrow> session_exists (rr_session_id r) s \<and> run_exists rid s"
  by (auto simp: store_ok_def runs_ok_def session_exists_def run_exists_def dest!: get_run_id)

lemma finalize_fields:
  "finalize_run_summary rid st t s = Inr (u, s') \<Longrightarrow> runs s' = runs s \<and> run_events s' = run_events s"
  by (auto simp: finalize_run_summary_def put_run_summary_def Let_def tx_simps
      split: if_splits sum.splits)

lemma emit_fields:
  "emit_tx sid rid event p t s = Inr (u, s') \<Longrightarrow> runs s' = runs s \<and> (\<exists>e. run_events s' = run_events s @ [e])"
  by (auto simp: emit_tx_def append_event_tx_def append_event_typed_tx_def Let_def next_sequence_tx_eq
      tx_simps insert_event_def bump_session_def split: option.splits if_splits sum.splits)

lemma after_transition_fields:
  "runs (after_transition display r st t t' s) = runs s"
  "\<exists>es. run_events (after_transition display r st t t' s) = run_events s @ es"
  unfolding after_transition_def Let_def
  by (auto split: sum.splits prod.splits simp: send_activity_def
      dest!: finalize_fields emit_fields)

lemma bump_environment_result:
  "session_exists sid s \<Longrightarrow> \<exists>n h. bump_environment_revision_tx sid t s = Inr (n, s\<lparr>hosts := h\<rparr>)"
  by (cases "get_session sid s")
    (auto simp: session_exists_def get_session_def find_None_iff bump_environment_revision_tx_def
      tx_simps update_hosts_def split: option.splits)

lemma transition_tx_result:
  assumes ok: "store_ok s" and r: "get_run rid s = Some r"
    and legal: "can_transition_to (rr_status r) st"
  shows "\<exists>h. transition_run_tx r st code t s = Inr (set_status st code t r,
    (with_event (rr_session_id r) (Some rid)
      (Generic ''run.status_changed'' (status_change_json (rr_status r) st code)) t
      (update_runs (\<lambda>x. rr_id x = rid) (set_status st code t) s))\<lparr>hosts := h\<rparr>)"
proof -
  let ?s1 = "update_runs (\<lambda>x. rr_id x = rid) (set_status st code t) s"
  have rid: "rr_id r = rid" and mem: "r \<in> set (runs s)" using get_run_id [OF r] by auto
  have "advances s ?s1"
  proof (intro adv_update_runs run_status_le)
    fix x assume "x \<in> set (runs s)" and "rr_id x = rid"
    then have "x = r" using get_run_unique [OF ok r] rid by simp
    then show "\<not> settled (rr_status x)" using can_transition_settled [OF legal] by simp
  qed
  then have ok1: "store_ok ?s1" using ok by (simp add: advances_def)
  have run1: "get_run rid ?s1 = Some (set_status st code t r)"
    using r rid by (simp add: get_run_def update_runs_def find_update_where set_status_def)
  have "session_exists (rr_session_id r) ?s1" "opt_exists run_exists (Some rid) ?s1"
    using run_session_exists [OF ok1 run1] by (simp_all add: set_status_def opt_exists_def)
  note emit = emit_results(1) [OF ok1 this]
  let ?s2 = "with_event (rr_session_id r) (Some rid)
      (Generic ''run.status_changed'' (status_change_json (rr_status r) st code)) t ?s1"
  have run2: "get_run rid (?s2\<lparr>hosts := h\<rparr>) = Some (set_status st code t r)" for h
    using run1 by (simp add: get_run_def)
  have sess: "session_exists (rr_session_id r) (?s2\<lparr>hosts := h\<rparr>)" for h
    using run_session_exists [OF ok r] bump_session_exists [of "rr_session_id r" "rr_session_id r" t ?s1]
    by (simp add: session_exists_def with_event_def update_runs_def)
  have upd: "(\<lambda>r. r\<lparr>rr_status := st, rr_failure_code := code, rr_updated_at_ms := t\<rparr>) = set_status st code t"
    by (simp add: set_status_def fun_eq_iff)
  have host: "update_hosts f ?s2 = ?s2\<lparr>hosts := f (hosts ?s2)\<rparr>" for f
    by (simp add: update_hosts_def)
  show ?thesis
  proof (cases "is_terminal st")
    case False
    have "?s2\<lparr>hosts := hosts ?s2\<rparr> = ?s2" by simp
    then show ?thesis using False run2 [of "hosts ?s2"]
      by (intro exI [of _ "hosts ?s2"])
        (simp add: transition_run_tx_def tx_simps rid upd emit get_run_tx_def del: with_event_fields)
  next
    case True
    let ?h = "release_run_hosts rid t (hosts ?s2)"
    obtain n h where bumped: "bump_environment_revision_tx (rr_session_id r) t (?s2\<lparr>hosts := ?h\<rparr>) =
        Inr (n, ?s2\<lparr>hosts := h\<rparr>)"
      using bump_environment_result [OF sess [of ?h], of t] by auto
    show ?thesis
      by (cases "rid \<in> set (accepted_plan_runs ?h)")
        (use True run2 bumped in \<open>simp_all add: transition_run_tx_def tx_simps rid upd emit host
           get_run_tx_def del: with_event_fields\<close>; blast)+
  qed
qed

text \<open>\<open>transition_run\<close> of a run to another status commits exactly when the transition is in
  the table of the protocol; it then stores the new status and failure code in that run alone and
  appends the event with both statuses. Otherwise it is refused and nothing changes.\<close>

theorem transition_run_exact:
  assumes "reachable s" and "get_run rid s = Some r" and "rr_status r \<noteq> st"
  shows "if can_transition_to (rr_status r) st
    then \<exists>s' e es. transition_run display rid st code t t' s = Inr (set_status st code t r, s') \<and>
      runs s' = map (\<lambda>x. if rr_id x = rid then set_status st code t x else x) (runs s) \<and>
      run_events s' = run_events s @ e # es \<and>
      ev_payload e = Generic ''run.status_changed'' (status_change_json (rr_status r) st code)
    else transition_run display rid st code t t' s = Inl (InvalidRunTransition (rr_status r) st)"
proof (cases "can_transition_to (rr_status r) st")
  case True
  obtain s' h where tx: "transition_run_tx r st code t s = Inr (set_status st code t r, s')"
    "runs s' = map (\<lambda>x. if rr_id x = rid then set_status st code t x else x) (runs s)"
    "\<exists>e. run_events s' = run_events s @ [e] \<and>
      ev_payload e = Generic ''run.status_changed'' (status_change_json (rr_status r) st code)"
    using transition_tx_result [OF reachable_ok [OF assms(1)] assms(2) True, of code t]
    by (auto simp: update_runs_def update_where_def event_row_def)
  show ?thesis
    using tx assms(2,3) True after_transition_fields [of display "set_status st code t r" st t t' s']
    by (auto simp: transition_run_def get_run_tx_def tx_simps)
next
  case False
  then show ?thesis
    using assms(2,3) by (simp add: transition_run_def get_run_tx_def tx_simps)
qed

theorem transition_run_exact_witness:
  "\<exists>r s'. get_run ''r'' demo_started = Some r \<and>
    transition_run demo_display ''r'' Succeeded None 7 7 demo_started =
      Inr (set_status Succeeded None 7 r, s')"
proof -
  obtain r where r: "get_run ''r'' demo_started = Some r" "rr_status r = Running"
    using demo_facts(1) by auto
  then show ?thesis
    using transition_run_exact [OF demo_reachable(1) r(1), of Succeeded demo_display None 7 7] by auto
qed

section \<open>Approvals\<close>



lemma emit_form:
  "append_event_typed_tx sid rid event q p t s = Inr (env, s') \<Longrightarrow>
    \<exists>e. s' = (bump_session sid t s)\<lparr>run_events := run_events s @ [e]\<rparr>"
  "emit_tx sid rid event p t s = Inr (u, s') \<Longrightarrow>
    \<exists>e. s' = (bump_session sid t s)\<lparr>run_events := run_events s @ [e]\<rparr>"
  "emit_typed_tx sid rid q' t s = Inr (u, s') \<Longrightarrow>
    \<exists>e. s' = (bump_session sid t s)\<lparr>run_events := run_events s @ [e]\<rparr>"
  by (auto simp: emit_tx_def append_event_tx_def append_event_typed_tx_def emit_typed_tx_def Let_def
      next_sequence_tx_eq tx_simps insert_event_def bump_session_def
      split: option.splits if_splits sum.splits)

lemma bump_session_fields [simp]:
  "runs (bump_session sid t s) = runs s"
  "approval_requests (bump_session sid t s) = approval_requests s"
  "side_effect_executions (bump_session sid t s) = side_effect_executions s"
  "run_step_checkpoints (bump_session sid t s) = run_step_checkpoints s"
  "run_recoveries (bump_session sid t s) = run_recoveries s"
  "user_input_requests (bump_session sid t s) = user_input_requests s"
  "transcript_items (bump_session sid t s) = transcript_items s"
  "checkout_write_leases (bump_session sid t s) = checkout_write_leases s"
  "run_events (bump_session sid t s) = run_events s"
  by (simp_all add: bump_session_def)

text \<open>When a decision is in order: pending, the same request, the run waiting for it.\<close>

definition decision_valid :: "approval_resolution \<Rightarrow> store \<Rightarrow> approval_record \<Rightarrow> bool" where
  "decision_valid res s a \<longleftrightarrow> ar_decision res \<in> {Approved, Denied, ApprovalCancelled} \<and>
     get_approval (ar_approval_id res) s = Some a \<and> ap_status a = Pending \<and>
     ap_parameter_hash a = ar_parameter_hash res \<and> ap_run_generation a = ar_run_generation res \<and>
     (\<exists>r. get_run (ap_run_id a) s = Some r \<and> rr_generation r = ap_run_generation a \<and>
       rr_status r = WaitingApproval)"

text \<open>A decision that commits was in order: the request was pending, the decision repeated its
  parameter hash and generation, and the run was waiting for approval in that generation. What is
  stored is the decision, or the expiry when it came at or after the expiry time.\<close>

theorem resolve_approval_sound:
  assumes "resolve_approval res s = Inr (a', s')"
  shows "\<exists>a. decision_valid res s a \<and> get_approval (ar_approval_id res) s' = Some a' \<and>
    a' = a\<lparr>ap_status := resolved_status a res, ap_resolved_by := Some (ar_resolved_by res),
      ap_resolved_at_ms := Some (ar_resolved_at_ms res)\<rparr>"
proof -
  obtain a r where a: "get_approval (ar_approval_id res) s = Some a" "get_run (ap_run_id a) s = Some r"
      "ap_status a = Pending" "ar_decision res \<in> {Approved, Denied, ApprovalCancelled}"
      "ap_parameter_hash a = ar_parameter_hash res" "ap_run_generation a = ar_run_generation res"
      "rr_generation r = ap_run_generation a" "rr_status r = WaitingApproval"
    using assms by (auto simp: resolve_approval_def Let_def tx_simps get_run_tx_def
        split: option.splits if_splits)
  let ?settle = "\<lambda>a'. a'\<lparr>ap_status := resolved_status a res, ap_resolved_by := Some (ar_resolved_by res),
      ap_resolved_at_ms := Some (ar_resolved_at_ms res)\<rparr>"
  let ?s1 = "update_approvals (\<lambda>a. ap_id a = ar_approval_id res \<and> ap_status a = Pending) ?settle s"
  obtain u event payload where emit: "emit_tx (ap_session_id a) (Some (ap_run_id a)) event payload
      (ar_resolved_at_ms res) ?s1 = Inr (u, s')" and a': "a' = ?settle a"
    using assms a by (auto simp: resolve_approval_def Let_def tx_simps get_run_tx_def
        split: option.splits if_splits sum.splits)
  have id: "ap_id a = ar_approval_id res"
    using a(1) by (auto simp: get_approval_def dest: find_Some_imp)
  have "get_approval (ar_approval_id res) s' = Some (?settle a)"
    using emit_form(2) [OF emit] a(1,3) id
    by (auto simp: get_approval_def update_approvals_def find_update_where)
  then show ?thesis using a a' by (auto simp: decision_valid_def)
qed

theorem resolve_approval_sound_witness:
  "\<exists>a'. get_approval ''a'' (after (resolve_approval demo_resolution) demo_waiting) = Some a' \<and>
    ap_status a' = Approved"
proof -
  have "is_ok (resolve_approval demo_resolution demo_waiting)" by (simp add: demo_eval)
  then obtain a' s' where res: "resolve_approval demo_resolution demo_waiting = Inr (a', s')"
    by (cases "resolve_approval demo_resolution demo_waiting") auto
  obtain a where "get_approval ''a'' s' = Some a'" "a' = a\<lparr>ap_status := resolved_status a demo_resolution,
      ap_resolved_by := Some ''u'', ap_resolved_at_ms := Some 4\<rparr>"
    and "decision_valid demo_resolution demo_waiting a"
    using resolve_approval_sound [OF res] by (auto simp: demo_resolution_def)
  moreover have "ap_expires_at_ms a = None"
    using calculation(3) by (auto simp: decision_valid_def demo_eval)
  ultimately show ?thesis
    using res by (simp add: after_def resolved_status_def) (simp add: demo_resolution_def)
qed

section \<open>Side effects\<close>

text \<open>A side effect only moves forward: from claimed over dispatched and indeterminate to an
  outcome. Its identity never changes, and a row with an outcome (succeeded, failed, cancelled)
  never changes again, whatever happens to the run.\<close>

theorem side_effect_forward:
  assumes "reachable s" and "store_run s s'" and "get_effect eid s = Some e"
  shows "\<exists>e'. get_effect eid s' = Some e' \<and> effect_identity e' = effect_identity e \<and>
    se_status e \<le> se_status e' \<and>
    (se_status e \<in> {EffectSucceeded, EffectFailed, EffectCancelled} \<longrightarrow> e' = e)"
  using effect_later [OF assms] by (auto simp: effect_le_def)

theorem side_effect_forward_witness:
  "\<exists>e'. get_effect ''e'' demo_succeeded = Some e' \<and> Claimed \<le> se_status e'"
proof -
  obtain e where "get_effect ''e'' demo_claimed = Some e" "se_status e = Claimed"
    using demo_facts(5) by auto
  then show ?thesis
    using side_effect_forward [OF demo_reachable(4) demo_succeeded_run, of "''e''" e] by auto
qed

lemma copy_effects:
  "copy_side_effect_checkpoint_tx fresh e phase t s = Inr (u, s') \<Longrightarrow>
    side_effect_executions s' = side_effect_executions s \<and> runs s' = runs s \<and>
    approval_requests s' = approval_requests s"
  by (auto simp: copy_side_effect_checkpoint_tx_def insert_checkpoint_or_ignore_def
      insert_checkpoint_def tx_simps split: option.splits if_splits sum.splits)

lemma get_update_effect:
  assumes "get_effect eid s = Some e" and "p e" and "\<And>x. se_id (f x) = se_id x"
  shows "get_effect eid (update_effects p f s) = Some (f e)"
  using assms by (simp add: get_effect_def update_effects_def find_update_where)

lemma dispatch_result:
  assumes "mark_side_effect_dispatched_if_current fresh eid rid g hr t s = Inr (rec, s')"
  shows "\<exists>r e. get_run rid s = Some r \<and> rr_generation r = g \<and> rr_status r = Running \<and>
    get_effect eid s = Some e \<and> se_run_id e = rid \<and> se_run_generation e = g \<and> se_status e = Claimed \<and>
    get_effect eid s' = Some (e\<lparr>se_status := Dispatched, se_host_request_id := Some hr,
      se_updated_at_ms := t\<rparr>)"
proof -
  obtain r e where re: "get_run rid s = Some r" "rr_generation r = g" "rr_status r = Running"
      "get_effect eid s = Some e" "se_run_id e = rid" "se_run_generation e = g" "se_status e = Claimed"
    using assms by (auto simp: mark_side_effect_dispatched_if_current_def tx_simps get_run_tx_def
        split: option.splits if_splits)
  let ?f = "\<lambda>e. e\<lparr>se_status := Dispatched, se_host_request_id := Some hr, se_updated_at_ms := t\<rparr>"
  let ?s1 = "update_effects (\<lambda>e. se_id e = eid \<and> se_status e = Claimed) ?f s"
  have "se_id e = eid" using re(4) by (auto simp: get_effect_def dest: find_Some_imp)
  then have upd: "get_effect eid ?s1 = Some (?f e)"
    using re(4,7) by (intro get_update_effect) auto
  then obtain u where "copy_side_effect_checkpoint_tx fresh (record_of (?f e)) ToolDispatched t ?s1 = Inr (u, s')"
    using assms re by (auto simp: mark_side_effect_dispatched_if_current_def tx_simps get_run_tx_def
        split: sum.splits)
  then have "get_effect eid s' = Some (?f e)" using upd copy_effects by (fastforce simp: get_effect_def)
  then show ?thesis using re by blast
qed

text \<open>An effect is dispatched only under the current authority: when the guarded dispatch
  commits, the run was running in the expected generation, the effect belonged to that run and
  generation and was claimed, and afterwards it is dispatched with the request id of the host.\<close>

theorem dispatch_needs_current_run:
  assumes "mark_side_effect_dispatched_if_current fresh eid rid g hr t s = Inr (rec, s')"
  shows "\<exists>r e. get_run rid s = Some r \<and> rr_generation r = g \<and> rr_status r = Running \<and>
    get_effect eid s = Some e \<and> se_run_id e = rid \<and> se_run_generation e = g \<and> se_status e = Claimed \<and>
    get_effect eid s' = Some (e\<lparr>se_status := Dispatched, se_host_request_id := Some hr,
      se_updated_at_ms := t\<rparr>)"
  using assms by (rule dispatch_result)

lemma demo_dispatch_ok:
  "is_ok (mark_side_effect_dispatched_if_current ''cp2'' ''e'' ''r'' 1 ''h1'' 8 demo_claimed)"
  by (simp add: demo_eval mark_side_effect_dispatched_if_current_def get_effect_def update_effects_def)

lemma is_ok_iff: "is_ok r \<longleftrightarrow> (\<exists>a. r = Inr a)"
  by (cases r) auto

theorem dispatch_needs_current_run_witness:
  "\<exists>rec s'. mark_side_effect_dispatched_if_current ''cp2'' ''e'' ''r'' 1 ''h1'' 8 demo_claimed = Inr (rec, s') \<and>
    map_option se_status (get_effect ''e'' s') = Some Dispatched"
proof -
  obtain rec s' where "mark_side_effect_dispatched_if_current ''cp2'' ''e'' ''r'' 1 ''h1'' 8 demo_claimed = Inr (rec, s')"
    using demo_dispatch_ok by (auto simp: is_ok_iff)
  then show ?thesis using dispatch_needs_current_run by fastforce
qed

lemma dispatch_needs_claimed:
  assumes "get_effect eid s = Some e" and "se_status e \<noteq> Claimed"
  shows "\<not> is_ok (mark_side_effect_dispatched eid hr t s)"
    and "\<not> is_ok (mark_side_effect_dispatched_if_current fresh eid rid g hr' t' s)"
  using assms
  by (auto simp: mark_side_effect_dispatched_def transition_side_effect_def tx_simps get_run_tx_def
      mark_side_effect_dispatched_if_current_def split: option.splits)



section \<open>Claims\<close>

text \<open>The row of a claim that already exists.\<close>

lemma find_effect_later:
  assumes "reachable s" and "store_run s s'" and "find_effect rid g key s = Some e"
  obtains e' where "find_effect rid g key s' = Some e'" and "effect_le e e'"
proof -
  have ok: "store_ok s'" "store_le s s'"
    using run_le_of [OF reachable_ok [OF assms(1)] assms(2)] by auto
  have "\<exists>e'. find (\<lambda>e. effect_key e = (rid, g, key)) (side_effect_executions s') = Some e' \<and> effect_le e e'"
  proof (rule get_later [where k = effect_key and r = effect_le])
    show "evolves effect_le (side_effect_executions s) (side_effect_executions s')"
      using ok(2) by (simp add: store_le_def)
    show "distinct (map effect_key (side_effect_executions s'))"
      using ok(1) by (simp add: store_ok_def keys_ok_def)
    show "find (\<lambda>e. effect_key e = (rid, g, key)) (side_effect_executions s) = Some e"
      using assms(3) by (simp add: find_effect_def)
  qed (rule effect_le_key)
  then show thesis using that by (auto simp: find_effect_def)
qed

lemma claim_replays:
  assumes "find_effect (se_run_id e) (se_run_generation e) (se_idempotency_key e) s = Some old"
    and "se_parameter_hash old = se_parameter_hash e" and "se_tool_call_id old = se_tool_call_id e"
    and "se_status e = Claimed" and "get_run (se_run_id e) s = Some r"
    and "rr_session_id r = se_session_id e" and "rr_generation r = se_run_generation e"
  shows "claim_side_effect_with_authority fresh e authority s =
    Inr (\<lparr>cl_record = record_of old, cl_created = False, cl_persisted_result = se_result_json old\<rparr>, s)"
  using assms by (simp add: claim_side_effect_with_authority_def tx_simps get_run_tx_def)

lemma consume_frame:
  "consume_approval aid e authority s = Inr (u, s') \<Longrightarrow>
    side_effect_executions s' = side_effect_executions s \<and> runs s' = runs s"
  by (auto simp: consume_approval_def Let_def tx_simps update_approvals_def
      split: option.splits if_splits)

text \<open>What a claim leaves: the run and session of the effect are those of the claim, and a row
  with its key, call and hash is stored.\<close>

lemma claim_result:
  assumes "claim_side_effect_with_authority fresh e authority s = Inr (c, s')"
  shows "\<exists>r row. get_run (se_run_id e) s = Some r \<and> rr_session_id r = se_session_id e \<and>
    rr_generation r = se_run_generation e \<and> se_status e = Claimed \<and> get_run (se_run_id e) s' = Some r \<and>
    find_effect (se_run_id e) (se_run_generation e) (se_idempotency_key e) s' = Some row \<and>
    se_parameter_hash row = se_parameter_hash e \<and> se_tool_call_id row = se_tool_call_id e \<and>
    cl_record c = record_of row \<and>
    (if cl_created c then rr_status r = Running \<and> row = row_of e \<and>
       find_effect (se_run_id e) (se_run_generation e) (se_idempotency_key e) s = None \<and>
       side_effect_executions s' = side_effect_executions s @ [row_of e] else s' = s)"
proof -
  obtain r where r: "get_run (se_run_id e) s = Some r" "rr_session_id r = se_session_id e"
      "rr_generation r = se_run_generation e" "se_status e = Claimed"
    using assms by (auto simp: claim_side_effect_with_authority_def tx_simps get_run_tx_def
        split: option.splits if_splits)
  show ?thesis
  proof (cases "find_effect (se_run_id e) (se_run_generation e) (se_idempotency_key e) s")
    case (Some old)
    then show ?thesis
      using assms r by (auto simp: claim_side_effect_with_authority_def tx_simps get_run_tx_def
          split: if_splits)
  next
    case None
    obtain s1 s2 where s1: "side_effect_executions s1 = side_effect_executions s" "runs s1 = runs s"
      and ins: "insert_effect (row_of e) s1 = Inr ((), s2)"
      and copy: "copy_side_effect_checkpoint_tx fresh e ToolClaimed (se_created_at_ms e) s2 = Inr ((), s')"
      and c: "c = \<lparr>cl_record = e, cl_created = True, cl_persisted_result = None\<rparr>"
      and running: "rr_status r = Running"
      using assms r None consume_frame
      by (auto simp: claim_side_effect_with_authority_def tx_simps get_run_tx_def
          split: if_splits option.splits sum.splits) (metis old.unit.exhaust)+
    have rows: "side_effect_executions s' = side_effect_executions s @ [row_of e]" "runs s' = runs s"
      using ins copy_effects [OF copy] s1 by (auto simp: insert_effect_def tx_simps split: if_splits)
    have key: "effect_key (row_of e) = (se_run_id e, se_run_generation e, se_idempotency_key e)"
      "record_of (row_of e) = e"
      by (simp_all add: effect_key_def row_of_def record_of_def side_effect_record.defs)
    show ?thesis
      using r c running rows None key
      by (auto simp: get_run_def find_effect_def find_append row_of_def side_effect_record.defs)
  qed
qed

text \<open>Claiming is idempotent over time: once a claim has committed, the same claim in any later
  store in which the run is still in that generation commits without any change and returns the
  stored row, marked as not created; the effect is never executed twice for one key.\<close>

theorem claim_idempotent:
  assumes "reachable s" and "claim_side_effect_with_authority fresh e authority s = Inr (c, s1)"
    and "store_run s1 s2" and "get_run (se_run_id e) s2 = Some r"
    and "rr_generation r = se_run_generation e"
  shows "\<exists>c'. claim_side_effect_with_authority fresh' e authority' s2 = Inr (c', s2) \<and>
    \<not> cl_created c' \<and> se_id (cl_record c') = se_id (cl_record c)"
proof -
  obtain r0 row where claimed: "get_run (se_run_id e) s1 = Some r0" "rr_session_id r0 = se_session_id e"
      "se_status e = Claimed"
      "find_effect (se_run_id e) (se_run_generation e) (se_idempotency_key e) s1 = Some row"
      "se_parameter_hash row = se_parameter_hash e" "se_tool_call_id row = se_tool_call_id e"
      "cl_record c = record_of row"
    using claim_result [OF assms(2)] by blast
  have "store_run s s1"
    using assms(2) by (intro store_run.more [OF store_run.start] store_step.claim) (auto simp: commits_def)
  then have reach: "reachable s1" using assms(1) by (rule reachable_run)
  obtain row' where row': "find_effect (se_run_id e) (se_run_generation e) (se_idempotency_key e) s2 = Some row'"
      "effect_le row row'"
    using find_effect_later [OF reach assms(3) claimed(4)] .
  obtain r1 where "get_run (se_run_id e) s2 = Some r1" "run_le r0 r1"
    using run_later [OF reach assms(3) claimed(1)] .
  then have session: "rr_session_id r = se_session_id e" using assms(4) claimed(2) by (simp add: run_le_def)
  have same: "effect_identity row' = effect_identity row" using row'(2) by (simp add: effect_le_def)
  have "se_parameter_hash row' = se_parameter_hash e" "se_tool_call_id row' = se_tool_call_id e"
    using arg_cong [OF same, of se_parameter_hash] arg_cong [OF same, of se_tool_call_id] claimed
    by (simp_all add: effect_identity_def)
  note replay = claim_replays [OF row'(1) this claimed(3) assms(4) session assms(5)]
  have "se_id (record_of row') = se_id (record_of row)"
    using effect_le_key(1) [OF row'(2)] by (simp add: record_of_def side_effect_record.defs)
  then show ?thesis using replay claimed(7) by simp
qed

lemma demo_claim: "\<exists>c. claim_side_effect_with_authority ''cp'' demo_effect None demo_approved = Inr (c, demo_claimed)"
proof -
  have "is_ok (claim_side_effect_with_authority ''cp'' demo_effect None demo_approved)"
    by (simp add: demo_eval)
  then show ?thesis by (auto simp: is_ok_iff demo_claimed_def after_def)
qed

theorem claim_idempotent_witness:
  "\<exists>c'. claim_side_effect_with_authority ''x'' demo_effect None demo_claimed = Inr (c', demo_claimed) \<and>
    \<not> cl_created c'"
proof -
  obtain c where c: "claim_side_effect_with_authority ''cp'' demo_effect None demo_approved = Inr (c, demo_claimed)"
    using demo_claim by blast
  have "map_option rr_generation (get_run (se_run_id demo_effect) demo_claimed) = Some (se_run_generation demo_effect)"
    by (simp add: demo_eval)
  then obtain r where "get_run (se_run_id demo_effect) demo_claimed = Some r"
    "rr_generation r = se_run_generation demo_effect" by auto
  from claim_idempotent [OF demo_reachable(3) c store_run.start this] show ?thesis by blast
qed

definition consumed :: "approval_record \<Rightarrow> approval_record" where
  "consumed a = a\<lparr>ap_uses_remaining := ap_uses_remaining a - 1\<rparr>"

lemma consume_result:
  assumes "consume_approval aid e authority s = Inr (u, s')" and "store_ok s"
  shows "\<exists>a. get_approval aid s = Some a \<and> ap_status a = Approved \<and> 0 < ap_uses_remaining a \<and>
    approval_covers (ap_grant_scope a) e authority a \<and> get_approval aid s' = Some (consumed a)"
proof -
  obtain a where a: "get_approval aid s = Some a"
    using assms(1) by (auto simp: consume_approval_def tx_simps split: option.splits)
  let ?p = "\<lambda>x. ap_id x = aid \<and> approval_covers (ap_grant_scope a) e authority x \<and>
      ap_status x = Approved \<and> 0 < ap_uses_remaining x"
  have count: "count_where ?p (approval_requests s) = 1" and s': "s' = update_approvals ?p consumed s"
    using assms(1) a by (auto simp: consume_approval_def Let_def tx_simps consumed_def [abs_def]
        split: if_splits)
  have "\<not> (\<forall>x \<in> set (approval_requests s). \<not> ?p x)"
    unfolding count_where_0_iff [symmetric] using count by simp
  then obtain x where x: "x \<in> set (approval_requests s)" "?p x" by blast
  moreover have "a \<in> set (approval_requests s)" "ap_id a = aid"
    using a by (auto simp: get_approval_def dest: find_Some_imp)
  ultimately have "x = a" using assms(2) by (auto simp: store_ok_def keys_ok_def dest: key_unique)
  moreover have "get_approval aid s' = Some (if ?p a then consumed a else a)"
    using a unfolding s' by (simp add: get_approval_def update_approvals_def find_update_where consumed_def)
  ultimately show ?thesis using a x by auto
qed

lemma insert_copy_approvals:
  assumes "insert_effect x s1 = Inr (u, s2)" and "copy_side_effect_checkpoint_tx fresh e ph t s2 = Inr (v, s3)"
  shows "approval_requests s3 = approval_requests s1"
  using assms copy_effects [OF assms(2)] by (auto simp: insert_effect_def tx_simps split: if_splits)

lemma claim_consumes:
  assumes "claim_side_effect_with_authority fresh e authority s = Inr (c, s')" and "cl_created c"
    and "store_ok s"
  shows "case se_approval_id e of None \<Rightarrow> approval_requests s' = approval_requests s
    | Some aid \<Rightarrow> \<exists>a. get_approval aid s = Some a \<and> ap_status a = Approved \<and>
        0 < ap_uses_remaining a \<and> approval_covers (ap_grant_scope a) e authority a \<and>
        get_approval aid s' = Some (consumed a)"
proof -
  have new: "find_effect (se_run_id e) (se_run_generation e) (se_idempotency_key e) s = None"
    using claim_result [OF assms(1)] assms(2) by auto
  obtain s1 s2 u v w where consume: "(case se_approval_id e of None \<Rightarrow> ret ()
      | Some aid \<Rightarrow> consume_approval aid e authority) s = Inr (u, s1)"
    and "insert_effect (row_of e) s1 = Inr (v, s2)"
    and "copy_side_effect_checkpoint_tx fresh e ToolClaimed (se_created_at_ms e) s2 = Inr (w, s')"
    using assms(1) new unfolding claim_side_effect_with_authority_def
    by (auto simp: tx_simps get_run_tx_def split: if_splits option.splits sum.splits)
  then have "approval_requests s' = approval_requests s1" using insert_copy_approvals by blast
  then show ?thesis
    using consume consume_result [OF _ assms(3)]
    by (cases "se_approval_id e") (auto simp: tx_simps get_approval_def)
qed

text \<open>C2: A claim that creates an effect is made by the run itself while it is running in the
  generation of the claim. When it names an approval, that approval exists, is approved, has uses
  left and covers the claim (the exact call and parameters, or for a session grant the stated
  action, resource and host), and exactly one of its uses is consumed.\<close>

theorem claim_consumes_approval:
  assumes "reachable s" and "claim_side_effect_with_authority fresh e authority s = Inr (c, s')"
    and "cl_created c"
  shows "(\<exists>r. get_run (se_run_id e) s = Some r \<and> rr_status r = Running \<and>
      rr_generation r = se_run_generation e \<and> rr_session_id r = se_session_id e) \<and>
    side_effect_executions s' = side_effect_executions s @ [row_of e] \<and>
    (case se_approval_id e of None \<Rightarrow> approval_requests s' = approval_requests s
     | Some aid \<Rightarrow> \<exists>a. get_approval aid s = Some a \<and> ap_status a = Approved \<and>
         0 < ap_uses_remaining a \<and> approval_covers (ap_grant_scope a) e authority a \<and>
         get_approval aid s' = Some (consumed a))"
  using claim_result [OF assms(2)] claim_consumes [OF assms(2,3) reachable_ok [OF assms(1)]] assms(3)
  by (auto split: option.splits)

theorem claim_consumes_approval_witness:
  "\<exists>a. get_approval ''a'' demo_approved = Some a \<and> get_approval ''a'' demo_claimed = Some (consumed a)"
proof -
  obtain c where c: "claim_side_effect_with_authority ''cp'' demo_effect None demo_approved = Inr (c, demo_claimed)"
    using demo_claim by blast
  have "cl_created c"
  proof (rule ccontr)
    assume "\<not> cl_created c"
    then have "demo_claimed = demo_approved" using claim_result [OF c] by auto
    then show False using demo_facts(3,4) by auto
  qed
  from claim_consumes_approval [OF demo_reachable(3) c this] show ?thesis
    by (auto simp: demo_effect_def)
qed

section \<open>The use budget of an approval\<close>

definition uses_left :: "string \<Rightarrow> store \<Rightarrow> nat" where
  "uses_left aid s = (case get_approval aid s of None \<Rightarrow> 0 | Some a \<Rightarrow> ap_uses_remaining a)"

definition claims_with :: "string \<Rightarrow> store \<Rightarrow> nat" where
  "claims_with aid s = count_where (\<lambda>a. a = Some aid) (map se_approval_id (side_effect_executions s))"

text \<open>Only a claim adds to the claimed approvals.\<close>

interpretation claimed: quiet_order
  "\<lambda>s s'. map se_approval_id (side_effect_executions s') = map se_approval_id (side_effect_executions s)"
  by unfold_locales (simp_all add: update_effects_def map_update_where)

lemma claimed_lease_ops:
  "commits (acquire_checkout_write_lease cid rid g t) s s' \<Longrightarrow>
    side_effect_executions s' = side_effect_executions s"
  "commits (release_checkout_write_lease cid rid g) s s' \<Longrightarrow>
    side_effect_executions s' = side_effect_executions s"
  by (auto simp: commits_def acquire_checkout_write_lease_def release_checkout_write_lease_def
      insert_lease_def tx_simps split: option.splits if_splits)

lemma uses_shrink:
  assumes "store_step s s'" and "reachable s" and "get_approval aid s = Some a"
  shows "uses_left aid s' \<le> uses_left aid s"
proof -
  obtain a' where "get_approval aid s' = Some a'" "approval_le a a'"
    using approval_later [OF assms(2) store_run.more [OF store_run.start assms(1)] assms(3)] .
  then show ?thesis using assms(3) by (simp add: uses_left_def approval_le_def)
qed

lemma step_budget:
  assumes "store_step s s'" and "reachable s" and "get_approval aid s = Some a"
  shows "claims_with aid s' + uses_left aid s' \<le> claims_with aid s + uses_left aid s"
proof (cases "\<exists>fresh e authority c. claim_side_effect_with_authority fresh e authority s = Inr (c, s') \<and> cl_created c")
  case True
  then obtain fresh e authority c where claim:
      "claim_side_effect_with_authority fresh e authority s = Inr (c, s')" "cl_created c" by blast
  have rows: "side_effect_executions s' = side_effect_executions s @ [row_of e]"
    using claim_result [OF claim(1)] claim(2) by auto
  have "se_approval_id (row_of e) = se_approval_id e"
    by (simp add: row_of_def side_effect_record.defs)
  then have claims: "claims_with aid s' = claims_with aid s + (if se_approval_id e = Some aid then 1 else 0)"
    using rows by (simp add: claims_with_def)
  have le: "uses_left aid s' \<le> uses_left aid s"
    by (rule uses_shrink [OF assms])
  show ?thesis
  proof (cases "se_approval_id e = Some aid")
    case True
    then have "uses_left aid s' + 1 = uses_left aid s"
      using claim_consumes [OF claim reachable_ok [OF assms(2)]] by (auto simp: uses_left_def consumed_def)
    then show ?thesis using claims by (simp split: if_splits)
  qed (use claims le in simp)
next
  case False
  have "map se_approval_id (side_effect_executions s') = map se_approval_id (side_effect_executions s)"
  proof (rule claimed.quiet_step [OF assms(1)])
    fix fresh e authority
    assume "commits (claim_side_effect_with_authority fresh e authority) s s'"
    then obtain c where c: "claim_side_effect_with_authority fresh e authority s = Inr (c, s')"
      by (auto simp: commits_def)
    then have "s' = s" using False claim_result [OF c] by auto
    then show "map se_approval_id (side_effect_executions s') = map se_approval_id (side_effect_executions s)"
      by simp
  qed (simp_all add: claimed_lease_ops)
  moreover have "uses_left aid s' \<le> uses_left aid s"
    by (rule uses_shrink [OF assms])
  ultimately show ?thesis by (simp add: claims_with_def)
qed

lemma run_budget:
  assumes "store_run s s'" and "reachable s" and "get_approval aid s = Some a"
  shows "claims_with aid s' + uses_left aid s' \<le> claims_with aid s + uses_left aid s"
  using assms
proof (induction rule: store_run.induct)
  case (more s s' s'')
  obtain a' where "get_approval aid s' = Some a'"
    using approval_later [OF more.prems(1) more.hyps(1) more.prems(2)] .
  with more show ?case using step_budget [of s' s'' aid a'] reachable_run [of s s'] by fastforce
qed simp

text \<open>An approval never authorises more effects than it has uses: however long the execution, the
  effects claimed with it since a store in which it existed plus its remaining uses never exceed
  the uses it had left there.\<close>

theorem approval_use_budget:
  assumes "reachable s" and "store_run s s'" and "get_approval aid s = Some a"
  shows "claims_with aid s' + uses_left aid s' \<le> claims_with aid s + ap_uses_remaining a"
  using run_budget [OF assms(2,1,3)] assms(3) by (simp add: uses_left_def)

theorem approval_use_budget_witness: "claims_with ''a'' demo_succeeded \<le> 1"
proof -
  obtain a where a: "get_approval ''a'' demo_approved = Some a" "ap_uses_remaining a = 1"
    using demo_facts(3) by auto
  have run: "store_run demo_approved demo_succeeded"
    by (rule store_run_trans [OF demo_succeeded_run demo_claimed_run])
  have "claims_with ''a'' demo_approved = 0"
    by (simp add: claims_with_def demo_eval)
  then show ?thesis using approval_use_budget [OF demo_reachable(3) run a(1)] a(2) by simp
qed

section \<open>Write leases\<close>

definition leases_ok :: "store \<Rightarrow> bool" where
  "leases_ok s \<longleftrightarrow> distinct (map wl_checkout_id (checkout_write_leases s)) \<and>
     distinct (map wl_run_id (checkout_write_leases s))"

interpretation leased: quiet_order "\<lambda>s s'. leases_ok s \<longrightarrow> leases_ok s'"
  by unfold_locales (simp_all add: leases_ok_def update_effects_def)

lemma lease_ops_ok:
  "commits (acquire_checkout_write_lease cid rid g t) s s' \<Longrightarrow> leases_ok s \<Longrightarrow> leases_ok s'"
  "commits (release_checkout_write_lease cid rid g) s s' \<Longrightarrow> leases_ok s \<Longrightarrow> leases_ok s'"
  by (auto simp: commits_def acquire_checkout_write_lease_def release_checkout_write_lease_def
      insert_lease_def tx_simps leases_ok_def distinct_map_filter split: option.splits if_splits)

lemma leased_claim:
  "tx_rel (\<lambda>s s'. leases_ok s \<longrightarrow> leases_ok s') s (claim_side_effect_with_authority fresh e authority)"
proof -
  have "tx_rel (\<lambda>s s'. leases_ok s \<longrightarrow> leases_ok s') s (insert_effect x)" for s x
    unfolding insert_effect_def by (rule leased.rel_insert) (simp add: leases_ok_def)
  then show ?thesis
    unfolding claim_side_effect_with_authority_def
    by (intro leased.quiet_seq leased.quiet_approval_ops leased.quiet_copy)
qed

lemma no_leases_ok: "leases_ok (s\<lparr>checkout_write_leases := []\<rparr>)"
  by (simp add: leases_ok_def)

lemma step_leases: "store_step s s' \<Longrightarrow> leases_ok s \<longrightarrow> leases_ok s'"
  by (erule leased.quiet_step)
    (blast intro: lease_ops_ok no_leases_ok, blast intro: lease_ops_ok,
      erule commits_rel [OF leased_claim], blast intro: no_leases_ok)

lemma reachable_leases:
  assumes "reachable s"
  shows "leases_ok s"
proof -
  have "store_run s0 s \<Longrightarrow> leases_ok s0 \<Longrightarrow> leases_ok s" for s0
    by (induction rule: store_run.induct) (use step_leases in auto)
  then show ?thesis using assms by (simp add: reachable_def leases_ok_def empty_store_def)
qed

text \<open>A checkout is written by one run at a time: in every reachable store at most one run holds
  the lease of a checkout and a run holds at most one lease; acquiring a lease that another run
  holds is refused and names the holder.\<close>

theorem write_lease_exclusive:
  assumes "reachable s" and "l \<in> set (checkout_write_leases s)" and "l' \<in> set (checkout_write_leases s)"
    and "rid \<noteq> wl_run_id l"
  shows "(wl_checkout_id l = wl_checkout_id l' \<or> wl_run_id l = wl_run_id l' \<longrightarrow> l = l') \<and>
    acquire_checkout_write_lease (wl_checkout_id l) rid g t s =
      Inl (CheckoutWriteLeaseHeld (wl_checkout_id l) (wl_run_id l))"
proof -
  have "find (\<lambda>x. wl_checkout_id x = wl_checkout_id l) (checkout_write_leases s) = Some l"
    using reachable_leases [OF assms(1)] assms(2) by (simp add: leases_ok_def find_key)
  then show ?thesis
    using reachable_leases [OF assms(1)] assms
    by (auto simp: leases_ok_def acquire_checkout_write_lease_def tx_simps dest: key_unique)
qed

definition demo_leased :: store where
  "demo_leased = after (acquire_checkout_write_lease ''co'' ''r'' 1 9)
     (demo_started\<lparr>workspace_checkouts := [''co''], artifacts := [], run_diff_manifests := [],
       run_summaries := [], hosts := empty_hosts\<rparr>)"

lemma demo_leased_reachable: "reachable demo_leased"
proof -
  have "store_run demo_started demo_leased"
    unfolding demo_leased_def
    by (rule after_run, rule store_run.more [OF store_run.start store_step.others])
      (rule store_step.acquire)
  then show ?thesis using demo_reachable(1) reachable_run by blast
qed

theorem write_lease_exclusive_witness:
  "acquire_checkout_write_lease ''co'' ''q'' 1 10 demo_leased = Inl (CheckoutWriteLeaseHeld ''co'' ''r'')"
proof -
  have "map (\<lambda>l. (wl_checkout_id l, wl_run_id l)) (checkout_write_leases demo_leased) = [(''co'', ''r'')]"
    by (simp add: demo_leased_def demo_eval acquire_checkout_write_lease_def insert_lease_def)
  then obtain l where "l \<in> set (checkout_write_leases demo_leased)" "wl_checkout_id l = ''co''"
    "wl_run_id l = ''r''" by (cases "checkout_write_leases demo_leased") auto
  then show ?thesis
    using write_lease_exclusive [OF demo_leased_reachable, of l l "''q''" 1 10] by simp
qed

end
