(* ===== verification/Recovery_Props.thy ===== *)
theory Recovery_Props
  imports Store_Props
begin

text \<open>
  What a restart guarantees: the state it leaves, what becomes of each run, and which runs may go
  on by themselves. The transaction is cut into its stages by \<open>recover_stages\<close>; relations that a
  loop respects (\<open>loop_frame\<close>, \<open>item_frame\<close>, \<open>run_frame\<close>) carry facts across the loops.
\<close>

section \<open>The loops of a restart\<close>

text \<open>A loop that updates the rows with the key of each element updates the rows of all keys.\<close>

lemma for_tx_updates:
  assumes "for_tx xs f s = Inr (u, s')"
    and "\<And>x s u s'. x \<in> set xs \<Longrightarrow> f x s = Inr (u, s') \<Longrightarrow> pi s' = update_where (\<lambda>r. k r = j x) g (pi s)"
    and "\<And>r. k (g r) = k r" and "\<And>r. g (g r) = g r"
  shows "pi s' = update_where (\<lambda>r. k r \<in> j ` set xs) g (pi s)"
  using assms(1,2)
proof (induction xs arbitrary: s)
  case Nil
  then show ?case by (simp add: tx_simps update_where_def)
next
  case (Cons x xs)
  obtain u1 s1 where s1: "f x s = Inr (u1, s1)" "for_tx xs f s1 = Inr (u, s')"
    using Cons.prems(1) by (auto elim: bind_tx_InrE)
  have "pi s' = update_where (\<lambda>r. k r \<in> j ` set xs) g (pi s1)"
    using Cons.IH [OF s1(2)] Cons.prems(2) by auto
  moreover have "pi s1 = update_where (\<lambda>r. k r = j x) g (pi s)"
    using Cons.prems(2) s1(1) by auto
  ultimately show ?case
    using assms(3,4) by (auto simp: update_where_def)
qed

text \<open>What the loops leave alone.\<close>

definition loop_frame :: "store \<Rightarrow> store \<Rightarrow> bool" where
  "loop_frame s s' \<longleftrightarrow> approval_requests s' = approval_requests s \<and>
     side_effect_executions s' = side_effect_executions s \<and>
     user_input_requests s' = user_input_requests s \<and>
     checkout_write_leases s' = checkout_write_leases s \<and>
     run_step_checkpoints s' = run_step_checkpoints s"

interpretation loop: store_order loop_frame
  by unfold_locales (auto simp: loop_frame_def)

lemma loop_emit: "tx_rel loop_frame s (emit_tx sid rid event p t)"
  "tx_rel loop_frame s (emit_typed_tx sid rid q t)"
  by (auto intro!: tx_relI simp: loop_frame_def dest!: emit_form)

lemma loop_bodies:
  "tx_rel loop_frame s (interrupt_run t r)" "tx_rel loop_frame s (interrupt_item t i)"
  unfolding interrupt_run_def interrupt_item_def
  by (intro loop.rel_bind_modify loop_emit;
      simp add: loop_frame_def update_runs_def update_items_def)+

lemma loop_classify: "tx_rel loop_frame s (classify_run fresh t r)"
  unfolding classify_run_def insert_recovery_def Let_def
  by (intro loop.rel_intros loop.rel_bind loop.rel_insert loop.rel_modify loop_emit;
      simp add: loop_frame_def update_runs_def)

definition item_frame :: "store \<Rightarrow> store \<Rightarrow> bool" where
  "item_frame s s' \<longleftrightarrow> transcript_items s' = transcript_items s"

interpretation item_loop: store_order item_frame
  by unfold_locales (auto simp: item_frame_def)

lemma item_loop_emit: "tx_rel item_frame s (emit_tx sid rid event p t)"
  by (auto intro!: tx_relI simp: item_frame_def dest!: emit_form)

lemma item_loop_bodies:
  "tx_rel item_frame s (interrupt_run t r)" "tx_rel item_frame s (classify_run fresh t r)"
  unfolding interrupt_run_def classify_run_def insert_recovery_def Let_def
  by (intro item_loop.rel_intros item_loop.rel_bind item_loop.rel_insert item_loop.rel_modify
      item_loop_emit; simp add: item_frame_def update_runs_def)+

text \<open>No run is executing.\<close>

definition none_active :: "store \<Rightarrow> bool" where
  "none_active s \<longleftrightarrow> (\<forall>r \<in> set (runs s). \<not> is_active (rr_status r))"

interpretation idle: store_order "\<lambda>s s'. none_active s \<longrightarrow> none_active s'"
  by unfold_locales auto

lemma idle_emit:
  "tx_rel (\<lambda>s s'. none_active s \<longrightarrow> none_active s') s (emit_tx sid rid event p t)"
  "tx_rel (\<lambda>s s'. none_active s \<longrightarrow> none_active s') s (emit_typed_tx sid rid q t)"
  by (auto intro!: tx_relI simp: none_active_def dest!: emit_form)

lemma idle_bodies:
  "tx_rel (\<lambda>s s'. none_active s \<longrightarrow> none_active s') s (classify_run fresh t r)"
  "tx_rel (\<lambda>s s'. none_active s \<longrightarrow> none_active s') s (interrupt_item t i)"
  unfolding classify_run_def insert_recovery_def interrupt_item_def Let_def
  by (intro idle.rel_intros idle.rel_bind idle.rel_insert idle.rel_modify idle_emit;
      auto simp: none_active_def update_runs_def update_items_def set_update_where is_active_def)+

lemma set_status_simps [simp]:
  "rr_id (set_status st code t r) = rr_id r"
  "rr_status (set_status st code t r) = st"
  "set_status st code t (set_status st code t r) = set_status st code t r"
  by (simp_all add: set_status_def)

lemma interrupt_loop_runs:
  assumes "for_tx rows (interrupt_run t) s = Inr (u, s')"
  shows "runs s' = update_where (\<lambda>r. rr_id r \<in> rr_id ` set rows)
    (set_status Recovering (Some ''executor_lost'') t) (runs s)"
  by (rule for_tx_updates [OF assms])
    (auto simp: interrupt_run_def tx_simps update_runs_def split: sum.splits dest!: emit_form)

lemma interrupt_items_loop:
  assumes "for_tx rows (interrupt_item t) s = Inr (u, s')"
  shows "transcript_items s' = update_where (\<lambda>i. ti_id i \<in> ti_id ` set rows)
    (\<lambda>i. i\<lparr>ti_status := ItemInterrupted\<rparr>) (transcript_items s)"
  by (rule for_tx_updates [OF assms])
    (auto simp: interrupt_item_def tx_simps update_items_def split: sum.splits dest!: emit_form)

section \<open>The stages of a restart\<close>

text \<open>
  The transaction, cut where its reads are taken: the runs that were active, the store before
  the items are interrupted, the store after the effects are settled, and the verdicts.
\<close>

lemma recover_stages:
  assumes "recover_interrupted fresh t s = Inr (report, s')"
  obtains active s1 s2 s3 s4 items verdicts where
    "active = filter (\<lambda>r. is_active (rr_status r)) (runs s)"
    "for_tx active (interrupt_run t) (s\<lparr>checkout_write_leases := []\<rparr>) = Inr ((), s1)"
    "s2 = interrupt_pending_inputs t (expire_pending_approvals t s1)"
    "items = sort_key ti_sequence (filter (\<lambda>i. ti_status i = InProgress) (transcript_items s2))"
    "for_tx items (interrupt_item t) s2 = Inr ((), s3)"
    "collect_tx active (classify_run fresh t)
       (settle_effects t (update_hosts (reset_hosts t) s3)) = Inr (verdicts, s4)"
    "s' = complete_items items s4"
    "rp_interrupted_runs report = length active"
    "rp_auto_resume_run_ids report = map (rr_id \<circ> fst) (filter snd (zip active verdicts))"
    "rp_awaiting_decision_run_ids report = map (rr_id \<circ> fst) (filter (Not \<circ> snd) (zip active verdicts))"
  using assms unfolding recover_interrupted_def
  apply (elim bind_tx_InrE)
  apply (simp only: tx_simps sum.inject prod.inject)
  apply (elim conjE)
  apply hypsubst
  apply (rule that)
           apply (rule refl | assumption | simp)+
  done

lemma replay_same: "s = s\<lparr>replay := replay s\<rparr>"
  by simp

lemma complete_item_replay: "\<exists>q. complete_item a b s = s\<lparr>replay := q\<rparr>"
proof (cases "map_of (replay s) a")
  case None
  then have "complete_item a b s = s" by (simp add: complete_item_def)
  then show ?thesis using replay_same by metis
next
  case (Some es)
  then show ?thesis
    unfolding complete_item_def set_replay_def Let_def
    by (simp only: option.case split: if_split) blast
qed

lemma complete_items_replay: "\<exists>q. complete_items rows s = s\<lparr>replay := q\<rparr>"
proof (induction rows arbitrary: s)
  case Nil
  have "complete_items [] s = s" by (simp add: complete_items_def)
  then show ?case using replay_same by metis
next
  case (Cons i rows)
  obtain q where q: "complete_item (ti_session_id i) (ti_id i) s = s\<lparr>replay := q\<rparr>"
    using complete_item_replay by blast
  show ?case
    using Cons.IH [of "s\<lparr>replay := q\<rparr>"] by (simp add: complete_items_def q)
qed

lemma complete_items_frame:
  "loop_frame s (complete_items rows s)" "item_frame s (complete_items rows s)"
  "runs (complete_items rows s) = runs s" "run_recoveries (complete_items rows s) = run_recoveries s"
  using complete_items_replay [of rows s] by (auto simp: loop_frame_def item_frame_def)

section \<open>After a restart nothing is left open\<close>

definition nothing_open :: "store \<Rightarrow> bool" where
  "nothing_open s \<longleftrightarrow> checkout_write_leases s = [] \<and>
     list_all (\<lambda>r. \<not> is_active (rr_status r)) (runs s) \<and>
     list_all (\<lambda>a. ap_status a \<noteq> Pending) (approval_requests s) \<and>
     list_all (\<lambda>u. ui_status u \<noteq> InputPending) (user_input_requests s) \<and>
     list_all (\<lambda>i. ti_status i \<noteq> InProgress) (transcript_items s) \<and>
     list_all (\<lambda>e. se_status e \<notin> {Claimed, Dispatched}) (side_effect_executions s)"

lemma loop_frameD:
  assumes "loop_frame s s'"
  shows "approval_requests s' = approval_requests s"
    "side_effect_executions s' = side_effect_executions s"
    "user_input_requests s' = user_input_requests s"
    "checkout_write_leases s' = checkout_write_leases s"
    "run_step_checkpoints s' = run_step_checkpoints s"
  using assms by (simp_all add: loop_frame_def)

lemma settle_effects_fields [simp]:
  "runs (settle_effects t s) = runs s" "transcript_items (settle_effects t s) = transcript_items s"
  "approval_requests (settle_effects t s) = approval_requests s"
  "user_input_requests (settle_effects t s) = user_input_requests s"
  "checkout_write_leases (settle_effects t s) = checkout_write_leases s"
  "run_step_checkpoints (settle_effects t s) = run_step_checkpoints s"
  "run_recoveries (settle_effects t s) = run_recoveries s"
  by (simp_all add: settle_effects_def update_effects_def)

lemma update_hosts_fields [simp]:
  "runs (update_hosts f s) = runs s" "transcript_items (update_hosts f s) = transcript_items s"
  "approval_requests (update_hosts f s) = approval_requests s"
  "user_input_requests (update_hosts f s) = user_input_requests s"
  "checkout_write_leases (update_hosts f s) = checkout_write_leases s"
  "run_step_checkpoints (update_hosts f s) = run_step_checkpoints s"
  "side_effect_executions (update_hosts f s) = side_effect_executions s"
  "run_recoveries (update_hosts f s) = run_recoveries s"
  by (simp_all add: update_hosts_def)

lemma settle_effects_settles:
  "e \<in> set (side_effect_executions (settle_effects t s)) \<Longrightarrow> se_status e \<notin> {Claimed, Dispatched}"
  by (auto simp: settle_effects_def update_effects_def set_update_where has_effect_status_def)

lemma interrupted_idle:
  assumes "for_tx (filter (\<lambda>r. is_active (rr_status r)) (runs s)) (interrupt_run t)
    (s\<lparr>checkout_write_leases := []\<rparr>) = Inr (u, s1)"
  shows "none_active s1"
  using interrupt_loop_runs [OF assms]
  by (auto simp: none_active_def set_update_where is_active_def)

lemma interrupted_items_done:
  assumes "for_tx (sort_key ti_sequence (filter (\<lambda>i. ti_status i = InProgress) (transcript_items s)))
    (interrupt_item t) s = Inr (u, s')" and "i \<in> set (transcript_items s')"
  shows "ti_status i \<noteq> InProgress"
  using interrupt_items_loop [OF assms(1)] assms(2) by (auto simp: set_update_where)

lemma recover_settles:
  assumes "recover_interrupted fresh t s = Inr (report, s')"
  shows "nothing_open s'"
  using assms
proof (rule recover_stages, goal_cases)
  case st: (1 active s1 s2 s3 s4 items verdicts)
  let ?s5 = "settle_effects t (update_hosts (reset_hosts t) s3)"
  have f1: "loop_frame (s\<lparr>checkout_write_leases := []\<rparr>) s1"
    by (rule tx_relD [OF loop.rel_for st(2)]) (rule loop_bodies)
  have f3: "loop_frame s2 s3" by (rule tx_relD [OF loop.rel_for st(5)]) (rule loop_bodies)
  have f4: "loop_frame ?s5 s'"
    unfolding st(7)
    by (rule loop.trans [OF tx_relD [OF loop.rel_collect st(6)] complete_items_frame(1)])
      (rule loop_classify)
  note frames = loop_frameD [OF f1] loop_frameD [OF f3] loop_frameD [OF f4]
  note opens = expire_pending_approvals_def interrupt_pending_inputs_def update_approvals_def
    update_inputs_def set_update_where is_pending_def input_pending_def
  have leases: "checkout_write_leases s' = []"
    using frames by (simp add: st(3) opens)
  have approvals: "\<forall>a \<in> set (approval_requests s'). ap_status a \<noteq> Pending"
    using frames by (auto simp: st(3) opens)
  have inputs: "\<forall>u \<in> set (user_input_requests s'). ui_status u \<noteq> InputPending"
    using frames by (auto simp: st(3) opens)
  have effects: "\<forall>e \<in> set (side_effect_executions s'). se_status e \<notin> {Claimed, Dispatched}"
    using frames settle_effects_settles by metis
  have "none_active s1" using st(1,2) interrupted_idle by blast
  then have "none_active s2" by (simp add: st(3) opens none_active_def)
  then have "none_active s3"
    using tx_relD [OF idle.rel_for st(5)] idle_bodies(2) by blast
  then have "none_active ?s5" by (simp add: none_active_def)
  then have "none_active s4"
    using tx_relD [OF idle.rel_collect st(6)] idle_bodies(1) by blast
  then have idle: "none_active s'" by (simp add: st(7) complete_items_frame none_active_def)
  have "item_frame ?s5 s'"
    unfolding st(7)
    by (rule item_loop.trans [OF tx_relD [OF item_loop.rel_collect st(6)] complete_items_frame(2)])
      (rule item_loop_bodies)
  then have "transcript_items s' = transcript_items s3" by (simp add: item_frame_def)
  then have "\<forall>i \<in> set (transcript_items s'). ti_status i \<noteq> InProgress"
    using interrupted_items_done st(4,5) by metis
  with leases approvals inputs effects idle show ?case
    by (auto simp: nothing_open_def list_all_iff none_active_def)
qed

section \<open>What becomes of one run\<close>

definition eligible_in :: "store \<Rightarrow> run_record \<Rightarrow> bool" where
  "eligible_in s r \<longleftrightarrow> auto_eligible (rr_status r) (recovery_facts (rr_id r) (rr_generation r) s)"

definition wait_for_decision :: "int \<Rightarrow> run_record \<Rightarrow> run_record" where
  "wait_for_decision t x = x\<lparr>rr_status := WaitingRecoveryDecision, rr_updated_at_ms := t\<rparr>"

definition undecided :: "store \<Rightarrow> run_record list \<Rightarrow> run_record \<Rightarrow> bool" where
  "undecided s rows x \<longleftrightarrow> rr_status x = Recovering \<and>
     (\<exists>r \<in> set rows. \<not> eligible_in s r \<and> rr_id x = rr_id r \<and> rr_generation x = rr_generation r)"

definition recovery_row_for :: "store \<Rightarrow> run_record \<Rightarrow> recovery_record \<Rightarrow> bool" where
  "recovery_row_for s r c \<longleftrightarrow> rc_run_id c = rr_id r \<and> rc_interrupted_generation c = rr_generation r \<and>
     rc_resume_generation c = rr_generation r + 1 \<and> rc_previous_status c = rr_status r \<and>
     rc_state c = (if eligible_in s r then EligibleAuto else AwaitingUser)"

lemma recovery_facts_frame: "loop_frame s s' \<Longrightarrow> recovery_facts rid g s' = recovery_facts rid g s"
  unfolding recovery_facts_def latest_generation_checkpoint_def indeterminate_effect_of_def
    get_effect_def by (simp only: loop_frameD)

lemma eligible_frame: "loop_frame s s' \<Longrightarrow> eligible_in s' = eligible_in s"
  by (rule ext) (simp only: eligible_in_def recovery_facts_frame)

lemma classify_result:
  assumes "classify_run fresh t r s = Inr (b, s')"
  shows "b = eligible_in s r \<and>
    runs s' = (if b then runs s else update_where (undecided s [r]) (wait_for_decision t) (runs s)) \<and>
    (\<exists>c. run_recoveries s' = run_recoveries s @ [c] \<and> recovery_row_for s r c)"
proof -
  have upd: "update_where (\<lambda>x. rr_id x = rr_id r \<and> rr_generation x = rr_generation r \<and> rr_status x = Recovering)
      (\<lambda>x. x\<lparr>rr_status := WaitingRecoveryDecision, rr_updated_at_ms := t\<rparr>) rows =
    update_where (undecided s [r]) (wait_for_decision t) rows" if "\<not> eligible_in s r" for rows
    using that by (auto simp: update_where_def undecided_def wait_for_decision_def)
  show ?thesis
    using assms
    by (auto simp: classify_run_def insert_recovery_def Let_def tx_simps update_runs_def
        eligible_in_def [symmetric] recovery_row_for_def upd split: if_splits sum.splits dest!: emit_form)
qed

lemma undecided_step:
  assumes "\<not> eligible_in s r"
  shows "update_where (undecided s rows) (wait_for_decision t)
      (update_where (undecided s [r]) (wait_for_decision t) xs) =
    update_where (undecided s (r # rows)) (wait_for_decision t) xs"
  using assms by (auto simp: update_where_def undecided_def wait_for_decision_def)

lemma classify_all:
  assumes "collect_tx rows (classify_run fresh t) s = Inr (vs, s')"
  shows "vs = map (eligible_in s) rows \<and>
    runs s' = update_where (undecided s rows) (wait_for_decision t) (runs s) \<and>
    (\<exists>cs. run_recoveries s' = run_recoveries s @ cs \<and> list_all2 (recovery_row_for s) rows cs)"
  using assms
proof (induction rows arbitrary: s vs)
  case Nil
  then show ?case by (simp add: tx_simps update_where_def undecided_def)
next
  case (Cons r rows)
  obtain b s1 bs where one: "classify_run fresh t r s = Inr (b, s1)"
    and more: "collect_tx rows (classify_run fresh t) s1 = Inr (bs, s')" and vs: "vs = b # bs"
    using Cons.prems by (auto elim!: bind_tx_InrE simp: ret_def)
  have frame: "eligible_in s1 = eligible_in s"
    by (intro eligible_frame tx_relD [OF loop_classify one])
  have same: "undecided s1 = undecided s" "recovery_row_for s1 = recovery_row_for s"
    by (simp_all add: undecided_def recovery_row_for_def frame fun_eq_iff)
  note first = classify_result [OF one] and rest = Cons.IH [OF more]
  have "undecided s (r # rows) = undecided s rows" if "eligible_in s r"
    using that by (auto simp: undecided_def fun_eq_iff)
  then have "runs s' = update_where (undecided s (r # rows)) (wait_for_decision t) (runs s)"
    using first rest undecided_step [of s r rows t "runs s"] by (auto simp: same)
  then show ?case
    using first rest by (auto simp: vs frame same)
qed

definition run_frame :: "store \<Rightarrow> store \<Rightarrow> bool" where
  "run_frame s s' \<longleftrightarrow> runs s' = runs s \<and> run_recoveries s' = run_recoveries s"

interpretation run_loop: store_order run_frame
  by unfold_locales (auto simp: run_frame_def)

lemma run_loop_item: "tx_rel run_frame s (interrupt_item t i)"
  unfolding interrupt_item_def
  by (intro run_loop.rel_bind_modify)
    (auto intro!: tx_relI simp: run_frame_def update_items_def dest!: emit_form)

text \<open>The restart as a whole, read off the store it leaves.\<close>

lemma recover_result:
  assumes "recover_interrupted fresh t s = Inr (report, s')"
  defines "active \<equiv> filter (\<lambda>r. is_active (rr_status r)) (runs s)"
  shows "runs s' = update_where (undecided s' active) (wait_for_decision t)
      (update_where (\<lambda>r. rr_id r \<in> rr_id ` set active) (set_status Recovering (Some ''executor_lost'') t) (runs s))" (is ?t1)
    and "\<exists>cs. list_all2 (recovery_row_for s') active cs \<and> set cs \<subseteq> set (run_recoveries s')" (is ?t2)
    and "rp_auto_resume_run_ids report = map rr_id (filter (eligible_in s') active)" (is ?t3)
    and "rp_awaiting_decision_run_ids report = map rr_id (filter (\<lambda>r. \<not> eligible_in s' r) active)" (is ?t4)
    and "side_effect_executions s' = side_effect_executions (settle_effects t s)" (is ?t5)
    and "run_step_checkpoints s' = run_step_checkpoints s" (is ?t6)
proof -
  have "?t1 \<and> ?t2 \<and> ?t3 \<and> ?t4 \<and> ?t5 \<and> ?t6"
    using assms(1)
  proof (rule recover_stages, goal_cases)
    case st: (1 act s1 s2 s3 s4 items verdicts)
    let ?s5 = "settle_effects t (update_hosts (reset_hosts t) s3)"
    have act: "act = active" using st(1) by (simp add: active_def)
    have f1: "loop_frame (s\<lparr>checkout_write_leases := []\<rparr>) s1"
      by (rule tx_relD [OF loop.rel_for st(2)]) (rule loop_bodies)
    have f3: "loop_frame s2 s3" by (rule tx_relD [OF loop.rel_for st(5)]) (rule loop_bodies)
    have f4: "loop_frame ?s5 s4"
      by (rule tx_relD [OF loop.rel_collect st(6)]) (rule loop_classify)
    have f: "loop_frame ?s5 s'"
      unfolding st(7) by (rule loop.trans [OF f4 complete_items_frame(1)])
    have effects: "side_effect_executions s3 = side_effect_executions s"
      and checkpoints: "run_step_checkpoints s3 = run_step_checkpoints s"
      using loop_frameD [OF f1] loop_frameD [OF f3]
      by (simp_all add: st(3) expire_pending_approvals_def interrupt_pending_inputs_def
          update_approvals_def update_inputs_def)
    have "run_frame s2 s3" by (rule tx_relD [OF run_loop.rel_for st(5)]) (rule run_loop_item)
    then have runs3: "runs s3 = runs s1" "run_recoveries s3 = run_recoveries s2"
      by (simp_all add: run_frame_def st(3) expire_pending_approvals_def
          interrupt_pending_inputs_def update_approvals_def update_inputs_def)
    have e: "eligible_in s' = eligible_in ?s5" "undecided s' = undecided ?s5"
      "recovery_row_for s' = recovery_row_for ?s5"
      using eligible_frame [OF f] by (simp_all add: undecided_def recovery_row_for_def fun_eq_iff)
    have final: "runs s' = runs s4" "run_recoveries s' = run_recoveries s4"
      by (simp_all add: st(7) complete_items_frame)
    note cls = classify_all [OF st(6)]
    have "filter snd (zip xs (map p xs)) = map (\<lambda>x. (x, p x)) (filter p xs)"
      "filter (Not \<circ> snd) (zip xs (map p xs)) = map (\<lambda>x. (x, p x)) (filter (\<lambda>x. \<not> p x) xs)"
      for p and xs :: "run_record list"
      by (induction xs) auto
    then have reports: ?t3 ?t4
      using st(9,10) cls by (simp_all add: act e comp_def)
    have rows: ?t1 ?t2
      using cls interrupt_loop_runs [OF st(2)]
      by (auto simp: act e runs3 final)
    show ?case
      using reports rows loop_frameD [OF f] effects checkpoints
      by (simp add: settle_effects_def update_effects_def update_hosts_def)
  qed
  then show ?t1 ?t2 ?t3 ?t4 ?t5 ?t6 by auto
qed

lemma recovery_row_kept:
  assumes "recover_interrupted fresh t s = Inr (report, s')"
    and "r \<in> set (runs s)" and "is_active (rr_status r)"
  shows "\<exists>c \<in> set (run_recoveries s'). recovery_row_for s' r c"
proof -
  let ?active = "filter (\<lambda>r. is_active (rr_status r)) (runs s)"
  obtain cs where cs: "list_all2 (recovery_row_for s') ?active cs" "set cs \<subseteq> set (run_recoveries s')"
    using recover_result(2) [OF assms(1)] by auto
  have "r \<in> set ?active" using assms(2,3) by simp
  then obtain i where "i < length ?active" "?active ! i = r" unfolding in_set_conv_nth by blast
  then show ?thesis using cs list_all2_lengthD [OF cs(1)] list_all2_nthD [OF cs(1)]
    by (metis nth_mem subset_iff)
qed

lemma undecided_active:
  assumes "r \<in> set rows" and "\<And>x. x \<in> set rows \<Longrightarrow> rr_id x = rr_id r \<Longrightarrow> x = r"
  shows "undecided s rows (set_status Recovering code t r) \<longleftrightarrow> \<not> eligible_in s r"
proof
  assume "undecided s rows (set_status Recovering code t r)"
  then obtain x where "x \<in> set rows" "\<not> eligible_in s x" "rr_id x = rr_id r"
    by (auto simp: undecided_def)
  then show "\<not> eligible_in s r" using assms(2) by blast
qed (use assms(1) in \<open>auto simp: undecided_def set_status_def\<close>)

lemma key_listed:
  assumes "r \<in> set rows" and "\<And>x. x \<in> set rows \<Longrightarrow> rr_id x = rr_id r \<Longrightarrow> x = r"
  shows "rr_id r \<in> rr_id ` set (filter p rows) \<longleftrightarrow> p r"
proof
  assume "rr_id r \<in> rr_id ` set (filter p rows)"
  then obtain x where "x \<in> set rows" "rr_id x = rr_id r" "p x" by auto
  then show "p r" using assms(2) by blast
next
  assume "p r"
  then show "rr_id r \<in> rr_id ` set (filter p rows)"
    using assms(1) by (intro image_eqI [of _ _ r]) auto
qed

text \<open>C1: When the host restarts, everything that was in flight is closed in one transaction: no
  write lease is held, no run counts as executing, no approval and no question waits for an
  answer, no transcript item is in progress, and no side effect is claimed or dispatched.\<close>

theorem restart_leaves_nothing_open:
  assumes "recover_interrupted fresh t s = Inr (report, s')"
  shows "nothing_open s'"
  using assms by (rule recover_settles)

theorem restart_leaves_nothing_open_witness:
  "\<exists>report s'. recover_interrupted (\<lambda>r. r) 9 demo_saved = Inr (report, s') \<and> nothing_open s'"
proof -
  obtain report s' where s': "recover_interrupted (\<lambda>r. r) 9 demo_saved = Inr (report, s')"
    using demo_restart_saved by blast
  then show ?thesis using restart_leaves_nothing_open by blast
qed

text \<open>A restart decides every run that was executing exactly once: it stays in recovery and is
  listed for automatic resumption, or it waits for the user's decision and is listed for that,
  never both; a recovery record with its generation and previous status is kept. All other runs
  are untouched and in neither list.\<close>

theorem restart_decides_each_run:
  assumes "reachable s" and "recover_interrupted fresh t s = Inr (report, s')"
    and "get_run rid s = Some r"
  defines "auto \<equiv> rid \<in> set (rp_auto_resume_run_ids report)"
    and "asked \<equiv> rid \<in> set (rp_awaiting_decision_run_ids report)"
  shows "if is_active (rr_status r)
    then auto = (\<not> asked) \<and>
      get_run rid s' = Some (set_status (if auto then Recovering else WaitingRecoveryDecision)
        (Some ''executor_lost'') t r) \<and>
      (\<exists>c \<in> set (run_recoveries s'). rc_run_id c = rid \<and> rc_interrupted_generation c = rr_generation r \<and>
        rc_previous_status c = rr_status r \<and> rc_state c = (if auto then EligibleAuto else AwaitingUser))
    else \<not> auto \<and> \<not> asked \<and> get_run rid s' = Some r"
proof -
  let ?active = "filter (\<lambda>r. is_active (rr_status r)) (runs s)"
  note res = recover_result [OF assms(2)]
  have mem: "r \<in> set (runs s)" and rid: "rr_id r = rid" using get_run_id [OF assms(3)] by auto
  have uniq: "x = r" if "x \<in> set (runs s)" "rr_id x = rr_id r" for x
    using get_run_unique [OF reachable_ok [OF assms(1)] assms(3) that] .
  note listed = key_listed [OF mem uniq, unfolded rid]
  have auto: "auto \<longleftrightarrow> is_active (rr_status r) \<and> eligible_in s' r"
    and asked: "asked \<longleftrightarrow> is_active (rr_status r) \<and> \<not> eligible_in s' r"
    using listed [of "\<lambda>r. is_active (rr_status r) \<and> eligible_in s' r"]
      listed [of "\<lambda>r. is_active (rr_status r) \<and> \<not> eligible_in s' r"]
    by (simp_all add: auto_def asked_def res(3,4) filter_filter conj_commute)
  have ids: "rid \<in> rr_id ` set ?active \<longleftrightarrow> is_active (rr_status r)"
    by (rule listed)
  let ?lost = "set_status Recovering (Some ''executor_lost'') t"
  let ?mid = "update_where (\<lambda>r. rr_id r \<in> rr_id ` set ?active) ?lost (runs s)"
  have "find (\<lambda>x. rr_id x = rid) ?mid = Some (if is_active (rr_status r) then ?lost r else r)"
    using assms(3) rid ids by (subst find_update_where) (auto simp: get_run_def)
  then have run: "get_run rid s' = Some (if is_active (rr_status r)
      then if undecided s' ?active (?lost r) then wait_for_decision t (?lost r) else ?lost r else
        if undecided s' ?active r then wait_for_decision t r else r)"
    unfolding get_run_def res(1)
    by (subst find_update_where) (auto simp: wait_for_decision_def)
  have active: "undecided s' ?active (?lost r) \<longleftrightarrow> \<not> eligible_in s' r" if "is_active (rr_status r)"
    using that mem uniq by (intro undecided_active) auto
  have other: "\<not> undecided s' ?active r" if "\<not> is_active (rr_status r)"
    using that by (auto simp: undecided_def dest: uniq)
  have wait: "wait_for_decision t (?lost r) = set_status WaitingRecoveryDecision (Some ''executor_lost'') t r"
    by (simp add: wait_for_decision_def set_status_def)
  show ?thesis
    using run auto asked rid active other wait recovery_row_kept [OF assms(2) mem]
    by (auto simp: recovery_row_for_def)
qed

theorem restart_decides_each_run_witness:
  "\<exists>report s' r. recover_interrupted (\<lambda>r. r) 9 demo_saved = Inr (report, s') \<and>
    get_run ''r'' s' = Some (set_status Recovering (Some ''executor_lost'') 9 r)"
proof -
  obtain report s' where s': "recover_interrupted (\<lambda>r. r) 9 demo_saved = Inr (report, s')"
    and auto: "rp_auto_resume_run_ids report = [''r'']"
    using demo_restart_saved by blast
  have "map_option rr_status (get_run ''r'' demo_saved) = Some Running" by (simp add: restart_eval)
  then obtain r where r: "get_run ''r'' demo_saved = Some r" "rr_status r = Running" by auto
  show ?thesis
    using restart_decides_each_run [OF demo_saved_reachable s' r(1)] r(2) s' auto
    by (auto simp: is_active_def)
qed

lemma in_update_where: "x \<in> set rows \<Longrightarrow> (if p x then f x else x) \<in> set (update_where p f rows)"
  by (simp add: set_update_where)

lemma settle_indeterminate:
  assumes "e \<in> set (side_effect_executions s)" and "se_status e \<in> {Dispatched, Indeterminate}"
  obtains e' where "e' \<in> set (side_effect_executions (settle_effects t s))" "se_run_id e' = se_run_id e"
    "se_run_generation e' = se_run_generation e" "se_status e' = Indeterminate"
proof -
  let ?g = "\<lambda>e. e\<lparr>se_status := Indeterminate,
    se_result_code := Some ''host_result_unknown_after_restart'', se_updated_at_ms := t\<rparr>"
  let ?d = "if has_effect_status Dispatched e then ?g e else e"
  have d: "se_run_id ?d = se_run_id e" "se_run_generation ?d = se_run_generation e"
    "se_status ?d = Indeterminate"
    using assms(2) by (auto simp: has_effect_status_def)
  have "?d \<in> set (update_where (has_effect_status Dispatched) ?g (side_effect_executions s))"
    by (rule in_update_where [OF assms(1)])
  then have "?d \<in> set (side_effect_executions (settle_effects t s))"
    using in_update_where [of ?d _ "has_effect_status Claimed"] d(3)
    unfolding settle_effects_def update_effects_def by (simp add: has_effect_status_def)
  then show thesis using that d by blast
qed

lemma eligible_evidence:
  assumes "eligible_in s r" and "is_active (rr_status r)"
  shows "rr_status r \<in> {Preparing, Running} \<and>
    (\<exists>c. latest_generation_checkpoint (rr_id r) (rr_generation r) s = Some c \<and>
      sc_recovery_policy c \<in> {ReadOnlyReplayable, IdempotentWithReceipt}) \<and>
    (\<forall>e \<in> set (side_effect_executions s). se_run_id e = rr_id r \<and> se_run_generation e = rr_generation r
      \<longrightarrow> se_status e \<noteq> Indeterminate)"
  using assms
  by (auto simp: eligible_in_def auto_eligible_def recovery_facts_def Let_def is_active_def
      indeterminate_effect_of_def filter_empty_conv split: option.splits)



end
