(* ===== verification/Decision_Props.thy ===== *)
theory Decision_Props
  imports Recovery_Props
begin

text \<open>
  The user's decision about an interrupted run: what it demands, what it does to the run and the
  recovery record, and that it is taken once.
\<close>

section \<open>The parts of a decision\<close>

lemma run_loop_check: "tx_rel run_frame s (check_decision r action c t)"
  unfolding check_decision_def resolve_indeterminate_side_effect_tx_def Let_def
  by (cases action; simp; intro run_loop.rel_intros run_loop.rel_bind_modify;
      simp add: run_frame_def update_effects_def)

lemma move_result:
  assumes "move_recovering_run r f s = Inr (u, s')" and "distinct (map rr_id (runs s))"
    and f: "\<And>x. rr_id (f x) = rr_id x"
  shows "\<exists>x. get_run (rc_run_id r) s = Some x \<and> is_recoverable (rr_status x) \<and>
    rr_generation x = rc_interrupted_generation r \<and> get_run (rc_run_id r) s' = Some (f x) \<and>
    run_recoveries s' = run_recoveries s"
proof -
  let ?t = "\<lambda>x. rr_id x = rc_run_id r \<and> rr_generation x = rc_interrupted_generation r \<and>
    is_recoverable (rr_status x)"
  have count: "count_where ?t (runs s) = 1" and s': "s' = update_runs ?t f s"
    using assms(1) by (auto simp: move_recovering_run_def Let_def tx_simps split: if_splits)
  then have "count_where ?t (runs s) \<noteq> 0" by linarith
  then obtain x where x: "x \<in> set (runs s)" "?t x" unfolding count_where_0_iff by blast
  then have get: "get_run (rc_run_id r) s = Some x"
    using find_key_Some_iff [OF assms(2)] by (auto simp: get_run_def)
  have "get_run (rc_run_id r) s' = map_option (\<lambda>x. if ?t x then f x else x) (get_run (rc_run_id r) s)"
    using f by (simp add: s' update_runs_def get_run_def find_update_where)
  then show ?thesis using x(2) get by (simp add: s' update_runs_def)
qed

definition decided :: "decision_request \<Rightarrow> recovery_state \<Rightarrow> string \<Rightarrow> int \<Rightarrow> recovery_record \<Rightarrow> recovery_record" where
  "decided request st client t r = r\<lparr>rc_state := st, rc_decision_action := Some (dr_action request),
     rc_decision_idempotency_key := Some (dr_idempotency_key request), rc_resolved_by := Some client,
     rc_resolved_at_ms := Some t, rc_updated_at_ms := t\<rparr>"

lemma decide_result:
  assumes "update_recovery_state_tx rid st client (dr_action request) (dr_idempotency_key request) t s = Inr (u, s')"
  shows "runs s' = runs s"
    and "get_recovery rid s' = map_option (decided request st client t) (get_recovery rid s)"
proof -
  have f: "(\<lambda>r. r\<lparr>rc_state := st, rc_decision_action := Some (dr_action request),
     rc_decision_idempotency_key := Some (dr_idempotency_key request), rc_resolved_by := Some client,
     rc_resolved_at_ms := Some t, rc_updated_at_ms := t\<rparr>) = decided request st client t"
    by (simp add: decided_def fun_eq_iff)
  have s': "s' = s\<lparr>run_recoveries := update_where (\<lambda>r. rc_id r = rid) (decided request st client t)
      (run_recoveries s)\<rparr>"
    using assms by (simp add: update_recovery_state_tx_def tx_simps f)
  show "runs s' = runs s" by (simp add: s')
  have "get_recovery rid s' = map_option (\<lambda>r. if rc_id r = rid then decided request st client t r else r)
      (get_recovery rid s)"
    unfolding get_recovery_def s' by (simp add: find_update_where decided_def)
  then show "get_recovery rid s' = map_option (decided request st client t) (get_recovery rid s)"
    by (cases "get_recovery rid s") (auto simp: get_recovery_def dest: find_Some_imp)
qed

text \<open>How a decision moves the run, and the state it gives to the recovery.\<close>

definition decided_run :: "decision_request \<Rightarrow> int \<Rightarrow> run_record \<Rightarrow> run_record" where
  "decided_run request t x =
     (if dr_action request = AbandonRun then set_status Cancelled (Some ''recovery_abandoned'') t x
      else (set_status Queued None t x)\<lparr>rr_generation := rr_generation x + 1\<rparr>)"

definition decided_state :: "decision_request \<Rightarrow> recovery_state" where
  "decided_state request = (if dr_action request = AbandonRun then Abandoned else Resuming)"

lemma decision_tx_result:
  assumes "distinct (map rr_id (runs s))" and "rc_resume_generation r = rc_interrupted_generation r + 1"
    and "get_recovery (rc_id r) s = Some r"
    and "(if dr_action request = AbandonRun then abandon_run_tx r request client t
      else resume_run_tx r request client t) s = Inr (u, s')"
  shows "\<exists>x. get_run (rc_run_id r) s = Some x \<and> is_recoverable (rr_status x) \<and>
    rr_generation x = rc_interrupted_generation r \<and>
    get_run (rc_run_id r) s' = Some (decided_run request t x) \<and>
    get_recovery (rc_id r) s' = Some (decided request (decided_state request) client t r)"
proof -
  define f where "f = (if dr_action request = AbandonRun then set_status Cancelled (Some ''recovery_abandoned'') t
    else (\<lambda>x. x\<lparr>rr_status := Queued, rr_generation := rc_resume_generation r,
      rr_failure_code := None, rr_updated_at_ms := t\<rparr>))"
  obtain s0 s1 s2 event payload u1 u2 u3 where s0: "run_frame s s0"
    and s1: "move_recovering_run r f s0 = Inr (u1, s1)"
    and s2: "update_recovery_state_tx (rc_id r) (decided_state request) client (dr_action request)
      (dr_idempotency_key request) t s1 = Inr (u2, s2)"
    and s3: "emit_tx (rc_session_id r) (Some (rc_run_id r)) event payload t s2 = Inr (u3, s')"
  proof (cases "dr_action request = AbandonRun")
    case True
    then show thesis
      using assms(4) that [OF run_loop.refl]
      by (auto simp: abandon_run_tx_def f_def decided_state_def elim!: bind_tx_InrE)
  next
    case False
    then have "resume_run_tx r request client t s = Inr (u, s')" using assms(4) by simp
    then show thesis
      using False that tx_relD [OF run_loop_check]
      by (auto simp: resume_run_tx_def f_def decided_state_def tx_simps(3) elim!: bind_tx_InrE) blast
  qed
  have "rr_id (f x) = rr_id x" for x by (simp add: f_def)
  then obtain x where x: "get_run (rc_run_id r) s0 = Some x" "is_recoverable (rr_status x)"
      "rr_generation x = rc_interrupted_generation r" "get_run (rc_run_id r) s1 = Some (f x)"
      "run_recoveries s1 = run_recoveries s0"
    using move_result [OF s1] s0 assms(1) by (auto simp: run_frame_def)
  have "f x = decided_run request t x"
    using x(3) assms(2) by (simp add: f_def decided_run_def set_status_def)
  moreover have "runs s' = runs s1" "get_recovery (rc_id r) s' = get_recovery (rc_id r) s2"
    using emit_form(2) [OF s3] decide_result(1) [OF s2] by (auto simp: get_recovery_def)
  ultimately show ?thesis
    using x s0 assms(3) decide_result(2) [OF s2]
    by (auto simp: run_frame_def get_run_def get_recovery_def)
qed

lemma resolve_fresh:
  assumes ok: "store_ok s" and r: "get_recovery (dr_recovery_id request) s = Some r"
    and "\<not> is_replay request r" and res: "resolve_run_recovery request client t s = Inr (snap, s')"
  shows "decidable_now request r \<and> (\<exists>x. get_run (rc_run_id r) s = Some x \<and>
    is_recoverable (rr_status x) \<and> rr_generation x = rc_interrupted_generation r \<and>
    get_run (rc_run_id r) s' = Some (decided_run request t x)) \<and>
    get_recovery (dr_recovery_id request) s' = Some (decided request (decided_state request) client t r)"
proof -
  have id: "rc_id r = dr_recovery_id request" and mem: "r \<in> set (run_recoveries s)"
    using r by (auto simp: get_recovery_def dest: find_Some_imp)
  have "decidable_now request r" and "\<exists>u. (if dr_action request = AbandonRun then
      abandon_run_tx r request client t else resume_run_tx r request client t) s = Inr (u, s')"
    using res r assms(3)
    by (auto simp: resolve_run_recovery_def tx_simps split: if_splits sum.splits option.splits)
  then obtain u where "decidable_now request r" and u: "(if dr_action request = AbandonRun then
      abandon_run_tx r request client t else resume_run_tx r request client t) s = Inr (u, s')"
    by blast
  moreover have "rc_resume_generation r = rc_interrupted_generation r + 1"
    using ok mem by (simp add: store_ok_def keys_ok_def list_all_iff)
  ultimately show ?thesis
    using decision_tx_result [OF _ _ _ u] ok r by (auto simp: id store_ok_def keys_ok_def)
qed

section \<open>Properties\<close>

text \<open>A decision about an interrupted run that is not a repetition is accepted only while the
  recovery is open and names its run and generation, and only if the run itself is still in
  recovery in that generation. Then the run is cancelled, or queued again in the next
  generation, and the recovery record stores who decided what, and when.\<close>

theorem recovery_decision_effect:
  assumes "reachable s" and "get_recovery (dr_recovery_id request) s = Some r"
    and "\<not> is_replay request r" and "resolve_run_recovery request client t s = Inr (snap, s')"
  shows "decidable_now request r \<and> (\<exists>x. get_run (rc_run_id r) s = Some x \<and>
    is_recoverable (rr_status x) \<and> rr_generation x = rc_interrupted_generation r \<and>
    get_run (rc_run_id r) s' = Some (decided_run request t x)) \<and>
    get_recovery (dr_recovery_id request) s' = Some (decided request (decided_state request) client t r)"
  using resolve_fresh [OF reachable_ok [OF assms(1)] assms(2-4)] .

lemma recovery_le_run: "recovery_le x y \<Longrightarrow> rc_run_id y = rc_run_id x"
  unfolding recovery_le_def recovery_case_def by (auto dest: arg_cong [where f = rc_run_id])

lemma recovery_later:
  assumes "store_ok s" and "store_run s s'" and "get_recovery rid s = Some r"
  obtains r' where "get_recovery rid s' = Some r'" and "recovery_le r r'"
proof -
  have "store_ok s'" and "store_le s s'" using run_le_of [OF assms(1,2)] by auto
  then show thesis
    using get_later [of recovery_le "run_recoveries s" "run_recoveries s'" rc_id] assms(3) that
      recovery_le_fields
    by (auto simp: store_ok_def keys_ok_def store_le_def get_recovery_def)
qed

text \<open>C10: A decision is taken once. After it has committed, whatever happens in between, repeating the
  same request succeeds without changing anything, and every other request for that recovery is
  refused.\<close>

theorem recovery_decided_once:
  assumes "reachable s" and "get_recovery (dr_recovery_id request) s = Some r"
    and "\<not> is_replay request r" and "resolve_run_recovery request client t s = Inr (snap, s')"
    and "store_run s' later" and "dr_recovery_id again = dr_recovery_id request"
  shows "if again = request then \<exists>snap'. resolve_run_recovery again client' t' later = Inr (snap', later)
    else resolve_run_recovery again client' t' later = Inl InvalidRunRecoveryDecision"
proof -
  let ?d = "decided request (decided_state request) client t r"
  have d: "decidable_now request r" "get_recovery (dr_recovery_id request) s' = Some ?d"
    using resolve_fresh [OF reachable_ok [OF assms(1)] assms(2-4)] by auto
  have "tx_rel advances s (resolve_run_recovery request client t)" by (rule adv_resolve_recovery)
  then have "store_ok s'"
    using reachable_ok [OF assms(1)] assms(4) by (auto simp: advances_def dest: tx_relD)
  then obtain r' where r': "get_recovery (dr_recovery_id request) later = Some r'" "recovery_le ?d r'"
    using recovery_later [OF _ assms(5) d(2)] by blast
  have closed: "rc_state ?d \<notin> {EligibleAuto, AwaitingUser}"
    by (simp add: decided_def decided_state_def)
  then have same: "rc_decision_action r' = Some (dr_action request)"
      "rc_decision_idempotency_key r' = Some (dr_idempotency_key request)"
    using r'(2) by (auto simp: recovery_le_def decided_def)
  have "rc_state r' \<notin> {EligibleAuto, AwaitingUser}"
    using r'(2) closed recovery_rank_le by (auto simp: recovery_le_def)
  moreover have "rc_run_id r' = dr_expected_run_id request"
      "rc_interrupted_generation r' = dr_expected_interrupted_generation request"
    using recovery_le_fields [OF r'(2)] recovery_le_run [OF r'(2)] d(1)
    by (simp_all add: decided_def decidable_now_def)
  ultimately have "is_replay again r' \<longleftrightarrow> again = request" and "\<not> decidable_now again r'"
    using same assms(6) by (auto simp: is_replay_def decidable_now_def)
  moreover have "rc_id r' = dr_recovery_id request"
    using r'(1) by (auto simp: get_recovery_def dest: find_Some_imp)
  ultimately show ?thesis
    using r'(1) assms(6)
    by (cases "again = request")
      (simp_all add: resolve_run_recovery_def tx_simps get_run_recovery_snapshot_def)
qed

text \<open>A restart of the demonstration, and the decision to go on with the safe remainder.\<close>

definition demo_recovering :: store where
  "demo_recovering = after (recover_interrupted (\<lambda>r. r) 9) demo_saved"

definition demo_decision :: decision_request where
  "demo_decision = \<lparr>dr_idempotency_key = ''i'', dr_recovery_id = ''r'', dr_expected_run_id = ''r'',
     dr_expected_interrupted_generation = 1, dr_action = ResumeSafeRemainder\<rparr>"

lemma demo_recovering_reachable: "reachable demo_recovering"
proof -
  obtain report s' where s': "recover_interrupted (\<lambda>r. r) 9 demo_saved = Inr (report, s')"
    using demo_restart_saved by blast
  then have "recover_interrupted_with_run_recovery (\<lambda>r. r) 9 9 True demo_saved = (s', Inr report)"
    by (simp add: recover_interrupted_with_run_recovery_def)
  then have "store_run demo_saved s'" by (auto intro: store_run.intros store_step.recover)
  then show ?thesis
    using reachable_run demo_saved_reachable s' by (simp add: demo_recovering_def after_def)
qed

lemma demo_decision_commits:
  "\<exists>r snap s'. get_recovery ''r'' demo_recovering = Some r \<and> \<not> is_replay demo_decision r \<and>
    rc_run_id r = ''r'' \<and>
    resolve_run_recovery demo_decision ''u'' 10 demo_recovering = Inr (snap, s')"
  by (simp add: demo_recovering_def demo_decision_def restart_eval get_recovery_def is_replay_def
      resolve_run_recovery_def decidable_now_def resume_run_tx_def recovery_checkpoint_def
      get_checkpoint_def check_decision_def move_recovering_run_def is_recoverable_def
      update_recovery_state_tx_def get_run_recovery_snapshot_def decision_action_str.simps)

theorem recovery_decision_effect_witness:
  "\<exists>snap s' x. resolve_run_recovery demo_decision ''u'' 10 demo_recovering = Inr (snap, s') \<and>
    get_run ''r'' s' = Some x \<and> rr_status x = Queued \<and> rr_generation x = 2"
proof -
  obtain r snap s' where d: "get_recovery ''r'' demo_recovering = Some r" "\<not> is_replay demo_decision r"
      "rc_run_id r = ''r''" "resolve_run_recovery demo_decision ''u'' 10 demo_recovering = Inr (snap, s')"
    using demo_decision_commits by blast
  then show ?thesis
    using recovery_decision_effect [OF demo_recovering_reachable, of demo_decision r "''u''" 10 snap s']
    by (auto simp: demo_decision_def decided_run_def decidable_now_def)
qed

theorem recovery_decided_once_witness:
  "\<exists>snap s' snap'. resolve_run_recovery demo_decision ''u'' 10 demo_recovering = Inr (snap, s') \<and>
    resolve_run_recovery demo_decision ''v'' 11 s' = Inr (snap', s')"
proof -
  obtain r snap s' where d: "get_recovery ''r'' demo_recovering = Some r" "\<not> is_replay demo_decision r"
      "resolve_run_recovery demo_decision ''u'' 10 demo_recovering = Inr (snap, s')"
    using demo_decision_commits by blast
  have id: "dr_recovery_id demo_decision = ''r''" by (simp add: demo_decision_def)
  show ?thesis
    using recovery_decided_once [OF demo_recovering_reachable d(1) [folded id] d(2,3) store_run.start refl] d(3)
    by auto
qed

end
