(* ===== verification/Input_Props.thy ===== *)
theory Input_Props
  imports Decision_Props
begin

text \<open>
  What is kept of the answers of a user: the answer to a secret question leaves no trace in the
  store, whatever its text.
\<close>

section \<open>Secret answers\<close>

definition is_secret :: "user_input_question list \<Rightarrow> string \<Rightarrow> bool" where
  "is_secret questions qid \<longleftrightarrow> (case find (\<lambda>q. uq_id q = qid) questions of
     None \<Rightarrow> False | Some q \<Rightarrow> uq_secret q)"

definition same_but_secret :: "user_input_question list \<Rightarrow> user_input_answer \<Rightarrow> user_input_answer \<Rightarrow> bool" where
  "same_but_secret questions a b \<longleftrightarrow> ua_question_id a = ua_question_id b \<and>
     (is_secret questions (ua_question_id a) \<or> ua_value a = ua_value b)"

lemma display_answers_same:
  "list_all2 (same_but_secret questions) as bs \<Longrightarrow>
    map (display_answer questions) as = map (display_answer questions) bs"
  by (induction rule: list_all2_induct)
    (auto simp: same_but_secret_def is_secret_def display_answer_def Let_def split: option.splits)

lemma settle_ignores_answers:
  "length bs = length (ur_answers r) \<Longrightarrow>
    settle_user_input (r\<lparr>ur_answers := bs\<rparr>) = settle_user_input r"
  by (intro ext) (simp add: settle_user_input_def)

lemma resolve_settles:
  assumes "resolve_user_input r s = Inr out" and "get_user_input_request (ur_request_id r) s = Some request"
  shows "settle_user_input r request (if ur_action r = Submit
    then map (display_answer (ui_questions request)) (ur_answers r) else []) s = Inr out"
  using assms
  by (auto simp: resolve_user_input_def get_run_tx_def bind_tx_eval expect_tx_eval tx_eval
      lift_result_def split: option.splits if_splits sum.splits)

text \<open>C11: A secret answer leaves no trace: two submissions that differ in nothing but the text of
  their answers to secret questions, when both are accepted, return the same record and leave the
  same store, events and transcript included.\<close>

theorem secret_answers_leave_no_trace:
  assumes "get_user_input_request (ur_request_id r) s = Some request"
    and "list_all2 (same_but_secret (ui_questions request)) (ur_answers r) bs"
    and "resolve_user_input r s = Inr out"
    and "resolve_user_input (r\<lparr>ur_answers := bs\<rparr>) s = Inr out'"
  shows "out' = out"
proof -
  have len: "length bs = length (ur_answers r)" using assms(2) by (simp add: list_all2_lengthD)
  show ?thesis
    using resolve_settles [OF assms(3,1)] resolve_settles [OF assms(4)] assms(1)
      display_answers_same [OF assms(2)]
    by (auto simp: settle_ignores_answers [OF len] split: if_splits)
qed

definition demo_question :: user_input_question where
  "demo_question = \<lparr>uq_id = ''q'', uq_header = ''h'', uq_prompt = ''p'', uq_options = [],
     uq_secret = True, uq_auto_resolution_ms = None, uq_default_answer = None\<rparr>"

definition demo_request :: user_input_record where
  "demo_request = \<lparr>ui_id = ''u'', ui_session_id = ''s'', ui_run_id = ''r'', ui_run_generation = 1,
     ui_item_id = ''i'', ui_questions = [demo_question], ui_display_answers = [],
     ui_status = InputPending, ui_expires_at_ms = None, ui_created_at_ms = 4, ui_resolved_at_ms = None, ui_resolved_by = None\<rparr>"

definition demo_asked :: store where
  "demo_asked = after (create_user_input_request demo_request) demo_started"

definition demo_answer :: "string \<Rightarrow> user_input_resolution" where
  "demo_answer text = \<lparr>ur_request_id = ''u'', ur_expected_run_id = ''r'', ur_expected_generation = 1,
     ur_action = Submit, ur_answers = [\<lparr>ua_question_id = ''q'', ua_value = text\<rparr>],
     ur_resolved_by = ''c'', ur_resolved_at_ms = 5\<rparr>"

lemma demo_texts:
  "trim ''q'' = ''q''" "trim ''h'' = ''h''" "trim ''p'' = ''p''"
  "chars_count ''h'' = 1" "chars_count ''p'' = 1" "chars_count ''x'' = 1" "chars_count ''y'' = 1"
  by code_simp+

lemma demo_answers_commit:
  "map_option ui_questions (get_user_input_request ''u'' demo_asked) = Some [demo_question]"
  "is_ok (resolve_user_input (demo_answer ''x'') demo_asked)"
  "is_ok (resolve_user_input (demo_answer ''y'') demo_asked)"
  by (simp_all add: demo_eval demo_texts demo_asked_def demo_request_def demo_question_def demo_answer_def
      create_user_input_request_def validate_questions_def check_question_def lift_result_def
      blank_def insert_item_def insert_user_input_def get_user_input_request_def
      resolve_user_input_def settle_user_input_def validate_answers_def display_answer_def
      update_inputs_def input_pending_def update_items_def get_item_def emit_typed_tx_def)

theorem secret_answers_leave_no_trace_witness:
  "\<exists>out. resolve_user_input (demo_answer ''x'') demo_asked = Inr out \<and>
    resolve_user_input (demo_answer ''y'') demo_asked = Inr out"
proof -
  obtain request where r: "get_user_input_request ''u'' demo_asked = Some request"
    and q: "ui_questions request = [demo_question]"
    using demo_answers_commit(1) by auto
  obtain out out' where out: "resolve_user_input (demo_answer ''x'') demo_asked = Inr out"
      "resolve_user_input (demo_answer ''y'') demo_asked = Inr out'"
    using demo_answers_commit(2,3) by (auto simp: is_ok_iff)
  have y: "demo_answer ''y'' = (demo_answer ''x'')\<lparr>ur_answers := [\<lparr>ua_question_id = ''q'', ua_value = ''y''\<rparr>]\<rparr>"
    by (simp add: demo_answer_def)
  have "out' = out"
    using secret_answers_leave_no_trace [of "demo_answer ''x''" demo_asked request
      "[\<lparr>ua_question_id = ''q'', ua_value = ''y''\<rparr>]" out out'] r q out
    unfolding y [symmetric]
    by (simp add: demo_answer_def same_but_secret_def is_secret_def demo_question_def)
  then show ?thesis using out by auto
qed

end
