(* ===== verification/Schedule_Types.thy ===== *)
theory Schedule_Types
  imports Rust_String Permissions Store_Types
begin

text \<open>
  The schedule contracts (\<open>hachimi-protocol/src/agent/schedule.rs\<close>): the schedule definitions, the
  events that trigger them and the task runs they produce. A \<open>BTreeMap\<close> of labels is the list of
  its entries in key order.
\<close>

section \<open>Events\<close>

datatype schedule_event_source_kind =
    WorkspaceSource | PluginSource | ConnectorSource | ChannelSource | GatewaySource

text \<open>The text \<open>enum_to_db\<close> stores.\<close>

fun event_source_kind_str :: "schedule_event_source_kind \<Rightarrow> string" where
  "event_source_kind_str WorkspaceSource = ''workspace''"
| "event_source_kind_str PluginSource = ''plugin''"
| "event_source_kind_str ConnectorSource = ''connector''"
| "event_source_kind_str ChannelSource = ''channel''"
| "event_source_kind_str GatewaySource = ''gateway''"

record schedule_event_source =
  es_kind :: schedule_event_source_kind
  es_principal :: string
  es_id :: string

record schedule_event_resource =
  er_kind :: string
  er_id :: string
  er_revision :: "string option"

record schedule_event_matcher =
  em_source :: schedule_event_source
  em_event_type :: string
  em_subject_prefix :: "string option"
  em_labels :: "(string \<times> string) list"
  em_resource :: "schedule_event_resource option"

record schedule_event_envelope =
  ee_event_id :: string
  ee_source :: schedule_event_source
  ee_event_type :: string
  ee_subject :: "string option"
  ee_labels :: "(string \<times> string) list"
  ee_resource :: "schedule_event_resource option"
  ee_occurred_at_ms :: int

record schedule_event_context =
  ec_event_id :: string
  ec_source :: schedule_event_source
  ec_event_type :: string
  ec_subject :: "string option"
  ec_labels :: "(string \<times> string) list"
  ec_resource :: "schedule_event_resource option"
  ec_fingerprint :: string
  ec_occurred_at_ms :: int
  ec_received_at_ms :: int

section \<open>Schedules\<close>

datatype schedule_spec =
    At int
  | Every nat int
  | Cron string string
  | Event schedule_event_matcher

fun is_event :: "schedule_spec \<Rightarrow> bool" where
  "is_event (Event _) = True"
| "is_event _ = False"

datatype schedule_workspace_spec = Managed_Workspace | SelectedDirectory string
datatype schedule_conversation_mode = SharedSession | PerRunSession

datatype schedule_context_template =
    Workspace_Template schedule_workspace_spec schedule_conversation_mode

record schedule_stop_conditions =
  st_max_occurrences :: "nat option"
  st_end_at_ms :: "int option"
  st_stop_after_success :: bool

record contribution_revision =
  cv_plugin_id :: string
  cv_contribution_id :: string
  cv_account_id :: "string option"
  cv_content_hash :: string
  cv_host_identity_hash :: "string option"
  cv_schema_hash :: "string option"
  cv_action_hash :: "string option"

record connector_revision_selection =
  cn_account_id :: string
  cn_contribution_revision :: contribution_revision
  cn_allowed_actions :: "string list"

record mcp_tool_selection =
  mt_server_id :: string
  mt_tool_name :: string
  mt_schema_hash :: string
  mt_host_identity_hash :: string

record schedule_skill_selection =
  sk_skill_id :: string
  sk_content_hash :: string
  sk_tree_revision :: string

datatype misfire_policy = Skip | CatchUpOnce
datatype delivery_policy = TaskTabOnly | TaskTabAndSystemNotification

datatype schedule_health = Healthy | Health_NeedsAttention | Health_Invalid

fun schedule_health_str :: "schedule_health \<Rightarrow> string" where
  "schedule_health_str Healthy = ''healthy''"
| "schedule_health_str Health_NeedsAttention = ''needs_attention''"
| "schedule_health_str Health_Invalid = ''invalid''"

definition parse_schedule_health :: "string \<Rightarrow> schedule_health option" where
  "parse_schedule_health t = map_of (map (\<lambda>s. (schedule_health_str s, s))
     [Healthy, Health_NeedsAttention, Health_Invalid]) t"

record schedule_definition =
  sd_id :: string
  sd_name :: string
  sd_enabled :: bool
  sd_prompt :: string
  sd_schedule :: schedule_spec
  sd_entry_profile :: entry_profile
  sd_workload_override :: "workload_kind option"
  sd_context_template :: schedule_context_template
  sd_skill_allowlist :: "string list"
  sd_skill_revisions :: "schedule_skill_selection list"
  sd_mcp_tool_allowlist :: "mcp_tool_selection list"
  sd_contribution_revisions :: "contribution_revision list"
  sd_host_connectors :: "connector_revision_selection list"
  sd_permission_policy :: permission_policy
  sd_permission_revision :: nat
  sd_timeout_ms :: nat
  sd_misfire_policy :: misfire_policy
  sd_delivery_policy :: delivery_policy
  sd_stop_conditions :: schedule_stop_conditions
  sd_config_revision :: nat
  sd_created_by :: string
  sd_next_run_at_ms :: "int option"
  sd_health :: schedule_health
  sd_health_reason :: "string option"
  sd_created_at_ms :: int
  sd_updated_at_ms :: int

section \<open>Task runs\<close>

datatype task_run_status =
    Task_Queued | Task_Preparing | Task_Running | Task_NeedsAttention | Task_Succeeded
  | Task_Failed | Task_TimedOut | Task_Cancelled | Task_Lost | Task_Skipped

fun task_run_status_str :: "task_run_status \<Rightarrow> string" where
  "task_run_status_str Task_Queued = ''queued''"
| "task_run_status_str Task_Preparing = ''preparing''"
| "task_run_status_str Task_Running = ''running''"
| "task_run_status_str Task_NeedsAttention = ''needs_attention''"
| "task_run_status_str Task_Succeeded = ''succeeded''"
| "task_run_status_str Task_Failed = ''failed''"
| "task_run_status_str Task_TimedOut = ''timed_out''"
| "task_run_status_str Task_Cancelled = ''cancelled''"
| "task_run_status_str Task_Lost = ''lost''"
| "task_run_status_str Task_Skipped = ''skipped''"

definition parse_task_run_status :: "string \<Rightarrow> task_run_status option" where
  "parse_task_run_status t = map_of (map (\<lambda>s. (task_run_status_str s, s))
     [Task_Queued, Task_Preparing, Task_Running, Task_NeedsAttention, Task_Succeeded, Task_Failed,
      Task_TimedOut, Task_Cancelled, Task_Lost, Task_Skipped]) t"

definition task_is_terminal :: "task_run_status \<Rightarrow> bool" where
  "task_is_terminal s \<longleftrightarrow> s \<in> {Task_NeedsAttention, Task_Succeeded, Task_Failed, Task_TimedOut,
     Task_Cancelled, Task_Lost, Task_Skipped}"

fun task_can_transition_to :: "task_run_status \<Rightarrow> task_run_status \<Rightarrow> bool" where
  "task_can_transition_to Task_Queued t =
     (t \<in> {Task_Preparing, Task_Cancelled, Task_NeedsAttention, Task_Skipped, Task_Lost})"
| "task_can_transition_to Task_Preparing t =
     (t \<in> {Task_Running, Task_Cancelled, Task_Failed, Task_TimedOut, Task_NeedsAttention, Task_Lost})"
| "task_can_transition_to Task_Running t =
     (t \<in> {Task_Cancelled, Task_Succeeded, Task_Failed, Task_TimedOut, Task_NeedsAttention, Task_Lost})"
| "task_can_transition_to _ t = False"

datatype task_run_trigger = Trigger_Scheduled | Trigger_Manual | Trigger_Retry | Trigger_CatchUp | Trigger_Event
datatype delivery_status = Delivery_Pending | NotRequested | Delivered | Delivery_Failed

record task_run_record =
  tr_id :: string
  tr_schedule_id :: "string option"
  tr_schedule_revision :: "nat option"
  tr_trigger :: task_run_trigger
  tr_scheduled_for_ms :: "int option"
  tr_event_context :: "schedule_event_context option"
  tr_invocation_key :: string
  tr_requester_session_id :: "string option"
  tr_execution_session_id :: "string option"
  tr_run_id :: "string option"
  tr_status :: task_run_status
  tr_progress_percent :: "nat option"
  tr_result_summary :: "string option"
  tr_error_code :: "string option"
  tr_error_summary :: "string option"
  tr_artifact_ids :: "string list"
  tr_delivery_status :: delivery_status
  tr_delivery_error_code :: "string option"
  tr_created_at_ms :: int
  tr_started_at_ms :: "int option"
  tr_finished_at_ms :: "int option"
  tr_updated_at_ms :: int

datatype schedule_event_receipt_status = Event_Accepted | Event_Replayed | Event_Conflict

record schedule_event_receipt =
  ep_status :: schedule_event_receipt_status
  ep_event :: schedule_event_context
  ep_matched_schedule_ids :: "string list"
  ep_task_runs :: "task_run_record list"

record schedule_preview =
  pv_valid :: bool
  pv_error_code :: "string option"
  pv_next_occurrences_ms :: "int list"

record schedule_snapshot =
  sn_definition :: schedule_definition
  sn_recent_runs :: "task_run_record list"

section \<open>Facts\<close>

interpretation task_run_status: enum_codec task_run_status_str parse_task_run_status
  by (rule enum_codecI, rule parse_task_run_status_def, simp, case_tac x) simp_all

interpretation schedule_health: enum_codec schedule_health_str parse_schedule_health
  by (rule enum_codecI, rule parse_schedule_health_def, simp, case_tac x) simp_all

lemma task_terminal_iff: "task_is_terminal s \<longleftrightarrow> s \<notin> {Task_Queued, Task_Preparing, Task_Running}"
  by (cases s) (simp_all add: task_is_terminal_def)

lemma task_transition_open: "task_can_transition_to s t \<Longrightarrow> \<not> task_is_terminal s"
  by (cases s) (simp_all add: task_is_terminal_def)

end
