(* ===== verification/Calendar.thy ===== *)
theory Calendar
  imports Schedule_Types
begin

text \<open>
  The schedule calendar (\<open>hachimi-scheduler/src/calendar.rs\<close>): when a schedule is due next. The
  time zone data is behind the trait \<open>TimeZoneResolver\<close>, and the civil calendar is the crate
  \<open>time\<close>: both are fields of the record \<open>calendar_env\<close>. A \<open>PrimitiveDateTime\<close> is the number of
  seconds from a fixed civil midnight: the resolver works in whole seconds, and the search drops
  the nanoseconds before it starts.
\<close>

named_theorems cal_simps \<open>evaluation of the calendar\<close>

section \<open>Data\<close>

datatype calendar_error =
    PastTimestamp
  | IntervalTooShort
  | InvalidCron string
  | InvalidTimeZone string
  | TimeZoneUnavailable string
  | SearchHorizonExceeded
  | TimestampRange

fun calendar_error_code :: "calendar_error \<Rightarrow> string" where
  "calendar_error_code PastTimestamp = ''schedule_time_in_past''"
| "calendar_error_code IntervalTooShort = ''schedule_interval_too_short''"
| "calendar_error_code (InvalidCron _) = ''schedule_cron_invalid''"
| "calendar_error_code (InvalidTimeZone _) = ''schedule_timezone_invalid''"
| "calendar_error_code (TimeZoneUnavailable _) = ''schedule_timezone_runtime_unavailable''"
| "calendar_error_code SearchHorizonExceeded = ''schedule_search_horizon_exceeded''"
| "calendar_error_code TimestampRange = ''schedule_timestamp_out_of_range''"

record civil_fields =
  cf_second :: nat
  cf_minute :: nat
  cf_hour :: nat
  cf_day :: nat
  cf_month :: nat
  cf_weekday :: nat

record calendar_env =
  civil :: "int \<Rightarrow> civil_fields"
  local_min :: int
  local_max :: int
  utc_to_local :: "string \<Rightarrow> int \<Rightarrow> (calendar_error, int) result"
  local_to_utc :: "string \<Rightarrow> int \<Rightarrow> (calendar_error, int list) result"

text \<open>\<open>PrimitiveDateTime::checked_add\<close>: nothing outside the supported years.\<close>

definition checked_local :: "'z calendar_env_scheme \<Rightarrow> int \<Rightarrow> int option" where
  "checked_local env l = (if local_min env \<le> l \<and> l \<le> local_max env then Some l else None)"

text \<open>What the crate documents of the fields: sixty seconds and minutes, twenty-four hours.\<close>

definition civil_ok :: "'z calendar_env_scheme \<Rightarrow> bool" where
  "civil_ok env \<longleftrightarrow> (\<forall>l. int (cf_second (civil env l)) = l mod 60 \<and>
     int (cf_minute (civil env l)) = l div 60 mod 60 \<and> int (cf_hour (civil env l)) = l div 3600 mod 24)"

section \<open>Cron expressions\<close>

record cron_expression =
  cr_seconds :: "nat set"
  cr_minutes :: "nat set"
  cr_hours :: "nat set"
  cr_days :: "nat set"
  cr_months :: "nat set"
  cr_weekdays :: "nat set"
  cr_day_wildcard :: bool
  cr_weekday_wildcard :: bool
  cr_has_seconds :: bool

text \<open>\<open>str::split_once\<close> for one character, and \<open>str::split_whitespace\<close>.\<close>

fun split_once :: "char \<Rightarrow> string \<Rightarrow> (string \<times> string) option" where
  "split_once d [] = None"
| "split_once d (c # cs) =
     (if c = d then Some ([], cs)
      else map_option (\<lambda>(a, b). (c # a, b)) (split_once d cs))"

text \<open>The first word and what follows the white space that ends it.\<close>

fun first_word :: "string \<Rightarrow> string \<times> string" where
  "first_word [] = ([], [])"
| "first_word (c # cs) =
     (case leading_ws ws_encodings (c # cs) of
        Some w \<Rightarrow> ([], c # cs)
      | None \<Rightarrow> (let (word, rest) = first_word cs in (c # word, rest)))"

lemma first_word_length: "length (snd (first_word s)) \<le> length s"
  by (induction s rule: first_word.induct) (auto split: option.splits prod.splits)

lemma first_word_shorter:
  assumes "s \<noteq> []" and "leading_ws ws_encodings s = None"
  shows "length (snd (first_word s)) < length s"
  using assms by (cases s) (auto simp: less_Suc_eq_le first_word_length split: prod.splits
      intro: order_trans [OF _ first_word_length] dest!: arg_cong [where f = "length \<circ> snd"])

lemma trim_start_length: "length (trim_start s) \<le> length s"
  using strip_leading_suffix [of s ws_encodings] by (metis trim_start_def length_append le_add2)

function split_whitespace :: "string \<Rightarrow> string list" where
  "split_whitespace s =
     (if trim_start s = [] then []
      else fst (first_word (trim_start s)) # split_whitespace (snd (first_word (trim_start s))))"
  by pat_completeness auto
termination
proof (relation "measure length", simp)
  fix s assume "trim_start s \<noteq> []"
  then have "length (snd (first_word (trim_start s))) < length (trim_start s)"
    by (intro first_word_shorter) (simp_all add: trim_start_def)
  also have "\<dots> \<le> length s" by (rule trim_start_length)
  finally show "(snd (first_word (trim_start s)), s) \<in> measure length" by simp
qed

declare split_whitespace.simps [simp del]

definition month_names :: "(string \<times> nat) list" where
  "month_names = [(''JAN'', 1), (''FEB'', 2), (''MAR'', 3), (''APR'', 4), (''MAY'', 5), (''JUN'', 6),
     (''JUL'', 7), (''AUG'', 8), (''SEP'', 9), (''OCT'', 10), (''NOV'', 11), (''DEC'', 12)]"

definition weekday_names :: "(string \<times> nat) list" where
  "weekday_names = [(''SUN'', 0), (''MON'', 1), (''TUE'', 2), (''WED'', 3), (''THU'', 4), (''FRI'', 5),
     (''SAT'', 6)]"

definition u8_max :: nat where
  "u8_max = 255"

definition parse_value :: "string \<Rightarrow> nat \<Rightarrow> nat \<Rightarrow> (string \<times> nat) list \<Rightarrow> (calendar_error, nat) result" where
  "parse_value value lo hi names =
     (let upper = to_ascii_uppercase value in
      case (case map_of names upper of Some n \<Rightarrow> Some n | None \<Rightarrow> parse_unsigned u8_max upper) of
        None \<Rightarrow> Inl (InvalidCron (''invalid value '' @ value))
      | Some parsed \<Rightarrow>
          if parsed < lo \<or> hi < parsed
          then Inl (InvalidCron (''value '' @ decimal parsed @ '' is outside '' @ decimal lo @ ''-'' @ decimal hi))
          else Inr parsed)"

text \<open>The inner loop; it stops when the next value leaves \<open>u8\<close>. A zero step is refused before.\<close>

function range_values :: "nat \<Rightarrow> nat \<Rightarrow> nat \<Rightarrow> nat set \<Rightarrow> nat set" where
  "range_values value stop step acc =
     (if value \<le> stop \<and> 0 < step
      then (if value + step \<le> u8_max then range_values (value + step) stop step (insert value acc)
            else insert value acc)
      else acc)"
  by pat_completeness auto
termination by (relation "measure (\<lambda>(value, stop, step, acc). Suc stop - value)") auto

declare range_values.simps [simp del]

definition parse_segment ::
    "string \<Rightarrow> nat \<Rightarrow> nat \<Rightarrow> (string \<times> nat) list \<Rightarrow> nat set \<Rightarrow> (calendar_error, nat set) result" where
  "parse_segment segment lo hi names acc =
     (let (base, step) = (case split_once (CHR ''/'') segment of
            None \<Rightarrow> (segment, 1)
          | Some (base, step) \<Rightarrow> (base, case parse_unsigned u8_max step of None \<Rightarrow> 0 | Some n \<Rightarrow> n)) in
      if step = 0 then Inl (InvalidCron ''step must be positive'')
      else rbind
        (if base = ''*'' then Inr (lo, hi)
         else case split_once (CHR ''-'') base of
             Some (start, stop) \<Rightarrow>
               rbind (parse_value start lo hi names) (\<lambda>a.
               rbind (parse_value stop lo hi names) (\<lambda>b. Inr (a, b)))
           | None \<Rightarrow> rbind (parse_value base lo hi names) (\<lambda>v. Inr (v, v)))
        (\<lambda>(start, stop).
          if stop < start then Inl (InvalidCron ''range start exceeds end'')
          else Inr (range_values start stop step acc)))"

fun parse_segments ::
    "string list \<Rightarrow> nat \<Rightarrow> nat \<Rightarrow> (string \<times> nat) list \<Rightarrow> nat set \<Rightarrow> (calendar_error, nat set) result" where
  "parse_segments [] lo hi names acc = Inr acc"
| "parse_segments (s # ss) lo hi names acc =
     rbind (parse_segment s lo hi names acc) (parse_segments ss lo hi names)"

definition parse_field :: "string \<Rightarrow> nat \<Rightarrow> nat \<Rightarrow> (string \<times> nat) list \<Rightarrow> (calendar_error, nat set) result" where
  "parse_field field lo hi names =
     rbind (parse_segments (split_on (CHR '','') field) lo hi names {}) (\<lambda>values.
     if values = {} then Inl (InvalidCron ''field is empty'') else Inr values)"

definition parse_cron :: "string \<Rightarrow> (calendar_error, cron_expression) result" where
  "parse_cron expression =
     (let fields = split_whitespace expression in
      if length fields \<noteq> 5 \<and> length fields \<noteq> 6 then Inl (InvalidCron ''expected 5 or 6 fields'')
      else
        (let has_seconds = length fields = 6;
             at = (\<lambda>i. fields ! (if has_seconds then i else i - 1)) in
         rbind (if has_seconds then parse_field (at 0) 0 59 [] else Inr {0}) (\<lambda>seconds.
         rbind (parse_field (at 1) 0 59 []) (\<lambda>minutes.
         rbind (parse_field (at 2) 0 23 []) (\<lambda>hours.
         rbind (parse_field (at 3) 1 31 []) (\<lambda>days.
         rbind (parse_field (at 4) 1 12 month_names) (\<lambda>months.
         rbind (parse_field (at 5) 0 7 weekday_names) (\<lambda>weekdays.
         Inr \<lparr>cr_seconds = seconds, cr_minutes = minutes, cr_hours = hours, cr_days = days,
              cr_months = months, cr_weekdays = (\<lambda>v. if v = 7 then 0 else v) ` weekdays,
              cr_day_wildcard = (at 3 = ''*''), cr_weekday_wildcard = (at 5 = ''*''),
              cr_has_seconds = has_seconds\<rparr>))))))))"

definition calendar_day_matches :: "cron_expression \<Rightarrow> civil_fields \<Rightarrow> bool" where
  "calendar_day_matches cron f =
     (let day = cf_day f \<in> cr_days cron; weekday = cf_weekday f \<in> cr_weekdays cron in
      case (cr_day_wildcard cron, cr_weekday_wildcard cron) of
        (True, True) \<Rightarrow> True
      | (True, False) \<Rightarrow> weekday
      | (False, True) \<Rightarrow> day
      | (False, False) \<Rightarrow> day \<or> weekday)"

definition cron_matches :: "cron_expression \<Rightarrow> civil_fields \<Rightarrow> bool" where
  "cron_matches cron f \<longleftrightarrow> cf_second f \<in> cr_seconds cron \<and> cf_minute f \<in> cr_minutes cron \<and>
     cf_hour f \<in> cr_hours cron \<and> cf_month f \<in> cr_months cron \<and> calendar_day_matches cron f"

definition valid_timezone_name :: "string \<Rightarrow> bool" where
  "valid_timezone_name timezone \<longleftrightarrow> timezone \<noteq> [] \<and> length timezone \<le> 128 \<and>
     list_all (\<lambda>b. is_ascii_alnum b \<or> b \<in> {CHR ''/'', CHR ''_'', CHR ''-'', CHR ''+''}) timezone"

section \<open>The search\<close>

definition max_cron_search_steps :: nat where
  "max_cron_search_steps = 6 * 366 * 24 * 60 * 60"

text \<open>
  The loop over the candidates of one local time: \<open>values\<close> is what was found, and the flag tells
  that the requested number is reached.
\<close>

fun push_candidates :: "int \<Rightarrow> nat \<Rightarrow> int list \<Rightarrow> int list \<Rightarrow> bool \<times> int list" where
  "push_candidates after count values [] = (False, values)"
| "push_candidates after count values (c # cs) =
     (if after < c \<and> (values = [] \<or> last values \<noteq> c)
      then (let values' = values @ [c] in
            if length values' = count then (True, values') else push_candidates after count values' cs)
      else push_candidates after count values cs)"

fun cron_search :: "'z calendar_env_scheme \<Rightarrow> string \<Rightarrow> cron_expression \<Rightarrow> int \<Rightarrow> nat \<Rightarrow> nat \<Rightarrow> int \<Rightarrow>
    int list \<Rightarrow> (calendar_error, int list) result" where
  "cron_search env timezone cron after count 0 here values = Inl SearchHorizonExceeded"
| "cron_search env timezone cron after count (Suc steps) here values =
     rbind
       (if cron_matches cron (civil env here)
        then rbind (local_to_utc env timezone here) (\<lambda>candidates.
          Inr (push_candidates after count values (sort candidates)))
        else Inr (False, values))
       (\<lambda>(full, values).
         if full then Inr values
         else case checked_local env (here + (if cr_has_seconds cron then 1 else 60)) of
             None \<Rightarrow> Inl TimestampRange
           | Some next \<Rightarrow> cron_search env timezone cron after count steps next values)"

definition cron_start :: "'z calendar_env_scheme \<Rightarrow> cron_expression \<Rightarrow> int \<Rightarrow> (calendar_error, int) result" where
  "cron_start env cron here =
     (case checked_local env (here + (if cr_has_seconds cron then 1 else 60)) of
        None \<Rightarrow> Inl TimestampRange
      | Some next \<Rightarrow> Inr (if cr_has_seconds cron then next else next - int (cf_second (civil env next))))"

definition cron_occurrences :: "'z calendar_env_scheme \<Rightarrow> string \<Rightarrow> string \<Rightarrow> int \<Rightarrow> nat \<Rightarrow>
    (calendar_error, int list) result" where
  "cron_occurrences env expression timezone after count =
     (if \<not> valid_timezone_name timezone then Inl (InvalidTimeZone timezone)
      else rbind (parse_cron expression) (\<lambda>cron.
        rbind (utc_to_local env timezone after) (\<lambda>here.
        rbind (cron_start env cron here) (\<lambda>start.
        cron_search env timezone cron after count max_cron_search_steps start []))))"

section \<open>Occurrences\<close>

definition min_every_interval_ms :: nat where
  "min_every_interval_ms = 60000"

fun every_values :: "int \<Rightarrow> nat \<Rightarrow> int \<Rightarrow> (calendar_error, int list) result" where
  "every_values interval 0 next = Inr []"
| "every_values interval (Suc count) next =
     (case checked_i64 (next + interval) of
        None \<Rightarrow> Inl TimestampRange
      | Some following \<Rightarrow> rbind (every_values interval count following) (\<lambda>vs. Inr (next # vs)))"

definition every_occurrences :: "nat \<Rightarrow> int \<Rightarrow> int \<Rightarrow> nat \<Rightarrow> (calendar_error, int list) result" where
  "every_occurrences interval_ms anchor_ms after_ms count =
     (if interval_ms < min_every_interval_ms then Inl IntervalTooShort
      else case checked_i64 (int interval_ms) of
          None \<Rightarrow> Inl TimestampRange
        | Some interval \<Rightarrow>
            let elapsed = sat_i64 (after_ms - anchor_ms);
                steps = (if elapsed < 0 then 0 else sat_i64 (elapsed div interval + 1));
                next = sat_i64 (anchor_ms + sat_i64 (steps * interval))
            in every_values interval count next)"

fun occurrences_after :: "'z calendar_env_scheme \<Rightarrow> schedule_spec \<Rightarrow> int \<Rightarrow> nat \<Rightarrow>
    (calendar_error, int list) result" where
  "occurrences_after env (At timestamp_ms) after_ms count =
     Inr (if timestamp_ms \<le> after_ms then [] else [timestamp_ms])"
| "occurrences_after env (Every interval_ms anchor_ms) after_ms count =
     every_occurrences interval_ms anchor_ms after_ms count"
| "occurrences_after env (Cron expression timezone) after_ms count =
     cron_occurrences env expression timezone after_ms count"
| "occurrences_after env (Event _) after_ms count = Inr []"

definition preview_schedule :: "'z calendar_env_scheme \<Rightarrow> schedule_spec \<Rightarrow> int \<Rightarrow> nat \<Rightarrow> schedule_preview" where
  "preview_schedule env schedule after_ms count =
     (case occurrences_after env schedule after_ms (max 1 (min 20 count)) of
        Inr vs \<Rightarrow> \<lparr>pv_valid = True, pv_error_code = None, pv_next_occurrences_ms = vs\<rparr>
      | Inl e \<Rightarrow> \<lparr>pv_valid = False, pv_error_code = Some (calendar_error_code e),
          pv_next_occurrences_ms = []\<rparr>)"

text \<open>\<open>service_helpers.rs\<close>: the one occurrence the service stores.\<close>

definition next_occurrence :: "'z calendar_env_scheme \<Rightarrow> schedule_spec \<Rightarrow> int \<Rightarrow>
    (calendar_error, int option) result" where
  "next_occurrence env schedule after_ms =
     rbind (occurrences_after env schedule after_ms 1) (\<lambda>vs.
     Inr (case vs of [] \<Rightarrow> None | v # _ \<Rightarrow> Some v))"

end
