(* ===== verification/Calendar_Props.thy ===== *)
theory Calendar_Props
  imports Calendar
begin

text \<open>
  The properties of the calendar: the fields of a cron expression are bounded, an interval has no
  drift, and the search of a cron schedule against a reference that lists the matching instants.
  Where the clock is turned back the search is not in order; that is the last property.
\<close>

section \<open>Fields of a cron expression\<close>

lemma range_values_exact:
  assumes "0 < step" and "stop \<le> u8_max"
  shows "range_values a stop step acc = acc \<union> {v. \<exists>k. v = a + k * step \<and> v \<le> stop}"
  using assms
proof (induction a stop step acc rule: range_values.induct)
  case (1 a stop step acc)
  let ?S = "\<lambda>x. {v. \<exists>k. v = x + k * step \<and> v \<le> stop}"
  have cons: "?S a = insert a (?S (a + step))" if "a \<le> stop"
  proof -
    have "v \<in> ?S a \<longleftrightarrow> v = a \<or> v \<in> ?S (a + step)" for v
    proof
      assume "v \<in> ?S a"
      then obtain k where k: "v = a + k * step" "v \<le> stop" by blast
      then show "v = a \<or> v \<in> ?S (a + step)"
        by (cases k) auto
    next
      assume "v = a \<or> v \<in> ?S (a + step)"
      then show "v \<in> ?S a"
      proof
        assume "v = a"
        then show ?thesis using that by (auto intro: exI [of _ 0])
      next
        assume "v \<in> ?S (a + step)"
        then obtain k where "v = a + step + k * step" "v \<le> stop" by blast
        then show ?thesis by (auto intro: exI [of _ "Suc k"])
      qed
    qed
    then show ?thesis by blast
  qed
  have beyond: "?S x = {}" if "stop < x" for x using that by auto
  show ?case
  proof (cases "a \<le> stop")
    case True
    show ?thesis
    proof (cases "a + step \<le> u8_max")
      case le: True
      then have "range_values a stop step acc = insert a acc \<union> ?S (a + step)"
        using 1 True by (subst range_values.simps) auto
      then show ?thesis using cons [OF True] by auto
    next
      case False
      then have "?S (a + step) = {}" using 1 by (intro beyond) linarith
      moreover have "range_values a stop step acc = insert a acc"
        using 1 True False by (subst range_values.simps) auto
      ultimately show ?thesis unfolding cons [OF True] by (metis Un_insert_right sup_bot_right)
    qed
  next
    case False
    then show ?thesis using beyond [of a] by (subst range_values.simps) auto
  qed
qed

lemma parse_value_bounds: "parse_value a lo hi names = Inr v \<Longrightarrow> lo \<le> v \<and> v \<le> hi"
  by (auto simp: parse_value_def Let_def split: option.splits if_splits)

lemma parse_segment_bounds:
  assumes "parse_segment segment lo hi names acc = Inr s" and "lo \<le> hi" "hi \<le> u8_max" and "acc \<subseteq> {lo..hi}"
  shows "s \<subseteq> {lo..hi} \<and> s \<noteq> {}"
proof -
  obtain start stop step where r: "s = range_values start stop step acc" "0 < step" "start \<le> stop" "lo \<le> start" "stop \<le> hi"
    using assms(1,2)
    by (auto simp: parse_segment_def Let_def rbind_Inr_iff split: option.splits if_splits prod.splits
        dest!: parse_value_bounds)
  have "start \<in> s" using r assms(3) by (subst r(1), subst range_values_exact) (auto intro: exI [of _ 0])
  moreover have "s \<subseteq> {lo..hi}" using r assms(3,4) by (subst r(1), subst range_values_exact) auto
  ultimately show ?thesis by blast
qed

lemma parse_segments_bounds:
  "parse_segments ss lo hi names acc = Inr s \<Longrightarrow> lo \<le> hi \<Longrightarrow> hi \<le> u8_max \<Longrightarrow> acc \<subseteq> {lo..hi} \<Longrightarrow> s \<subseteq> {lo..hi}"
  by (induction ss arbitrary: acc) (auto simp: rbind_Inr_iff dest: parse_segment_bounds)

lemma parse_field_bounds:
  assumes "parse_field field lo hi names = Inr s" and "lo \<le> hi" "hi \<le> u8_max"
  shows "s \<noteq> {} \<and> s \<subseteq> {lo..hi}"
  using assms parse_segments_bounds [of _ lo hi names "{}"]
  by (auto simp: parse_field_def rbind_Inr_iff split: if_splits)

text \<open>C26: A cron expression that is accepted can only hold values in the range of each field, and no
  field is empty: seconds and minutes below 60, hours below 24, days 1 to 31, months 1 to 12, and
  weekdays 0 to 6, Sunday written as 0 or 7.\<close>

theorem cron_fields_bounded:
  assumes "parse_cron expression = Inr cron"
  shows "cr_seconds cron \<subseteq> {0..59} \<and> cr_minutes cron \<subseteq> {0..59} \<and> cr_hours cron \<subseteq> {0..23} \<and>
    cr_days cron \<subseteq> {1..31} \<and> cr_months cron \<subseteq> {1..12} \<and> cr_weekdays cron \<subseteq> {0..6} \<and>
    {} \<notin> {cr_seconds cron, cr_minutes cron, cr_hours cron, cr_days cron, cr_months cron, cr_weekdays cron}"
proof -
  let ?fields = "split_whitespace expression"
  let ?at = "\<lambda>i. ?fields ! (if length ?fields = 6 then i else i - 1)"
  obtain weekdays where c:
      "(if length ?fields = 6 then parse_field (?at 0) 0 59 [] else Inr {0}) = Inr (cr_seconds cron)"
      "parse_field (?at 1) 0 59 [] = Inr (cr_minutes cron)" "parse_field (?at 2) 0 23 [] = Inr (cr_hours cron)"
      "parse_field (?at 3) 1 31 [] = Inr (cr_days cron)"
      "parse_field (?at 4) 1 12 month_names = Inr (cr_months cron)"
      "parse_field (?at 5) 0 7 weekday_names = Inr weekdays"
      "cr_weekdays cron = (\<lambda>v. if v = 7 then 0 else v) ` weekdays"
    using assms unfolding parse_cron_def Let_def by (auto simp: rbind_Inr_iff split: if_splits)
  have "cr_seconds cron \<noteq> {} \<and> cr_seconds cron \<subseteq> {0..59}"
    using c(1) [symmetric] parse_field_bounds [of "?at 0" 0 59 "[]"]
    by (cases "length ?fields = 6") (simp_all add: u8_max_def)
  moreover have "cr_weekdays cron \<noteq> {} \<and> cr_weekdays cron \<subseteq> {0..6}"
    using parse_field_bounds [OF c(6)] by (fastforce simp: c(7) u8_max_def)
  ultimately show ?thesis
    using parse_field_bounds [OF c(2)] parse_field_bounds [OF c(3)] parse_field_bounds [OF c(4)]
      parse_field_bounds [OF c(5)]
    by (auto simp: u8_max_def)
qed

lemma demo_cron_parses: "is_ok (parse_cron ''*/30 * * * *'')"
  by code_simp

theorem cron_fields_bounded_witness: "\<exists>cron. parse_cron ''*/30 * * * *'' = Inr cron \<and> cr_minutes cron \<subseteq> {0..59}"
proof -
  obtain cron where c: "parse_cron ''*/30 * * * *'' = Inr cron"
    using demo_cron_parses by (cases "parse_cron ''*/30 * * * *''") auto
  show ?thesis using cron_fields_bounded [OF c] c by simp
qed

section \<open>Intervals\<close>

text \<open>The first point of the grid of an interval after a time.\<close>

definition first_after :: "int \<Rightarrow> int \<Rightarrow> int \<Rightarrow> int" where
  "first_after interval anchor after =
     (if after < anchor then anchor else anchor + ((after - anchor) div interval + 1) * interval)"

lemma first_after_least:
  assumes "0 < interval"
  shows "after < first_after interval anchor after"
    and "\<exists>k. first_after interval anchor after = anchor + int k * interval"
    and "after < anchor + int k * interval \<Longrightarrow> first_after interval anchor after \<le> anchor + int k * interval"
proof -
  let ?q = "(after - anchor) div interval"
  have div: "?q * interval + (after - anchor) mod interval = after - anchor"
    by (rule div_mult_mod_eq)
  have mod: "0 \<le> (after - anchor) mod interval" "(after - anchor) mod interval < interval"
    using assms by auto
  show "after < first_after interval anchor after"
    using div mod(2) unfolding first_after_def distrib_right by (cases "after < anchor"; simp; linarith)
  have "0 \<le> ?q" if "anchor \<le> after" using that assms by (simp add: pos_imp_zdiv_nonneg_iff)
  then show "\<exists>k. first_after interval anchor after = anchor + int k * interval"
    by (auto simp: first_after_def intro: exI [of _ 0] exI [of _ "nat (?q + 1)"])
  assume k: "after < anchor + int k * interval"
  then have "?q * interval < int k * interval" using div mod by linarith
  then have "?q + 1 \<le> int k" using assms by simp
  then have "(?q + 1) * interval \<le> int k * interval" using assms by (intro mult_right_mono) auto
  then show "first_after interval anchor after \<le> anchor + int k * interval"
    using assms by (auto simp: first_after_def)
qed

lemma every_values_exact:
  assumes "0 < interval" and "is_i64 next"
  shows "every_values interval count next =
    (if is_i64 (next + int count * interval) then Inr (map (\<lambda>i. next + int i * interval) [0..<count])
     else Inl TimestampRange)"
  using assms
proof (induction count arbitrary: "next")
  case (Suc count)
  have shift: "map (\<lambda>i. next + int i * interval) [0..<Suc count] =
      next # map (\<lambda>i. next + interval + int i * interval) [0..<count]"
    unfolding upt_conv_Cons [OF zero_less_Suc] map_Suc_upt [symmetric]
    by (simp add: algebra_simps comp_def)
  have sum: "next + interval + int count * interval = next + int (Suc count) * interval"
    by (simp add: algebra_simps)
  show ?case
  proof (cases "is_i64 (next + interval)")
    case True
    then show ?thesis
      unfolding every_values.simps checked_i64_def using Suc.IH [OF Suc.prems(1) True] shift sum by simp
  next
    case False
    have "next + interval \<le> next + int (Suc count) * interval"
      using Suc.prems(1) by (simp add: algebra_simps)
    then have "\<not> is_i64 (next + int (Suc count) * interval)"
      using False Suc.prems unfolding is_i64_def by linarith
    then show ?thesis unfolding every_values.simps checked_i64_def using False by simp
  qed
qed simp

text \<open>A fixed interval has no drift. As long as the distances involved fit into 64 bits, the
  occurrences after a time are consecutive points of the grid that starts at the anchor, the first
  being the least point of the grid after that time; the answer is an error exactly when the point
  after the last requested one does not fit into 64 bits any more.\<close>

theorem every_occurrences_exact:
  assumes "min_every_interval_ms \<le> interval_ms" and "is_i64 (int interval_ms)"
    and "is_i64 (after - anchor)" and "is_i64 (first_after (int interval_ms) anchor after - anchor)"
    and "is_i64 (first_after (int interval_ms) anchor after)"
  defines "next \<equiv> first_after (int interval_ms) anchor after"
  shows "occurrences_after env (Every interval_ms anchor) after count =
      (if is_i64 (next + int count * int interval_ms)
       then Inr (map (\<lambda>i. next + int i * int interval_ms) [0..<count]) else Inl TimestampRange) \<and>
    after < next \<and> (\<exists>k. next = anchor + int k * int interval_ms) \<and>
    (\<forall>k. anchor + int k * int interval_ms \<in> {after<..} \<longrightarrow> next \<le> anchor + int k * int interval_ms)"
proof -
  let ?i = "int interval_ms"
  have i: "0 < ?i" using assms(1) by (simp add: min_every_interval_ms_def)
  let ?steps = "if after - anchor < 0 then 0 else sat_i64 ((after - anchor) div ?i + 1)"
  have "anchor + sat_i64 (?steps * ?i) = next"
  proof (cases "after < anchor")
    case True
    then show ?thesis by (simp add: next_def first_after_def sat_i64_def i64_min_def i64_max_def)
  next
    case False
    then have nonneg: "0 \<le> (after - anchor) div ?i" using i by (simp add: pos_imp_zdiv_nonneg_iff)
    have d: "next - anchor = ((after - anchor) div ?i + 1) * ?i"
      using False by (simp add: next_def first_after_def)
    have "(after - anchor) div ?i + 1 \<le> next - anchor"
      unfolding d using nonneg i by (simp add: mult_le_cancel_left1)
    moreover have "next - anchor \<le> i64_max" using assms(4) by (simp add: is_i64_def next_def)
    ultimately have "is_i64 ((after - anchor) div ?i + 1)"
      using nonneg unfolding is_i64_def i64_min_def by simp
    then show ?thesis using False assms(4) d by (simp add: sat_i64_id next_def [symmetric])
  qed
  then have "occurrences_after env (Every interval_ms anchor) after count = every_values ?i count next"
    using assms(1-3,5)
    by (simp add: every_occurrences_def Let_def checked_i64_def sat_i64_id next_def [symmetric])
  then show ?thesis
    using every_values_exact [OF i] assms(5) first_after_least [OF i, where after = after and anchor = anchor] by (simp add: next_def)
qed

section \<open>The search is sound\<close>

definition cron_step :: "cron_expression \<Rightarrow> int" where
  "cron_step cron = (if cr_has_seconds cron then 1 else 60)"

lemma cron_step_pos: "0 < cron_step cron"
  by (simp add: cron_step_def)

text \<open>An instant that is due: a resolver's image of a local time that matches.\<close>

definition due :: "'z calendar_env_scheme \<Rightarrow> string \<Rightarrow> cron_expression \<Rightarrow> int \<Rightarrow> bool" where
  "due env timezone cron t \<longleftrightarrow> (\<exists>l ts. cron_matches cron (civil env l) \<and>
     local_to_utc env timezone l = Inr ts \<and> t \<in> set ts)"

lemma push_candidates_result:
  assumes "push_candidates after count values cs = (full, ws)" and "length values < count"
  shows "(full \<longleftrightarrow> length ws = count) \<and> length ws \<le> count \<and>
    set ws \<subseteq> set values \<union> {c \<in> set cs. after < c}"
  using assms
  by (induction after count "values" cs rule: push_candidates.induct)
    (fastforce simp: Let_def split: if_splits)+

lemma cron_search_sound:
  assumes "cron_search env timezone cron after count steps here values = Inr ws"
    and "length values < count" and "\<forall>v \<in> set values. after < v \<and> due env timezone cron v"
  shows "length ws = count \<and> (\<forall>v \<in> set ws. after < v \<and> due env timezone cron v)"
  using assms
proof (induction steps arbitrary: here "values")
  case (Suc steps)
  obtain full vs where hit: "(if cron_matches cron (civil env here)
        then rbind (local_to_utc env timezone here) (\<lambda>candidates.
          Inr (push_candidates after count values (sort candidates)))
        else Inr (False, values)) = Inr (full, vs)"
    and rest: "(if full then Inr vs
         else case checked_local env (here + cron_step cron) of None \<Rightarrow> Inl TimestampRange
           | Some next \<Rightarrow> cron_search env timezone cron after count steps next vs) = Inr ws"
    using Suc.prems(1) unfolding cron_search.simps rbind_Inr_iff cron_step_def [symmetric] by force
  have vs: "(full \<longleftrightarrow> length vs = count) \<and> length vs \<le> count \<and> (\<forall>v \<in> set vs. after < v \<and> due env timezone cron v)"
  proof (cases "cron_matches cron (civil env here)")
    case True
    then obtain cs where cs: "local_to_utc env timezone here = Inr cs"
      and push: "push_candidates after count values (sort cs) = (full, vs)"
      using hit by (auto simp: rbind_Inr_iff)
    have "due env timezone cron v" if "v \<in> set cs" for v
      using that True cs unfolding due_def by blast
    then show ?thesis
      using push_candidates_result [OF push Suc.prems(2)] Suc.prems(3) by auto
  next
    case False
    then show ?thesis using hit Suc.prems(2,3) by auto
  qed
  show ?case
    using rest vs Suc.IH [of _ vs] by (auto split: if_splits option.splits)
qed simp

text \<open>Whatever the time zone data, a cron schedule never fires early or at a wrong time: every
  occurrence that is returned lies after the given time and is the image of a local time that
  matches the expression, and exactly the requested number is returned.\<close>

theorem cron_occurrences_sound:
  assumes "occurrences_after env (Cron expression timezone) after count = Inr vs" and "0 < count"
  shows "\<exists>cron. parse_cron expression = Inr cron \<and> length vs = count \<and>
    list_all (\<lambda>v. after < v \<and> due env timezone cron v) vs"
proof -
  obtain cron start where c: "parse_cron expression = Inr cron"
    "cron_search env timezone cron after count max_cron_search_steps start [] = Inr vs"
    using assms(1) by (auto simp: cron_occurrences_def rbind_Inr_iff split: if_splits)
  show ?thesis
    using cron_search_sound [OF c(2)] assms(2) c(1) by (auto simp: list_all_iff)
qed

section \<open>The search against a reference\<close>

text \<open>A zone with a constant offset in seconds: local times and instants correspond one to one.\<close>

definition fixed_offset :: "'z calendar_env_scheme \<Rightarrow> string \<Rightarrow> int \<Rightarrow> bool" where
  "fixed_offset env timezone offset \<longleftrightarrow>
     (\<forall>t. utc_to_local env timezone t = Inr (t div 1000 + offset)) \<and>
     (\<forall>l. local_to_utc env timezone l = Inr [(l - offset) * 1000])"

text \<open>The local times the search visits, and those of them that match, as instants.\<close>

fun visited :: "int \<Rightarrow> int \<Rightarrow> nat \<Rightarrow> int list" where
  "visited here step 0 = []"
| "visited here step (Suc steps) = here # visited (here + step) step steps"

definition matching_instants :: "'z calendar_env_scheme \<Rightarrow> cron_expression \<Rightarrow> int \<Rightarrow> int \<Rightarrow> nat \<Rightarrow> int list" where
  "matching_instants env cron offset start steps = map (\<lambda>l. (l - offset) * 1000)
     (filter (\<lambda>l. cron_matches cron (civil env l)) (visited start (cron_step cron) steps))"

definition in_range :: "'z calendar_env_scheme \<Rightarrow> int \<Rightarrow> int \<Rightarrow> bool" where
  "in_range env a b \<longleftrightarrow> local_min env \<le> a \<and> b \<le> local_max env"

lemma cron_search_fixed:
  assumes "fixed_offset env timezone offset" and "length values < count"
    and "\<forall>v \<in> set values. v < (here - offset) * 1000" and "after < (here - offset) * 1000"
    and "in_range env here (here + int steps * cron_step cron)"
  shows "cron_search env timezone cron after count steps here values =
    (let found = values @ matching_instants env cron offset here steps in
     if count \<le> length found then Inr (take count found) else Inl SearchHorizonExceeded)"
  using assms
proof (induction steps arbitrary: here "values")
  case 0
  then show ?case by (simp add: matching_instants_def)
next
  case (Suc steps)
  let ?t = "(here - offset) * 1000" and ?next = "here + cron_step cron"
  let ?vs = "if cron_matches cron (civil env here) then values @ [?t] else values"
  have later: "?t < (?next - offset) * 1000" using cron_step_pos [of cron] by simp
  have next_ok: "checked_local env ?next = Some ?next"
    using Suc.prems(5) cron_step_pos [of cron]
    by (auto simp: checked_local_def in_range_def distrib_right intro: order_trans [rotated])
  have range: "in_range env ?next (?next + int steps * cron_step cron)"
    using Suc.prems(5) cron_step_pos [of cron] by (simp add: in_range_def algebra_simps)
  have "values = [] \<or> last values \<noteq> ?t" using Suc.prems(3) by (metis last_in_set order_less_irrefl)
  then have push: "push_candidates after count values [?t] = (Suc (length values) = count, values @ [?t])"
    using Suc.prems(4) by (simp add: Let_def)
  have step: "cron_search env timezone cron after count (Suc steps) here values =
    (if length ?vs = count then Inr ?vs else cron_search env timezone cron after count steps ?next ?vs)"
    using Suc.prems(1,2) next_ok push by (auto simp: fixed_offset_def cron_step_def)
  have found: "values @ matching_instants env cron offset here (Suc steps) =
      ?vs @ matching_instants env cron offset ?next steps"
    by (simp add: matching_instants_def)
  show ?case
  proof (cases "length ?vs = count")
    case True
    then show ?thesis unfolding step Let_def found by simp
  next
    case False
    have "cron_search env timezone cron after count steps ?next ?vs =
      (let found = ?vs @ matching_instants env cron offset ?next steps in
       if count \<le> length found then Inr (take count found) else Inl SearchHorizonExceeded)"
    proof (rule Suc.IH [OF Suc.prems(1) _ _ _ range])
      show "length ?vs < count" using False Suc.prems(2) by (auto split: if_splits)
      show "\<forall>v \<in> set ?vs. v < (?next - offset) * 1000" "after < (?next - offset) * 1000"
        using Suc.prems(3,4) later by (auto intro: less_trans)
    qed
    then show ?thesis unfolding step found using False by simp
  qed
qed

text \<open>Where the search starts: the next second, or the next full minute.\<close>

definition start_time :: "cron_expression \<Rightarrow> int \<Rightarrow> int" where
  "start_time cron here = (if cr_has_seconds cron then here + 1 else 60 * (here div 60 + 1))"

lemma start_time_bounds: "here < start_time cron here" "start_time cron here \<le> here + cron_step cron"
proof -
  have "60 * (here div 60) + here mod 60 = here" by (rule mult_div_mod_eq)
  moreover have "0 \<le> here mod 60" "here mod 60 < 60" by simp_all
  ultimately show "here < start_time cron here" "start_time cron here \<le> here + cron_step cron"
    by (auto simp: start_time_def cron_step_def)
qed

lemma cron_start_ok:
  assumes "civil_ok env" and "in_range env here (here + cron_step cron)"
  shows "cron_start env cron here = Inr (start_time cron here)"
proof -
  have "checked_local env (here + cron_step cron) = Some (here + cron_step cron)"
    using assms(2) cron_step_pos [of cron] by (auto simp: in_range_def checked_local_def)
  moreover have "here + 60 - int (cf_second (civil env (here + 60))) = 60 * (here div 60 + 1)"
    using assms(1) by (simp add: civil_ok_def minus_mod_eq_mult_div [symmetric] algebra_simps)
  ultimately show ?thesis by (simp add: cron_start_def start_time_def cron_step_def split: if_splits)
qed

text \<open>How far the search looks: a step beyond the last local time it visits.\<close>

definition horizon :: "cron_expression \<Rightarrow> int \<Rightarrow> int" where
  "horizon cron here = start_time cron here + int max_cron_search_steps * cron_step cron"

definition searchable :: "'z calendar_env_scheme \<Rightarrow> string \<Rightarrow> int \<Rightarrow> cron_expression \<Rightarrow> int \<Rightarrow> bool" where
  "searchable env timezone offset cron here \<longleftrightarrow> civil_ok env \<and> fixed_offset env timezone offset \<and>
     valid_timezone_name timezone \<and>
     in_range env here (here + int (Suc max_cron_search_steps) * cron_step cron)"

lemma seconds_bound: "t div 1000 < s \<Longrightarrow> t < s * 1000" for t s :: int
proof -
  assume "t div 1000 < s"
  then have a: "t div 1000 \<le> s - 1" by simp
  have "t = 1000 * (t div 1000) + t mod 1000" by (rule mult_div_mod_eq [symmetric])
  also have "\<dots> < 1000 * (t div 1000) + 1000" by (intro add_strict_left_mono) simp
  also have "\<dots> \<le> 1000 * (s - 1) + 1000" using a by simp
  finally show "t < s * 1000" by (simp add: mult.commute)
qed

lemma cron_reference:
  assumes "searchable env timezone offset cron (after div 1000 + offset)"
    and "parse_cron expression = Inr cron" and "0 < count"
  shows "occurrences_after env (Cron expression timezone) after count =
    (let found = matching_instants env cron offset (start_time cron (after div 1000 + offset)) max_cron_search_steps in
     if count \<le> length found then Inr (take count found) else Inl SearchHorizonExceeded)"
proof -
  let ?here = "after div 1000 + offset"
  let ?start = "start_time cron ?here"
  have env: "civil_ok env" "fixed_offset env timezone offset" "valid_timezone_name timezone"
    and range: "in_range env ?here (?here + int (Suc max_cron_search_steps) * cron_step cron)"
    using assms(1) by (simp_all add: searchable_def)
  have nonneg: "0 \<le> int max_cron_search_steps * cron_step cron"
    using cron_step_pos [of cron] by simp
  have "in_range env ?here (?here + cron_step cron)"
    using range nonneg by (simp add: in_range_def algebra_simps)
  note start = cron_start_ok [OF env(1) this]
  have "in_range env ?start (?start + int max_cron_search_steps * cron_step cron)"
    using range start_time_bounds [where cron = cron and here = ?here] unfolding in_range_def of_nat_Suc distrib_right by auto
  moreover have "after < (?start - offset) * 1000"
    using start_time_bounds(1) [where cron = cron and here = ?here] by (intro seconds_bound) linarith
  ultimately have "cron_search env timezone cron after count max_cron_search_steps ?start [] =
    (let found = matching_instants env cron offset ?start max_cron_search_steps in
     if count \<le> length found then Inr (take count found) else Inl SearchHorizonExceeded)"
    using cron_search_fixed [OF env(2), of "[]" count ?start after max_cron_search_steps cron] assms(3)
    by simp
  then show ?thesis
    using env(2,3) start assms(2) by (simp add: cron_occurrences_def fixed_offset_def)
qed

text \<open>C25: In a zone with a constant offset the search gives exactly what a reference gives that lists
  every local time from the next second (or full minute) to the horizon, keeps those that match the
  expression, and takes the requested number: the same list, in the same order, or the error that
  the horizon is exceeded when there are too few.\<close>

theorem cron_search_matches_reference:
  assumes "searchable env timezone offset cron (after div 1000 + offset)"
    and "parse_cron expression = Inr cron" and "0 < count"
  shows "occurrences_after env (Cron expression timezone) after count =
    (let found = matching_instants env cron offset (start_time cron (after div 1000 + offset)) max_cron_search_steps in
     if count \<le> length found then Inr (take count found) else Inl SearchHorizonExceeded)"
  using assms by (rule cron_reference)

section \<open>The next occurrence\<close>

lemma visited_set: "set (visited start step n) = {start + int k * step |k. k < n}"
proof (induction n arbitrary: start)
  case (Suc n)
  have "{start + int k * step |k. k < Suc n} = insert start {start + step + int k * step |k. k < n}"
  proof (intro set_eqI iffI)
    fix l assume "l \<in> {start + int k * step |k. k < Suc n}"
    then obtain k where "l = start + int k * step" "k < Suc n" by blast
    then show "l \<in> insert start {start + step + int k * step |k. k < n}"
      by (cases k) (auto simp: algebra_simps)
  next
    fix l assume "l \<in> insert start {start + step + int k * step |k. k < n}"
    then show "l \<in> {start + int k * step |k. k < Suc n}"
    proof (elim insertE)
      assume "l = start"
      then show ?thesis by (auto intro: exI [of _ 0])
    next
      assume "l \<in> {start + step + int k * step |k. k < n}"
      then obtain k where "l = start + step + int k * step" "k < n" by blast
      then show ?thesis by (auto simp: algebra_simps intro!: exI [of _ "Suc k"])
    qed
  qed
  then show ?case using Suc.IH by simp
qed simp

lemma visited_sorted: "0 < step \<Longrightarrow> sorted (visited start step n)"
  by (induction n arbitrary: start) (auto simp: visited_set)

lemma filter_head_least:
  "sorted xs \<Longrightarrow> filter p xs = v # vs \<Longrightarrow> v \<in> set xs \<and> p v \<and> (\<forall>x \<in> set xs. p x \<longrightarrow> v \<le> x)"
  by (induction xs) (auto split: if_splits)

lemma parse_cron_minutes: "parse_cron expression = Inr cron \<Longrightarrow> \<not> cr_has_seconds cron \<Longrightarrow> cr_seconds cron = {0}"
  unfolding parse_cron_def Let_def by (auto simp: rbind_Inr_iff split: if_splits)

text \<open>A local time that matches is on the grid of the search.\<close>

lemma match_on_grid:
  assumes "civil_ok env" and "parse_cron expression = Inr cron" and "cron_matches cron (civil env l)" and "here < l"
  shows "\<exists>k. l = start_time cron here + int k * cron_step cron"
proof (cases "cr_has_seconds cron")
  case True
  then show ?thesis
    using assms(4) by (intro exI [of _ "nat (l - here - 1)"]) (simp add: start_time_def cron_step_def)
next
  case False
  then have "cf_second (civil env l) = 0"
    using assms(3) parse_cron_minutes [OF assms(2)] by (simp add: cron_matches_def)
  then have "l mod 60 = 0" using assms(1) unfolding civil_ok_def by (metis of_nat_0)
  then have l: "l = 60 * (l div 60)" using mult_div_mod_eq [of 60 l] by simp
  then have "here div 60 < l div 60" using assms(4) by (auto simp: div_less_iff_less_mult)
  then have "l = start_time cron here + int (nat (l div 60 - here div 60 - 1)) * cron_step cron"
    using False l by (simp add: start_time_def cron_step_def algebra_simps)
  then show ?thesis by blast
qed

lemma visited_range:
  "l \<in> set (visited (start_time cron here) (cron_step cron) max_cron_search_steps) \<Longrightarrow>
    here < l \<and> l < horizon cron here"
proof -
  assume "l \<in> set (visited (start_time cron here) (cron_step cron) max_cron_search_steps)"
  then obtain k where k: "l = start_time cron here + int k * cron_step cron" "k < max_cron_search_steps"
    by (auto simp: visited_set)
  have "0 \<le> int k * cron_step cron" "int k * cron_step cron < int max_cron_search_steps * cron_step cron"
    using k(2) cron_step_pos [of cron] by simp_all
  then show ?thesis
    using k(1) start_time_bounds(1) [where cron = cron and here = here] unfolding horizon_def by linarith
qed

lemma match_visited:
  assumes "civil_ok env" and "parse_cron expression = Inr cron" and "cron_matches cron (civil env l)"
    and "here < l" and "l < horizon cron here"
  shows "l \<in> set (visited (start_time cron here) (cron_step cron) max_cron_search_steps)"
  using match_on_grid [OF assms(1-4)] assms(5) cron_step_pos [of cron]
  by (auto simp: visited_set horizon_def)

text \<open>In a zone with a constant offset, when some later local time within the search horizon
  matches the expression, the next occurrence exists and is the first matching second after the
  given time: no due time is skipped. Otherwise the answer is that the horizon is exceeded.\<close>

theorem cron_next_is_first:
  assumes "searchable env timezone offset cron (after div 1000 + offset)"
    and "parse_cron expression = Inr cron"
  defines "here \<equiv> after div 1000 + offset"
  shows "if \<exists>l. here < l \<and> l < horizon cron here \<and> cron_matches cron (civil env l)
    then \<exists>l. next_occurrence env (Cron expression timezone) after = Inr (Some ((l - offset) * 1000)) \<and>
      here < l \<and> cron_matches cron (civil env l) \<and>
      (\<forall>l'. here < l' \<and> cron_matches cron (civil env l') \<longrightarrow> l \<le> l')
    else next_occurrence env (Cron expression timezone) after = Inl SearchHorizonExceeded"
proof -
  let ?visited = "visited (start_time cron here) (cron_step cron) max_cron_search_steps"
  let ?found = "filter (\<lambda>l. cron_matches cron (civil env l)) ?visited"
  have ok: "civil_ok env" using assms(1) by (simp add: searchable_def)
  have found: "matching_instants env cron offset (start_time cron here) max_cron_search_steps =
      map (\<lambda>l. (l - offset) * 1000) ?found"
    by (simp add: matching_instants_def)
  have "next_occurrence env (Cron expression timezone) after =
    (case ?found of [] \<Rightarrow> Inl SearchHorizonExceeded | l # _ \<Rightarrow> Inr (Some ((l - offset) * 1000)))"
    unfolding next_occurrence_def cron_reference [OF assms(1,2) zero_less_one] here_def [symmetric] found
    by (auto simp: Let_def split: list.splits)
  note result = this
  show ?thesis
  proof (cases ?found)
    case Nil
    then have "\<not> (\<exists>l. here < l \<and> l < horizon cron here \<and> cron_matches cron (civil env l))"
      using match_visited [OF ok assms(2)] by (auto simp: filter_empty_conv)
    then show ?thesis using result Nil by simp
  next
    case (Cons l ls)
    note least = filter_head_least [OF visited_sorted [OF cron_step_pos] Cons]
    then have l: "here < l" "l < horizon cron here" "cron_matches cron (civil env l)"
      using visited_range by blast+
    have "l \<le> l'" if "here < l'" "cron_matches cron (civil env l')" for l'
      using least match_visited [OF ok assms(2) that(2,1)] that l(2) by (cases "l' < horizon cron here") auto
    then show ?thesis using result Cons l by auto
  qed
qed

section \<open>Where the clock is turned back\<close>

text \<open>
  A calendar for concrete runs: days of twenty-four hours, all of them the first of January and a
  Sunday, for schedules that ask for times of the day only; and two zones on it, one with no
  offset and one whose clock goes back by an hour at two o'clock.
\<close>

definition day_fields :: "int \<Rightarrow> civil_fields" where
  "day_fields l = \<lparr>cf_second = nat (l mod 60), cf_minute = nat (l div 60 mod 60),
     cf_hour = nat (l div 3600 mod 24), cf_day = 1, cf_month = 1, cf_weekday = 0\<rparr>"

definition plain_env :: calendar_env where
  "plain_env = \<lparr>civil = day_fields, local_min = - (10 ^ 11), local_max = 10 ^ 11,
     utc_to_local = (\<lambda>_ t. Inr (t div 1000)), local_to_utc = (\<lambda>_ l. Inr [l * 1000])\<rparr>"

definition fold_env :: calendar_env where
  "fold_env = plain_env\<lparr>
     utc_to_local := (\<lambda>_ t. Inr (if t < 7200000 then t div 1000 else t div 1000 - 3600)),
     local_to_utc := (\<lambda>_ l. Inr (if l < 3600 then [l * 1000]
       else if l < 7200 then [l * 1000, (l + 3600) * 1000] else [(l + 3600) * 1000]))\<rparr>"

lemma plain_civil_ok: "civil_ok plain_env"
  by (simp add: civil_ok_def plain_env_def day_fields_def)

definition half_hours :: cron_expression where
  "half_hours = \<lparr>cr_seconds = {0}, cr_minutes = {0, 30}, cr_hours = {0..23}, cr_days = {1..31},
     cr_months = {1..12}, cr_weekdays = {0..6}, cr_day_wildcard = True, cr_weekday_wildcard = True,
     cr_has_seconds = False\<rparr>"

lemma half_hours_parse: "parse_cron ''*/30 * * * *'' = Inr half_hours"
  by code_simp

lemma plain_searchable: "searchable plain_env ''UTC'' 0 half_hours 100"
  unfolding searchable_def
  by (intro conjI plain_civil_ok; simp add: fixed_offset_def valid_timezone_name_def in_range_def
      plain_env_def max_cron_search_steps_def cron_step_def half_hours_def is_ascii_alnum_def)

lemma cron_search_more:
  "cron_search env timezone cron after count n here values = Inr ws \<Longrightarrow> n \<le> m \<Longrightarrow>
    cron_search env timezone cron after count m here values = Inr ws"
proof (induction n arbitrary: m here "values")
  case (Suc n)
  then obtain m' where m: "m = Suc m'" "n \<le> m'" by (cases m) auto
  show ?case
    using Suc.prems(1) Suc.IH [OF _ m(2)]
    by (auto simp: m(1) rbind_Inr_iff split: if_splits option.splits)
qed simp

lemma occurrences_by_steps:
  assumes "valid_timezone_name timezone" and "parse_cron expression = Inr cron"
    and "utc_to_local env timezone after = Inr here" and "cron_start env cron here = Inr start"
    and "cron_search env timezone cron after count n start [] = Inr vs" and "n \<le> max_cron_search_steps"
  shows "occurrences_after env (Cron expression timezone) after count = Inr vs"
  using assms cron_search_more [OF assms(5,6)] by (simp add: cron_occurrences_def)

lemma fold_steps:
  "valid_timezone_name ''UTC''"
  "rbind (utc_to_local fold_env ''UTC'' 3599999) (cron_start fold_env half_hours) = Inr 3600"
  "rbind (utc_to_local fold_env ''UTC'' 5400000) (cron_start fold_env half_hours) = Inr 5460"
  "cron_search fold_env ''UTC'' half_hours 3599999 4 40 3600 [] = Inr [3600000, 7200000, 5400000, 9000000]"
  "cron_search fold_env ''UTC'' half_hours 5400000 1 40 5460 [] = Inr [10800000]"
  by code_simp+

lemma fold_four:
  "occurrences_after fold_env (Cron ''*/30 * * * *'' ''UTC'') 3599999 4 =
    Inr [3600000, 7200000, 5400000, 9000000]"
proof -
  obtain here where here: "utc_to_local fold_env ''UTC'' 3599999 = Inr here"
      "cron_start fold_env half_hours here = Inr 3600"
    using fold_steps(2) by (auto simp: rbind_Inr_iff)
  show ?thesis
    by (rule occurrences_by_steps [OF fold_steps(1) half_hours_parse here fold_steps(4)])
      (simp add: max_cron_search_steps_def)
qed

lemma fold_one:
  "occurrences_after fold_env (Cron ''*/30 * * * *'' ''UTC'') 5400000 1 = Inr [10800000]"
proof -
  obtain here where here: "utc_to_local fold_env ''UTC'' 5400000 = Inr here"
      "cron_start fold_env half_hours here = Inr 5460"
    using fold_steps(3) by (auto simp: rbind_Inr_iff)
  show ?thesis
    by (rule occurrences_by_steps [OF fold_steps(1) half_hours_parse here fold_steps(5)])
      (simp add: max_cron_search_steps_def)
qed

text \<open>When the clock is turned back, the search is not in order and depends on how it is asked. For
  a half-hourly schedule and four occurrences the preview lists the repeated hour interleaved, a
  later instant before an earlier one; but the service, which asks for one occurrence after the
  last, jumps from the first half past one over the repeated one and two o'clock to three.\<close>

theorem cron_fold_out_of_order:
  "preview_schedule fold_env (Cron ''*/30 * * * *'' ''UTC'') 3599999 4 =
      \<lparr>pv_valid = True, pv_error_code = None,
       pv_next_occurrences_ms = [3600000, 7200000, 5400000, 9000000]\<rparr> \<and>
    next_occurrence fold_env (Cron ''*/30 * * * *'' ''UTC'') 5400000 = Inr (Some 10800000)"
  using fold_four fold_one
  by (simp add: preview_schedule_def next_occurrence_def del: occurrences_after.simps)

section \<open>Witnesses\<close>

theorem every_occurrences_exact_witness:
  "occurrences_after plain_env (Every 86400000 1000) 86401500 2 = Inr [172801000, 259201000]"
  using every_occurrences_exact [of 86400000 86401500 1000 plain_env 2]
  by (simp add: min_every_interval_ms_def is_i64_def i64_min_def i64_max_def first_after_def
      upt_conv_Cons)

theorem cron_occurrences_sound_witness:
  "list_all (\<lambda>v. 3599999 < v) [3600000, 7200000, 5400000, 9000000::int]"
  using cron_occurrences_sound [OF fold_four] by (auto simp: list_all_iff)

theorem cron_search_matches_reference_witness:
  "\<exists>found. occurrences_after plain_env (Cron ''*/30 * * * *'' ''UTC'') 100000 2 =
    (if 2 \<le> length found then Inr (take 2 found) else Inl SearchHorizonExceeded)"
  using cron_search_matches_reference [of plain_env "''UTC''" 0 half_hours 100000 "''*/30 * * * *''" 2]
    plain_searchable half_hours_parse
  by (auto simp: Let_def)

lemma nat_mod_eq: "0 < (n::int) \<Longrightarrow> nat (x mod n) = k \<longleftrightarrow> x mod n = int k"
  using pos_mod_sign [of n x] by (auto simp: nat_eq_iff simp del: pos_mod_sign)

theorem cron_next_is_first_witness:
  "next_occurrence plain_env (Cron ''*/30 * * * *'' ''UTC'') 100000 = Inr (Some 1800000)"
proof -
  have m: "cron_matches half_hours (civil plain_env 1800)" by code_simp
  have none: "1800 \<le> l" if "cron_matches half_hours (civil plain_env l)" "100 < l" for l
  proof -
    define a where "a = l div 60"
    define b where "b = a div 60"
    have "nat (l mod 60) = 0" "nat (a mod 60) = 0 \<or> nat (a mod 60) = 30"
      using that(1) by (simp_all add: a_def cron_matches_def plain_env_def day_fields_def half_hours_def)
    then have "l mod 60 = 0" "a mod 60 = 0 \<or> a mod 60 = 30"
      by (simp_all only: nat_mod_eq zero_less_numeral of_nat_0 of_nat_numeral)
    moreover have "l = 60 * a + l mod 60" "a = 60 * b + a mod 60" by (simp_all add: a_def b_def)
    ultimately have "l = 3600 * b \<or> l = 3600 * b + 1800" by auto
    with that(2) show ?thesis by auto
  qed
  have "1800 < horizon half_hours 100"
    by (simp add: horizon_def start_time_def max_cron_search_steps_def cron_step_def half_hours_def)
  then obtain l where l: "next_occurrence plain_env (Cron ''*/30 * * * *'' ''UTC'') 100000 = Inr (Some (l * 1000))"
      "100 < l" "cron_matches half_hours (civil plain_env l)"
      "\<And>l'. 100 < l' \<Longrightarrow> cron_matches half_hours (civil plain_env l') \<Longrightarrow> l \<le> l'"
    using cron_next_is_first [of plain_env "''UTC''" 0 half_hours 100000 "''*/30 * * * *''"]
      plain_searchable half_hours_parse m by (auto split: if_splits)
  then have "l = 1800" using none [of l] m by force
  then show ?thesis using l(1) by simp
qed

end
