(* ===== verification/Schedule_Store.thy ===== *)
theory Schedule_Store
  imports Schedule_Types Store_Tx
begin

text \<open>
  The schedule tables of the agent store (\<open>agent_store/schedule.rs\<close>, migrations 0003 and 0010): the
  definitions, a runtime row per schedule, the task runs, and the ledger of events with its links
  to the task runs. The other tables of the database are the field \<open>agent\<close>. An operation is one
  transaction or one statement; an error carries no database because nothing was changed.
\<close>

section \<open>Tables\<close>

record schedule_runtime_row =
  rt_schedule_id :: string
  rt_last_scheduled_for_ms :: "int option"
  rt_last_invocation_key :: "string option"
  rt_active_task_run_id :: "string option"
  rt_timer_generation :: nat
  rt_updated_at_ms :: int

record event_ledger_row =
  el_context :: schedule_event_context
  el_processing_status :: schedule_event_receipt_status
  el_matched_schedule_count :: nat
  el_replay_count :: nat
  el_conflict_count :: nat
  el_last_received_at_ms :: int

text \<open>The primary key of an event.\<close>

type_synonym event_key = "schedule_event_source \<times> string"

record event_link_row =
  lk_event :: event_key
  lk_schedule_id :: string
  lk_task_run_id :: string

record schedule_db =
  agent :: store
  definitions :: "schedule_definition list"
  runtime_state :: "schedule_runtime_row list"
  task_rows :: "task_run_record list"
  event_ledger :: "event_ledger_row list"
  event_links :: "event_link_row list"

type_synonym 'a sched = "schedule_db \<Rightarrow> (store_error, 'a \<times> schedule_db) result"

definition find_schedule :: "string \<Rightarrow> schedule_db \<Rightarrow> schedule_definition option" where
  "find_schedule sid db = find (\<lambda>d. sd_id d = sid) (definitions db)"

definition find_task :: "string \<Rightarrow> schedule_db \<Rightarrow> task_run_record option" where
  "find_task tid db = find (\<lambda>t. tr_id t = tid) (task_rows db)"

definition update_schedules ::
    "(schedule_definition \<Rightarrow> bool) \<Rightarrow> (schedule_definition \<Rightarrow> schedule_definition) \<Rightarrow> schedule_db \<Rightarrow> schedule_db" where
  "update_schedules p f db = db\<lparr>definitions := update_where p f (definitions db)\<rparr>"

definition update_runtime ::
    "(schedule_runtime_row \<Rightarrow> bool) \<Rightarrow> (schedule_runtime_row \<Rightarrow> schedule_runtime_row) \<Rightarrow> schedule_db \<Rightarrow> schedule_db" where
  "update_runtime p f db = db\<lparr>runtime_state := update_where p f (runtime_state db)\<rparr>"

definition update_tasks ::
    "(task_run_record \<Rightarrow> bool) \<Rightarrow> (task_run_record \<Rightarrow> task_run_record) \<Rightarrow> schedule_db \<Rightarrow> schedule_db" where
  "update_tasks p f db = db\<lparr>task_rows := update_where p f (task_rows db)\<rparr>"

section \<open>What a column holds\<close>

text \<open>An unsigned value in an \<open>i64\<close> column: \<open>try_from(..).unwrap_or(i64::MAX)\<close>, read back.\<close>

definition column_u64 :: "nat \<Rightarrow> nat" where
  "column_u64 n = nat (i64_of_u64 n)"

text \<open>A definition as \<open>schedule_from_row\<close> gives it back, and a task run as \<open>task_run_from_row\<close>
  does: the trigger of an event is persisted as a scheduled one with an event context.\<close>

definition stored_schedule :: "schedule_definition \<Rightarrow> schedule_definition" where
  "stored_schedule d = d\<lparr>sd_permission_revision := column_u64 (sd_permission_revision d),
     sd_timeout_ms := column_u64 (sd_timeout_ms d),
     sd_config_revision := column_u64 (sd_config_revision d)\<rparr>"

definition persisted_trigger :: "task_run_trigger \<Rightarrow> task_run_trigger" where
  "persisted_trigger t = (if t = Trigger_Event then Trigger_Scheduled else t)"

definition stored_task :: "task_run_record \<Rightarrow> task_run_record" where
  "stored_task t = t\<lparr>tr_schedule_revision := map_option column_u64 (tr_schedule_revision t),
     tr_trigger := (if persisted_trigger (tr_trigger t) = Trigger_Scheduled \<and> tr_event_context t \<noteq> None
       then Trigger_Event else persisted_trigger (tr_trigger t))\<rparr>"

text \<open>The \<open>CHECK\<close>, \<open>UNIQUE\<close> and foreign key constraints of an insertion.\<close>

definition schedule_row_ok :: "schedule_definition \<Rightarrow> bool" where
  "schedule_row_ok d \<longleftrightarrow> sd_entry_profile d = Workbench_Entry \<and> 0 < sd_permission_revision d \<and>
     0 < sd_timeout_ms d \<and> 0 < sd_config_revision d"

definition progress_ok :: "nat option \<Rightarrow> bool" where
  "progress_ok p \<longleftrightarrow> (case p of None \<Rightarrow> True | Some n \<Rightarrow> n \<le> 100)"

definition task_row_ok :: "schedule_db \<Rightarrow> task_run_record \<Rightarrow> bool" where
  "task_row_ok db t \<longleftrightarrow> find_task (tr_id t) db = None \<and>
     tr_invocation_key t \<notin> tr_invocation_key ` set (task_rows db) \<and>
     (case tr_schedule_id t of None \<Rightarrow> True | Some sid \<Rightarrow> find_schedule sid db \<noteq> None) \<and>
     opt_exists session_exists (tr_requester_session_id t) (agent db) \<and>
     opt_exists session_exists (tr_execution_session_id t) (agent db) \<and>
     opt_exists run_exists (tr_run_id t) (agent db) \<and> progress_ok (tr_progress_percent t)"

section \<open>Definitions\<close>

definition insert_schedule :: "schedule_definition \<Rightarrow> unit sched" where
  "insert_schedule d db =
     (if find_schedule (sd_id d) db = None \<and> schedule_row_ok d \<and>
        sd_id d \<notin> rt_schedule_id ` set (runtime_state db)
      then Inr ((), db\<lparr>definitions := definitions db @ [stored_schedule d],
        runtime_state := runtime_state db @ [\<lparr>rt_schedule_id = sd_id d,
          rt_last_scheduled_for_ms = None, rt_last_invocation_key = None,
          rt_active_task_run_id = None, rt_timer_generation = 0,
          rt_updated_at_ms = sd_updated_at_ms d\<rparr>]\<rparr>)
      else Inl Database)"

definition create_method :: string where
  "create_method = ''schedule.create''"

definition create_schedule_idempotent ::
    "string \<Rightarrow> string \<Rightarrow> schedule_definition \<Rightarrow> schedule_snapshot sched" where
  "create_schedule_idempotent requester key d db =
     (case find (\<lambda>r. ir_principal r = requester \<and> ir_method r = create_method \<and> ir_key r = key)
        (idempotency_records (agent db)) of
        Some r \<Rightarrow>
          (case find_schedule (ir_resource_id r) db of
             None \<Rightarrow> Inl (ScheduleNotFound (sd_id d))
           | Some existing \<Rightarrow> Inr (\<lparr>sn_definition = existing, sn_recent_runs = []\<rparr>, db))
      | None \<Rightarrow>
          rbind (insert_schedule d db) (\<lambda>(_, db).
          Inr (\<lparr>sn_definition = d, sn_recent_runs = []\<rparr>,
            db\<lparr>agent := (agent db)\<lparr>idempotency_records := idempotency_records (agent db) @
              [\<lparr>ir_principal = requester, ir_method = create_method, ir_key = key,
                ir_resource_id = sd_id d, ir_created_at_ms = sd_created_at_ms d\<rparr>]\<rparr>\<rparr>)))"

text \<open>The listing order: enabled first, then by the next run with the idle ones last, then by the
  latest change.\<close>

definition list_schedules :: "schedule_db \<Rightarrow> schedule_definition list" where
  "list_schedules db = sort_key
     (\<lambda>d. (\<not> sd_enabled d, sd_next_run_at_ms d = None, (case sd_next_run_at_ms d of None \<Rightarrow> 0 | Some t \<Rightarrow> t),
        - sd_updated_at_ms d, sd_id d)) (definitions db)"

definition list_due_schedules :: "int \<Rightarrow> schedule_db \<Rightarrow> schedule_definition list" where
  "list_due_schedules now db = sort_key
     (\<lambda>d. (case sd_next_run_at_ms d of None \<Rightarrow> 0 | Some t \<Rightarrow> t, sd_id d))
     (filter (\<lambda>d. sd_enabled d \<and> sd_health d = Healthy \<and>
        (case sd_next_run_at_ms d of None \<Rightarrow> False | Some t \<Rightarrow> t \<le> now)) (definitions db))"

definition next_schedule_wakeup :: "schedule_db \<Rightarrow> int option" where
  "next_schedule_wakeup db =
     (case sort (List.map_filter (\<lambda>d. if sd_enabled d \<and> sd_health d = Healthy then sd_next_run_at_ms d else None)
        (definitions db)) of [] \<Rightarrow> None | t # _ \<Rightarrow> Some t)"

text \<open>\<open>UPDATE ... WHERE id = ? AND config_revision = ?\<close>: who created it and when is kept.\<close>

definition update_schedule :: "schedule_definition \<Rightarrow> nat \<Rightarrow> schedule_definition sched" where
  "update_schedule d expected db =
     (if sd_config_revision d \<noteq> sat_add_u64 expected 1 then Inl ScheduleRevisionConflict
      else (let hit = (\<lambda>r. sd_id r = sd_id d \<and> sd_config_revision r = column_u64 expected) in
        if \<not> list_ex hit (definitions db) then Inl ScheduleRevisionConflict
        else if \<not> schedule_row_ok d then Inl Database
        else Inr (d, update_schedules hit
          (\<lambda>r. (stored_schedule d)\<lparr>sd_created_by := sd_created_by r, sd_created_at_ms := sd_created_at_ms r\<rparr>) db)))"

text \<open>The foreign keys of a removed definition cascade: its runtime row and the links of its events
  go, its task runs stay without it. The workspace it owned is removed afterwards.\<close>

definition remove_schedule :: "string \<Rightarrow> schedule_db \<Rightarrow> bool \<times> schedule_db" where
  "remove_schedule sid db =
     (find_schedule sid db \<noteq> None,
      db\<lparr>task_rows := update_where (\<lambda>t. tr_schedule_id t = Some sid) (\<lambda>t. t\<lparr>tr_schedule_id := None\<rparr>) (task_rows db),
         definitions := filter (\<lambda>d. sd_id d \<noteq> sid) (definitions db),
         runtime_state := filter (\<lambda>r. rt_schedule_id r \<noteq> sid) (runtime_state db),
         event_links := filter (\<lambda>l. lk_schedule_id l \<noteq> sid) (event_links db)\<rparr>)"

definition set_schedule_enabled ::
    "string \<Rightarrow> bool \<Rightarrow> nat \<Rightarrow> int option \<Rightarrow> int \<Rightarrow> schedule_definition sched" where
  "set_schedule_enabled sid enabled expected next_run now db =
     (let hit = (\<lambda>d. sd_id d = sid \<and> sd_config_revision d = column_u64 expected) in
      if \<not> list_ex hit (definitions db) then Inl ScheduleRevisionConflict
      else (let db = update_schedules hit (\<lambda>d. d\<lparr>sd_enabled := enabled, sd_next_run_at_ms := next_run,
              sd_config_revision := sd_config_revision d + 1, sd_updated_at_ms := now\<rparr>) db in
        rbind (ok_or (ScheduleNotFound sid) (find_schedule sid db)) (\<lambda>d. Inr (d, db))))"

definition update_schedule_next_run :: "string \<Rightarrow> int option \<Rightarrow> int \<Rightarrow> unit sched" where
  "update_schedule_next_run sid next_run now db =
     (if find_schedule sid db = None then Inl (ScheduleNotFound sid)
      else Inr ((), update_schedules (\<lambda>d. sd_id d = sid)
        (\<lambda>d. d\<lparr>sd_next_run_at_ms := next_run, sd_updated_at_ms := now\<rparr>) db))"

definition mark_schedule_health :: "string \<Rightarrow> schedule_health \<Rightarrow> string option \<Rightarrow> int \<Rightarrow> unit sched" where
  "mark_schedule_health sid health reason now db =
     (if find_schedule sid db = None then Inl (ScheduleNotFound sid)
      else Inr ((), update_schedules (\<lambda>d. sd_id d = sid)
        (\<lambda>d. d\<lparr>sd_health := health, sd_health_reason := reason, sd_updated_at_ms := now\<rparr>) db))"

section \<open>Task runs\<close>

definition insert_task_run :: "task_run_record \<Rightarrow> unit sched" where
  "insert_task_run t db =
     (if task_row_ok db t then Inr ((), db\<lparr>task_rows := task_rows db @ [stored_task t]\<rparr>) else Inl Database)"

definition create_task_run :: "task_run_record \<Rightarrow> task_run_record sched" where
  "create_task_run t db = rbind (insert_task_run t db) (\<lambda>(_, db). Inr (t, db))"

record schedule_invocation_claim =
  ic_task_run :: task_run_record
  ic_should_launch :: bool

text \<open>The task run the runtime row of a schedule points to.\<close>

definition active_task :: "string \<Rightarrow> schedule_db \<Rightarrow> task_run_record option" where
  "active_task sid db =
     Option.bind (find (\<lambda>r. rt_schedule_id r = sid) (runtime_state db)) (\<lambda>r.
     Option.bind (rt_active_task_run_id r) (\<lambda>tid. find_task tid db))"

definition overlaps :: "string \<Rightarrow> schedule_db \<Rightarrow> bool" where
  "overlaps sid db \<longleftrightarrow>
     (case active_task sid db of None \<Rightarrow> False | Some t \<Rightarrow> \<not> task_is_terminal (tr_status t))"

definition skip_overlap :: "task_run_record \<Rightarrow> task_run_record" where
  "skip_overlap t = t\<lparr>tr_status := Task_Skipped, tr_error_code := Some ''schedule_overlap_skipped'',
     tr_error_summary := Some ''a previous invocation is still active'',
     tr_finished_at_ms := Some (tr_created_at_ms t)\<rparr>"

definition claim_schedule_invocation ::
    "string \<Rightarrow> nat \<Rightarrow> task_run_record \<Rightarrow> schedule_invocation_claim sched" where
  "claim_schedule_invocation sid expected t db =
     (case find (\<lambda>r. tr_invocation_key r = tr_invocation_key t) (task_rows db) of
        Some existing \<Rightarrow> Inr (\<lparr>ic_task_run = existing, ic_should_launch = False\<rparr>, db)
      | None \<Rightarrow>
          rbind (ok_or (ScheduleNotFound sid) (find_schedule sid db)) (\<lambda>schedule.
          if sd_config_revision schedule \<noteq> expected then Inl ScheduleRevisionConflict
          else
            (let overlap = overlaps sid db;
                 claimed = (if overlap then skip_overlap t else t);
                 launch = (\<not> overlap \<and> \<not> task_is_terminal (tr_status t)) in
             rbind (insert_task_run claimed db) (\<lambda>(_, db).
             Inr (\<lparr>ic_task_run = claimed, ic_should_launch = launch\<rparr>,
               update_runtime (\<lambda>r. rt_schedule_id r = sid)
                 (\<lambda>r. r\<lparr>rt_last_scheduled_for_ms := tr_scheduled_for_ms claimed,
                    rt_last_invocation_key := Some (tr_invocation_key claimed),
                    rt_active_task_run_id := (if launch then Some (tr_id claimed) else None),
                    rt_timer_generation := rt_timer_generation r + 1,
                    rt_updated_at_ms := tr_updated_at_ms claimed\<rparr>) db)))))"

text \<open>A statement on the row of a task run, which is then read again.\<close>

definition update_task_if ::
    "store_error \<Rightarrow> (task_run_record \<Rightarrow> bool) \<Rightarrow> string \<Rightarrow> (task_run_record \<Rightarrow> task_run_record) \<Rightarrow>
      task_run_record sched" where
  "update_task_if e p tid f db =
     (let hit = (\<lambda>t. tr_id t = tid \<and> p t) in
      if \<not> list_ex hit (task_rows db) then Inl e
      else (let db = update_tasks hit f db in
        rbind (ok_or (TaskRunNotFound tid) (find_task tid db)) (\<lambda>t. Inr (t, db))))"

definition bind_task_run_execution :: "string \<Rightarrow> string \<Rightarrow> string \<Rightarrow> int \<Rightarrow> task_run_record sched" where
  "bind_task_run_execution tid session run now db =
     (if list_ex (\<lambda>t. tr_id t = tid \<and> tr_status t = Task_Preparing \<and> tr_run_id t = None) (task_rows db) \<and>
        \<not> (session_exists session (agent db) \<and> run_exists run (agent db))
      then Inl Database
      else update_task_if InvalidTaskRunTransition
        (\<lambda>t. tr_status t = Task_Preparing \<and> tr_run_id t = None) tid
        (\<lambda>t. t\<lparr>tr_execution_session_id := Some session, tr_run_id := Some run, tr_updated_at_ms := now\<rparr>) db)"

definition requeue_unbound_preparing_task_run :: "string \<Rightarrow> int \<Rightarrow> task_run_record sched" where
  "requeue_unbound_preparing_task_run tid now =
     update_task_if InvalidTaskRunTransition
       (\<lambda>t. tr_status t = Task_Preparing \<and> tr_run_id t = None) tid
       (\<lambda>t. t\<lparr>tr_status := Task_Queued, tr_updated_at_ms := now\<rparr>)"

definition bind_task_run_requester :: "string \<Rightarrow> string \<Rightarrow> int \<Rightarrow> task_run_record sched" where
  "bind_task_run_requester tid session now db =
     (if list_ex (\<lambda>t. tr_id t = tid \<and> tr_requester_session_id t \<in> {None, Some session}) (task_rows db) \<and>
        \<not> session_exists session (agent db)
      then Inl Database
      else update_task_if InvalidTaskRunTransition
        (\<lambda>t. tr_requester_session_id t \<in> {None, Some session}) tid
        (\<lambda>t. t\<lparr>tr_requester_session_id := Some session, tr_updated_at_ms := now\<rparr>) db)"

definition list_task_runs :: "string option \<Rightarrow> nat \<Rightarrow> schedule_db \<Rightarrow> task_run_record list" where
  "list_task_runs sid limit db = take (max 1 (min 500 limit))
     (sort_key (\<lambda>t. (- tr_created_at_ms t, tr_id t))
       (filter (\<lambda>t. sid = None \<or> tr_schedule_id t = sid) (task_rows db)))"

definition count_schedule_task_runs :: "string \<Rightarrow> schedule_db \<Rightarrow> nat" where
  "count_schedule_task_runs sid db =
     count_where (\<lambda>t. tr_schedule_id t = Some sid \<and> tr_status t \<noteq> Task_Skipped) (task_rows db)"

text \<open>What a transition writes.\<close>

record task_report =
  tp_progress :: "nat option"
  tp_result_summary :: "string option"
  tp_error_code :: "string option"
  tp_error_summary :: "string option"
  tp_artifact_ids :: "string list"

definition transitioned :: "task_run_status \<Rightarrow> task_report \<Rightarrow> int \<Rightarrow> task_run_record \<Rightarrow> task_run_record" where
  "transitioned status report now t =
     t\<lparr>tr_status := status, tr_progress_percent := tp_progress report,
       tr_result_summary := tp_result_summary report, tr_error_code := tp_error_code report,
       tr_error_summary := tp_error_summary report, tr_artifact_ids := tp_artifact_ids report,
       tr_started_at_ms := (if status = Task_Running \<and> tr_started_at_ms t = None then Some now
         else tr_started_at_ms t),
       tr_finished_at_ms := (if task_is_terminal status then Some now else None),
       tr_updated_at_ms := now\<rparr>"

definition transition_task_run ::
    "string \<Rightarrow> task_run_status \<Rightarrow> task_report \<Rightarrow> int \<Rightarrow> task_run_record sched" where
  "transition_task_run tid status report now db =
     rbind (ok_or (TaskRunNotFound tid) (find_task tid db)) (\<lambda>current.
     if tr_status current \<noteq> status \<and> \<not> task_can_transition_to (tr_status current) status
     then Inl InvalidTaskRunTransition
     else if \<not> progress_ok (tp_progress report) then Inl Database
     else
       (let db = update_tasks (\<lambda>t. tr_id t = tid) (\<lambda>_. transitioned status report now current) db;
            db = (if task_is_terminal status
              then update_runtime (\<lambda>r. rt_active_task_run_id r = Some tid)
                (\<lambda>r. r\<lparr>rt_active_task_run_id := None, rt_updated_at_ms := now\<rparr>) db
              else db) in
        rbind (ok_or Database (find_task tid db)) (\<lambda>t. Inr (t, db))))"

definition update_task_delivery ::
    "string \<Rightarrow> delivery_status \<Rightarrow> string option \<Rightarrow> int \<Rightarrow> task_run_record sched" where
  "update_task_delivery tid status code now =
     update_task_if (TaskRunNotFound tid) (\<lambda>_. True) tid
       (\<lambda>t. t\<lparr>tr_delivery_status := status, tr_delivery_error_code := code, tr_updated_at_ms := now\<rparr>)"

text \<open>The statement of the restart (\<open>agent_store.rs\<close>) on the task runs.\<close>

definition lose_running_tasks :: "int \<Rightarrow> schedule_db \<Rightarrow> schedule_db" where
  "lose_running_tasks now = update_tasks (\<lambda>t. tr_status t = Task_Running)
     (\<lambda>t. t\<lparr>tr_status := Task_Lost, tr_error_summary := Some ''executor lost during restart'',
        tr_updated_at_ms := now\<rparr>)"

end
