(* ===== verification/Schedule_Events.thy ===== *)
theory Schedule_Events
  imports Schedule_Store
begin

text \<open>
  The event ledger (\<open>agent_store/schedule_event.rs\<close>): an event is recorded once, matched against
  the enabled schedules and turned into one task run per schedule, in one transaction. The
  digest SHA-256 of the crate \<open>sha2\<close>, in hexadecimal, is the parameter \<open>sha\<close>; \<open>TaskRunId::random\<close>
  is the parameter \<open>fresh\<close>, the identifier drawn for a schedule.
\<close>

definition event_key :: "schedule_event_context \<Rightarrow> event_key" where
  "event_key e = (ec_source e, ec_event_id e)"

definition find_event :: "event_key \<Rightarrow> schedule_db \<Rightarrow> event_ledger_row option" where
  "find_event k db = find (\<lambda>r. event_key (el_context r) = k) (event_ledger db)"

definition update_ledger ::
    "(event_ledger_row \<Rightarrow> bool) \<Rightarrow> (event_ledger_row \<Rightarrow> event_ledger_row) \<Rightarrow> schedule_db \<Rightarrow> schedule_db" where
  "update_ledger p f db = db\<lparr>event_ledger := update_where p f (event_ledger db)\<rparr>"

section \<open>Matching\<close>

definition event_matches :: "schedule_event_matcher \<Rightarrow> schedule_event_context \<Rightarrow> bool" where
  "event_matches m e \<longleftrightarrow> em_source m = ec_source e \<and> em_event_type m = ec_event_type e \<and>
     (case em_subject_prefix m of None \<Rightarrow> True
      | Some prefix \<Rightarrow> (case ec_subject e of None \<Rightarrow> False | Some subject \<Rightarrow> starts_with prefix subject)) \<and>
     list_all (\<lambda>(key, v). map_of (ec_labels e) key = Some v) (em_labels m) \<and>
     (case em_resource m of None \<Rightarrow> True | Some resource \<Rightarrow> ec_resource e = Some resource)"

definition matches_schedule :: "schedule_definition \<Rightarrow> schedule_event_context \<Rightarrow> bool" where
  "matches_schedule d e \<longleftrightarrow> (case sd_schedule d of Event m \<Rightarrow> event_matches m e | _ \<Rightarrow> False)"

definition event_material :: "schedule_definition \<Rightarrow> schedule_event_context \<Rightarrow> string" where
  "event_material d e = join [CHR 0x00] [event_source_kind_str (es_kind (ec_source e)),
     es_principal (ec_source e), es_id (ec_source e), ec_event_id e, ec_fingerprint e, sd_id d,
     decimal (sd_config_revision d)]"

definition event_invocation_key :: "(string \<Rightarrow> string) \<Rightarrow> schedule_definition \<Rightarrow> schedule_event_context \<Rightarrow> string" where
  "event_invocation_key sha d e = ''event:'' @ sha (event_material d e)"

definition initial_delivery :: "schedule_definition \<Rightarrow> delivery_status" where
  "initial_delivery d =
     (if sd_delivery_policy d = TaskTabAndSystemNotification then Delivery_Pending else NotRequested)"

definition event_task_record ::
    "(string \<Rightarrow> string) \<Rightarrow> string \<Rightarrow> schedule_definition \<Rightarrow> schedule_event_context \<Rightarrow> task_run_record" where
  "event_task_record sha tid d e = \<lparr>tr_id = tid, tr_schedule_id = Some (sd_id d),
     tr_schedule_revision = Some (sd_config_revision d), tr_trigger = Trigger_Event,
     tr_scheduled_for_ms = Some (ec_occurred_at_ms e), tr_event_context = Some e,
     tr_invocation_key = event_invocation_key sha d e, tr_requester_session_id = None,
     tr_execution_session_id = None, tr_run_id = None, tr_status = Task_Queued,
     tr_progress_percent = None, tr_result_summary = None, tr_error_code = None,
     tr_error_summary = None, tr_artifact_ids = [], tr_delivery_status = initial_delivery d,
     tr_delivery_error_code = None, tr_created_at_ms = ec_received_at_ms e, tr_started_at_ms = None,
     tr_finished_at_ms = None, tr_updated_at_ms = ec_received_at_ms e\<rparr>"

section \<open>Ingestion\<close>

definition reached_limit :: "schedule_definition \<Rightarrow> schedule_db \<Rightarrow> bool" where
  "reached_limit d db \<longleftrightarrow> (case st_max_occurrences (sd_stop_conditions d) of None \<Rightarrow> False
     | Some limit \<Rightarrow> limit \<le> count_schedule_task_runs (sd_id d) db)"

definition past_end :: "schedule_definition \<Rightarrow> int \<Rightarrow> bool" where
  "past_end d t \<longleftrightarrow> (case st_end_at_ms (sd_stop_conditions d) of None \<Rightarrow> False | Some end_at \<Rightarrow> end_at < t)"

definition event_receipt ::
    "schedule_event_context \<Rightarrow> schedule_event_receipt_status \<Rightarrow> schedule_db \<Rightarrow> schedule_event_receipt" where
  "event_receipt e status db =
     (let links = sort_key lk_schedule_id (filter (\<lambda>l. lk_event l = event_key e) (event_links db));
          runs = List.map_filter (\<lambda>l. find_task (lk_task_run_id l) db) links in
      \<lparr>ep_status = status, ep_event = e, ep_matched_schedule_ids = List.map_filter tr_schedule_id runs,
       ep_task_runs = runs\<rparr>)"

record schedule_event_launch_claim =
  eq_schedule :: schedule_definition
  eq_claim :: schedule_invocation_claim

record schedule_event_ingest_claim =
  ei_receipt :: schedule_event_receipt
  ei_launch_claims :: "schedule_event_launch_claim list"

text \<open>\<open>Err(ScheduleEventConflict)\<close> is returned after a commit: the ledger has counted the conflict.\<close>

datatype ingest_result =
    Ingested schedule_event_ingest_claim
  | ConflictRecorded

definition insert_link :: "event_key \<Rightarrow> string \<Rightarrow> string \<Rightarrow> unit sched" where
  "insert_link k sid tid db =
     (if list_ex (\<lambda>l. lk_event l = k \<and> lk_schedule_id l = sid \<or> lk_task_run_id l = tid) (event_links db)
      then Inl Database
      else Inr ((), db\<lparr>event_links := event_links db @
        [\<lparr>lk_event = k, lk_schedule_id = sid, lk_task_run_id = tid\<rparr>]\<rparr>))"

text \<open>One schedule of the loop: not for it, stopped by its conditions, or claimed.\<close>

definition fan_out_one ::
    "(string \<Rightarrow> string) \<Rightarrow> (string \<Rightarrow> string) \<Rightarrow> schedule_event_context \<Rightarrow> schedule_definition \<Rightarrow>
      schedule_event_launch_claim list sched" where
  "fan_out_one sha fresh e d db =
     (if \<not> matches_schedule d e then Inr ([], db)
      else if reached_limit d db \<or> past_end d (ec_received_at_ms e)
      then Inr ([], update_schedules (\<lambda>r. sd_id r = sd_id d \<and> sd_enabled r)
        (\<lambda>r. r\<lparr>sd_enabled := False, sd_next_run_at_ms := None,
           sd_config_revision := sd_config_revision r + 1, sd_updated_at_ms := ec_received_at_ms e\<rparr>) db)
      else
        rbind (claim_schedule_invocation (sd_id d) (sd_config_revision d)
          (event_task_record sha (fresh (sd_id d)) d e) db) (\<lambda>(claim, db).
        rbind (insert_link (event_key e) (sd_id d) (tr_id (ic_task_run claim)) db) (\<lambda>(_, db).
        Inr ([\<lparr>eq_schedule = d, eq_claim = claim\<rparr>], db))))"

fun fan_out ::
    "(string \<Rightarrow> string) \<Rightarrow> (string \<Rightarrow> string) \<Rightarrow> schedule_event_context \<Rightarrow> schedule_definition list \<Rightarrow>
      schedule_event_launch_claim list sched" where
  "fan_out sha fresh e [] db = Inr ([], db)"
| "fan_out sha fresh e (d # ds) db =
     rbind (fan_out_one sha fresh e d db) (\<lambda>(claims, db).
     rbind (fan_out sha fresh e ds db) (\<lambda>(rest, db). Inr (claims @ rest, db)))"

definition event_candidates :: "schedule_db \<Rightarrow> schedule_definition list" where
  "event_candidates db =
     sort_key sd_id (filter (\<lambda>d. sd_enabled d \<and> sd_health d = Healthy) (definitions db))"

definition new_ledger_row :: "schedule_event_context \<Rightarrow> event_ledger_row" where
  "new_ledger_row e = \<lparr>el_context = e, el_processing_status = Event_Accepted,
     el_matched_schedule_count = 0, el_replay_count = 0, el_conflict_count = 0,
     el_last_received_at_ms = ec_received_at_ms e\<rparr>"

definition ingest_schedule_event ::
    "(string \<Rightarrow> string) \<Rightarrow> (string \<Rightarrow> string) \<Rightarrow> schedule_event_context \<Rightarrow> ingest_result sched" where
  "ingest_schedule_event sha fresh e db =
     (let here = (\<lambda>r. event_key (el_context r) = event_key e) in
      case find_event (event_key e) db of
        Some row \<Rightarrow>
          if ec_fingerprint (el_context row) \<noteq> ec_fingerprint e
          then Inr (ConflictRecorded, update_ledger here
            (\<lambda>r. r\<lparr>el_processing_status := Event_Conflict, el_conflict_count := el_conflict_count r + 1,
               el_last_received_at_ms := ec_received_at_ms e\<rparr>) db)
          else
            (let db = update_ledger here
               (\<lambda>r. r\<lparr>el_processing_status := Event_Replayed, el_replay_count := el_replay_count r + 1,
                  el_last_received_at_ms := ec_received_at_ms e\<rparr>) db in
             Inr (Ingested \<lparr>ei_receipt = event_receipt (el_context row) Event_Replayed db,
               ei_launch_claims = []\<rparr>, db))
      | None \<Rightarrow>
          (let db = db\<lparr>event_ledger := event_ledger db @ [new_ledger_row e]\<rparr> in
           rbind (fan_out sha fresh e (event_candidates db) db) (\<lambda>(claims, db).
           Inr (Ingested \<lparr>ei_receipt = \<lparr>ep_status = Event_Accepted, ep_event = e,
                  ep_matched_schedule_ids = map (\<lambda>c. sd_id (eq_schedule c)) claims,
                  ep_task_runs = map (\<lambda>c. ic_task_run (eq_claim c)) claims\<rparr>,
                ei_launch_claims = claims\<rparr>,
              update_ledger here (\<lambda>r. r\<lparr>el_matched_schedule_count := length claims\<rparr>) db))))"

section \<open>Cleanup and listing\<close>

definition event_ledger_retention_ms :: int where
  "event_ledger_retention_ms = 30 * 24 * 60 * 60 * 1000"

definition event_ledger_cleanup_batch :: nat where
  "event_ledger_cleanup_batch = 500"

definition link_open :: "schedule_db \<Rightarrow> event_link_row \<Rightarrow> bool" where
  "link_open db l \<longleftrightarrow> (case find_task (lk_task_run_id l) db of None \<Rightarrow> False
     | Some t \<Rightarrow> tr_status t \<in> {Task_Queued, Task_Preparing, Task_Running})"

text \<open>The rows the subselect finds: old ones without an open task run, the oldest first.\<close>

definition ledger_garbage :: "int \<Rightarrow> schedule_db \<Rightarrow> event_key list" where
  "ledger_garbage now db = map (\<lambda>r. event_key (el_context r)) (take event_ledger_cleanup_batch
     (sort_key el_last_received_at_ms (filter
       (\<lambda>r. el_last_received_at_ms r < sat_i64 (now - event_ledger_retention_ms) \<and>
          \<not> list_ex (\<lambda>l. lk_event l = event_key (el_context r) \<and> link_open db l) (event_links db))
       (event_ledger db))))"

definition cleanup_schedule_event_ledger :: "int \<Rightarrow> schedule_db \<Rightarrow> nat \<times> schedule_db" where
  "cleanup_schedule_event_ledger now db =
     (let gone = ledger_garbage now db in
      (length gone,
       db\<lparr>event_ledger := filter (\<lambda>r. event_key (el_context r) \<notin> set gone) (event_ledger db),
          event_links := filter (\<lambda>l. lk_event l \<notin> set gone) (event_links db)\<rparr>))"

definition list_schedule_event_receipts :: "nat \<Rightarrow> schedule_db \<Rightarrow> schedule_event_receipt list" where
  "list_schedule_event_receipts limit db =
     map (\<lambda>r. event_receipt (el_context r) (el_processing_status r) db)
       (take (max 1 (min 200 limit)) (sort_key
         (\<lambda>r. (- el_last_received_at_ms r, event_source_kind_str (es_kind (ec_source (el_context r))),
            es_principal (ec_source (el_context r)), es_id (ec_source (el_context r)),
            ec_event_id (el_context r))) (event_ledger db)))"

end
