(* ===== verification/Schedule_Steps.thy ===== *)
theory Schedule_Steps
  imports Schedule_Events
begin

text \<open>
  The schedule tables as a transition system: every operation of the store is a step, in any order
  and with any arguments, as the service, the launcher and the commands of the application may
  issue them. The tables are well-formed in every reachable state and task runs only move forward.
\<close>

section \<open>Well-formed tables\<close>

definition schedule_ok :: "schedule_db \<Rightarrow> bool" where
  "schedule_ok db \<longleftrightarrow>
     distinct (map sd_id (definitions db)) \<and>
     map rt_schedule_id (runtime_state db) = map sd_id (definitions db) \<and>
     distinct (map tr_id (task_rows db)) \<and>
     distinct (map tr_invocation_key (task_rows db)) \<and>
     (\<forall>t \<in> set (task_rows db). \<forall>sid. tr_schedule_id t = Some sid \<longrightarrow> sid \<in> sd_id ` set (definitions db)) \<and>
     (\<forall>t \<in> set (task_rows db). progress_ok (tr_progress_percent t)) \<and>
     distinct (map (\<lambda>r. event_key (el_context r)) (event_ledger db)) \<and>
     distinct (map (\<lambda>l. (lk_event l, lk_schedule_id l)) (event_links db)) \<and>
     distinct (map lk_task_run_id (event_links db)) \<and>
     (\<forall>l \<in> set (event_links db). lk_event l \<in> (\<lambda>r. event_key (el_context r)) ` set (event_ledger db) \<and>
        lk_schedule_id l \<in> sd_id ` set (definitions db) \<and>
        lk_task_run_id l \<in> tr_id ` set (task_rows db))"

text \<open>How a task run may change: what it was created with stays, a bound run stays bound, a settled
  status stays, and a running task run is not queued again.\<close>

definition task_le :: "task_run_record \<Rightarrow> task_run_record \<Rightarrow> bool" where
  "task_le t t' \<longleftrightarrow> tr_id t' = tr_id t \<and> tr_invocation_key t' = tr_invocation_key t \<and>
     tr_trigger t' = tr_trigger t \<and> tr_scheduled_for_ms t' = tr_scheduled_for_ms t \<and>
     tr_event_context t' = tr_event_context t \<and> tr_created_at_ms t' = tr_created_at_ms t \<and>
     tr_schedule_id t' \<in> {tr_schedule_id t, None} \<and>
     (tr_run_id t \<noteq> None \<longrightarrow> tr_run_id t' = tr_run_id t) \<and>
     (task_is_terminal (tr_status t) \<longrightarrow> tr_status t' = tr_status t) \<and>
     (tr_status t = Task_Running \<longrightarrow> tr_status t' = Task_Running \<or> task_is_terminal (tr_status t'))"

lemma task_le_refl [simp]: "task_le t t"
  by (simp add: task_le_def)

interpretation task_order: row_order task_le
proof
  show "task_le t t" for t by simp
  show "task_le t t' \<Longrightarrow> task_le t' t'' \<Longrightarrow> task_le t t''" for t t' t''
    unfolding task_le_def by auto
qed

definition schedule_le :: "schedule_db \<Rightarrow> schedule_db \<Rightarrow> bool" where
  "schedule_le db db' \<longleftrightarrow> evolves task_le (task_rows db) (task_rows db')"

lemma schedule_le_refl [simp]: "schedule_le db db"
  by (simp add: schedule_le_def task_order.evolves_refl)

lemma schedule_le_trans: "schedule_le a b \<Longrightarrow> schedule_le b c \<Longrightarrow> schedule_le a c"
  unfolding schedule_le_def by (rule task_order.evolves_trans)

definition step_ok :: "schedule_db \<Rightarrow> schedule_db \<Rightarrow> bool" where
  "step_ok db db' \<longleftrightarrow> schedule_ok db' \<and> schedule_le db db'"

lemma step_ok_trans: "step_ok a b \<Longrightarrow> step_ok b c \<Longrightarrow> step_ok a c"
  by (auto simp: step_ok_def intro: schedule_le_trans)

lemma step_ok_then: "step_ok a b \<Longrightarrow> (schedule_ok b \<Longrightarrow> step_ok b c) \<Longrightarrow> step_ok a c"
  by (auto simp: step_ok_def intro: schedule_le_trans)

lemma step_ok_refl: "schedule_ok db \<Longrightarrow> step_ok db db"
  by (simp add: step_ok_def)

section \<open>Statements\<close>

lemma find_task_Some: "find_task tid db = Some t \<Longrightarrow> t \<in> set (task_rows db) \<and> tr_id t = tid"
  by (auto simp: find_task_def dest: find_Some_imp)

lemma find_task_None_iff: "find_task tid db = None \<longleftrightarrow> tid \<notin> tr_id ` set (task_rows db)"
  by (auto simp: find_task_def find_None_iff)

lemma other_key: "distinct (map k (d # ds)) \<Longrightarrow> x \<in> set ds \<Longrightarrow> k x \<noteq> k d"
  by (metis distinct.simps(2) image_eqI list.set_map list.simps(9))

lemma find_key_None_iff: "find (\<lambda>r. k r = v) rows = None \<longleftrightarrow> v \<notin> k ` set rows"
  by (auto simp: find_None_iff)

lemma find_event_None_iff:
  "find_event k db = None \<longleftrightarrow> k \<notin> (\<lambda>r. event_key (el_context r)) ` set (event_ledger db)"
  by (auto simp: find_event_def find_None_iff)

lemma find_schedule_None_iff: "find_schedule sid db = None \<longleftrightarrow> sid \<notin> sd_id ` set (definitions db)"
  by (auto simp: find_schedule_def find_None_iff)

lemma find_schedule_Some: "find_schedule sid db = Some d \<Longrightarrow> d \<in> set (definitions db) \<and> sd_id d = sid"
  by (auto simp: find_schedule_def dest: find_Some_imp)

lemma find_task_in:
  "schedule_ok db \<Longrightarrow> t \<in> set (task_rows db) \<Longrightarrow> find_task (tr_id t) db = Some t"
  by (simp add: schedule_ok_def find_task_def find_key)

lemma ok_update_schedules:
  assumes "schedule_ok db" and "\<And>d. p d \<Longrightarrow> sd_id (f d) = sd_id d"
  shows "step_ok db (update_schedules p f db)"
proof -
  have *: "map sd_id (update_where p f (definitions db)) = map sd_id (definitions db)"
    using assms(2) by (simp add: map_update_where)
  then have "sd_id ` set (update_where p f (definitions db)) = sd_id ` set (definitions db)"
    by (metis set_map)
  with * assms(1) show ?thesis
    by (simp add: step_ok_def schedule_ok_def update_schedules_def schedule_le_def task_order.evolves_refl)
qed

lemma ok_update_runtime:
  assumes "schedule_ok db" and "\<And>r. p r \<Longrightarrow> rt_schedule_id (f r) = rt_schedule_id r"
  shows "step_ok db (update_runtime p f db)"
proof -
  have "map rt_schedule_id (update_where p f (runtime_state db)) = map rt_schedule_id (runtime_state db)"
    using assms(2) by (simp add: map_update_where)
  with assms(1) show ?thesis
    by (simp add: step_ok_def schedule_ok_def update_runtime_def schedule_le_def task_order.evolves_refl)
qed

lemma schedule_ok_tasks:
  assumes "schedule_ok db" and "map tr_id rows = map tr_id (task_rows db)"
    and "map tr_invocation_key rows = map tr_invocation_key (task_rows db)"
    and "\<And>t sid. t \<in> set rows \<Longrightarrow> tr_schedule_id t = Some sid \<Longrightarrow> sid \<in> sd_id ` set (definitions db)"
    and "\<And>t. t \<in> set rows \<Longrightarrow> progress_ok (tr_progress_percent t)"
  shows "schedule_ok (db\<lparr>task_rows := rows\<rparr>)"
proof -
  have "tr_id ` set rows = tr_id ` set (task_rows db)" using assms(2) by (metis set_map)
  with assms show ?thesis by (simp add: schedule_ok_def)
qed

lemma ok_update_tasks:
  assumes "schedule_ok db" and "\<And>t. t \<in> set (task_rows db) \<Longrightarrow> p t \<Longrightarrow> task_le t (f t)"
    and "\<And>t. progress_ok (tr_progress_percent t) \<Longrightarrow> progress_ok (tr_progress_percent (f t))"
  shows "step_ok db (update_tasks p f db)"
proof -
  let ?rows = "update_where p f (task_rows db)"
  have keys: "map tr_id ?rows = map tr_id (task_rows db)"
      "map tr_invocation_key ?rows = map tr_invocation_key (task_rows db)"
    using assms(2) by (auto intro!: map_update_where simp: task_le_def)
  have owner: "sid \<in> sd_id ` set (definitions db)" if t: "t \<in> set ?rows" "tr_schedule_id t = Some sid" for t sid
  proof -
    from t obtain u where "u \<in> set (task_rows db)" "task_le u t"
      using assms(2) by (auto simp: set_update_where split: if_splits)
    with t(2) have "u \<in> set (task_rows db)" "tr_schedule_id u = Some sid" by (auto simp: task_le_def)
    with assms(1) show "sid \<in> sd_id ` set (definitions db)" unfolding schedule_ok_def by blast
  qed
  have "evolves task_le (task_rows db) ?rows" by (rule task_order.evolves_update) (rule assms(2))
  moreover have "schedule_ok (update_tasks p f db)"
    unfolding update_tasks_def
    by (rule schedule_ok_tasks [OF assms(1) keys owner])
      (use assms(1,3) in \<open>auto simp: set_update_where schedule_ok_def\<close>)
  ultimately show ?thesis by (simp add: step_ok_def update_tasks_def schedule_le_def)
qed

lemma ok_update_ledger:
  assumes "schedule_ok db" and "\<And>r. el_context (f r) = el_context r"
  shows "step_ok db (update_ledger p f db)"
proof -
  let ?key = "\<lambda>r. event_key (el_context r)"
  have *: "map ?key (update_where p f (event_ledger db)) = map ?key (event_ledger db)"
    using assms(2) by (simp add: map_update_where)
  then have "?key ` set (update_where p f (event_ledger db)) = ?key ` set (event_ledger db)"
    by (metis set_map)
  with * assms(1) show ?thesis
    by (simp add: step_ok_def schedule_ok_def update_ledger_def schedule_le_def task_order.evolves_refl)
qed

lemma ok_agent: "schedule_ok db \<Longrightarrow> step_ok db (db\<lparr>agent := a\<rparr>)"
  by (simp add: step_ok_def schedule_ok_def schedule_le_def task_order.evolves_refl)

section \<open>Operations\<close>

lemma ok_insert_schedule:
  "schedule_ok db \<Longrightarrow> insert_schedule d db = Inr (r, db') \<Longrightarrow> step_ok db db'"
  by (auto simp: insert_schedule_def step_ok_def schedule_ok_def schedule_le_def find_schedule_None_iff
      task_order.evolves_refl stored_schedule_def split: if_splits)

lemma ok_create:
  assumes "schedule_ok db" and "create_schedule_idempotent w k d db = Inr (r, db')"
  shows "step_ok db db'"
proof -
  have "db' = db \<or> (\<exists>db1 a. insert_schedule d db = Inr ((), db1) \<and> db' = db1\<lparr>agent := a\<rparr>)"
    using assms(2) by (auto simp: create_schedule_idempotent_def rbind_Inr_iff split: option.splits)
  then show ?thesis
    by (metis assms(1) ok_agent ok_insert_schedule step_ok_refl step_ok_then)
qed

lemma ok_update_schedule:
  "schedule_ok db \<Longrightarrow> update_schedule d e db = Inr (r, db') \<Longrightarrow> step_ok db db'"
  by (auto simp: update_schedule_def Let_def stored_schedule_def split: if_splits intro!: ok_update_schedules)

lemma ok_set_enabled:
  "schedule_ok db \<Longrightarrow> set_schedule_enabled sid b e n now db = Inr (r, db') \<Longrightarrow> step_ok db db'"
  by (auto simp: set_schedule_enabled_def Let_def rbind_Inr_iff split: if_splits intro!: ok_update_schedules)

lemma ok_next_run:
  "schedule_ok db \<Longrightarrow> update_schedule_next_run sid n now db = Inr (r, db') \<Longrightarrow> step_ok db db'"
  by (auto simp: update_schedule_next_run_def split: if_splits intro!: ok_update_schedules)

lemma ok_health:
  "schedule_ok db \<Longrightarrow> mark_schedule_health sid h c now db = Inr (r, db') \<Longrightarrow> step_ok db db'"
  by (auto simp: mark_schedule_health_def split: if_splits intro!: ok_update_schedules)

lemma ok_insert_task:
  assumes "schedule_ok db" and "insert_task_run t db = Inr (r, db')"
  shows "step_ok db db'"
proof -
  have t: "task_row_ok db t" "db' = db\<lparr>task_rows := task_rows db @ [stored_task t]\<rparr>"
    using assms(2) by (auto simp: insert_task_run_def split: if_splits)
  then show ?thesis
    using assms(1)
    by (auto simp: step_ok_def schedule_ok_def task_row_ok_def stored_task_def schedule_le_def
        find_task_None_iff find_schedule_None_iff task_order.evolves_insert split: option.splits)
qed

text \<open>The two ways a claim commits.\<close>

definition claimed_task :: "string \<Rightarrow> task_run_record \<Rightarrow> schedule_db \<Rightarrow> task_run_record" where
  "claimed_task sid t db = (if overlaps sid db then skip_overlap t else t)"

definition claim_launches :: "string \<Rightarrow> task_run_record \<Rightarrow> schedule_db \<Rightarrow> bool" where
  "claim_launches sid t db \<longleftrightarrow> \<not> overlaps sid db \<and> \<not> task_is_terminal (tr_status t)"

definition point_runtime :: "string \<Rightarrow> task_run_record \<Rightarrow> bool \<Rightarrow> schedule_db \<Rightarrow> schedule_db" where
  "point_runtime sid t launch = update_runtime (\<lambda>r. rt_schedule_id r = sid)
     (\<lambda>r. r\<lparr>rt_last_scheduled_for_ms := tr_scheduled_for_ms t,
        rt_last_invocation_key := Some (tr_invocation_key t),
        rt_active_task_run_id := (if launch then Some (tr_id t) else None),
        rt_timer_generation := rt_timer_generation r + 1, rt_updated_at_ms := tr_updated_at_ms t\<rparr>)"

lemma claim_cases:
  assumes "claim_schedule_invocation sid e t db = Inr (c, db')"
  obtains (replay) existing where "find (\<lambda>r. tr_invocation_key r = tr_invocation_key t) (task_rows db) = Some existing"
      and "c = \<lparr>ic_task_run = existing, ic_should_launch = False\<rparr>" and "db' = db"
  | (fresh) d db1 where "find (\<lambda>r. tr_invocation_key r = tr_invocation_key t) (task_rows db) = None"
      and "find_schedule sid db = Some d" and "sd_config_revision d = e"
      and "insert_task_run (claimed_task sid t db) db = Inr ((), db1)"
      and "c = \<lparr>ic_task_run = claimed_task sid t db, ic_should_launch = claim_launches sid t db\<rparr>"
      and "db' = point_runtime sid (claimed_task sid t db) (claim_launches sid t db) db1"
proof (cases "find (\<lambda>r. tr_invocation_key r = tr_invocation_key t) (task_rows db)")
  case None
  with assms obtain d db1 where "find_schedule sid db = Some d" "sd_config_revision d = e"
      "insert_task_run (claimed_task sid t db) db = Inr ((), db1)"
      "c = \<lparr>ic_task_run = claimed_task sid t db, ic_should_launch = claim_launches sid t db\<rparr>"
      "db' = point_runtime sid (claimed_task sid t db) (claim_launches sid t db) db1"
    unfolding claim_schedule_invocation_def Let_def claimed_task_def [symmetric]
      claim_launches_def [symmetric] point_runtime_def
    by (fastforce simp: rbind_Inr_iff split: if_splits)
  with None show thesis by (rule fresh)
next
  case (Some existing)
  with assms have "c = \<lparr>ic_task_run = existing, ic_should_launch = False\<rparr>" "db' = db"
    by (auto simp: claim_schedule_invocation_def)
  with Some show thesis by (rule replay)
qed

lemma ok_point_runtime: "schedule_ok db \<Longrightarrow> step_ok db (point_runtime sid t b db)"
  unfolding point_runtime_def by (rule ok_update_runtime) simp_all

lemma ok_claim:
  assumes "schedule_ok db" and "claim_schedule_invocation sid e t db = Inr (r, db')"
  shows "step_ok db db'"
  using assms(2)
proof (cases rule: claim_cases)
  case replay
  then show ?thesis by (simp add: assms(1) step_ok_refl)
next
  case (fresh d db1)
  show ?thesis unfolding fresh(6) by (rule step_ok_then [OF ok_insert_task [OF assms(1) fresh(4)] ok_point_runtime])
qed

lemma ok_update_task_if:
  assumes "schedule_ok db" and "update_task_if e p tid f db = Inr (r, db')" and "\<And>t. p t \<Longrightarrow> task_le t (f t)"
    and "\<And>t. tr_progress_percent (f t) = tr_progress_percent t"
  shows "step_ok db db'"
  using assms by (auto simp: update_task_if_def Let_def rbind_Inr_iff split: if_splits intro!: ok_update_tasks)

lemma ok_bind_execution:
  "schedule_ok db \<Longrightarrow> bind_task_run_execution tid sid rid now db = Inr (r, db') \<Longrightarrow> step_ok db db'"
  by (auto simp: bind_task_run_execution_def task_le_def split: if_splits elim!: ok_update_task_if)

lemma ok_requeue:
  "schedule_ok db \<Longrightarrow> requeue_unbound_preparing_task_run tid now db = Inr (r, db') \<Longrightarrow> step_ok db db'"
  by (auto simp: requeue_unbound_preparing_task_run_def task_le_def task_is_terminal_def elim!: ok_update_task_if)

lemma ok_bind_requester:
  "schedule_ok db \<Longrightarrow> bind_task_run_requester tid sid now db = Inr (r, db') \<Longrightarrow> step_ok db db'"
  by (auto simp: bind_task_run_requester_def task_le_def split: if_splits elim!: ok_update_task_if)

lemma ok_delivery:
  "schedule_ok db \<Longrightarrow> update_task_delivery tid st c now db = Inr (r, db') \<Longrightarrow> step_ok db db'"
  by (auto simp: update_task_delivery_def task_le_def elim!: ok_update_task_if)

lemma transition_running: "task_can_transition_to Task_Running s \<Longrightarrow> task_is_terminal s"
  by (auto simp: task_is_terminal_def)

lemma transitioned_le:
  assumes "tr_status t = status \<or> task_can_transition_to (tr_status t) status"
  shows "task_le t (transitioned status report now t)"
  using assms by (auto simp: task_le_def transitioned_def dest: task_transition_open intro: transition_running)

lemma ok_transition:
  assumes "schedule_ok db" and "transition_task_run tid status report now db = Inr (r, db')"
  shows "step_ok db db'"
proof -
  obtain t where t: "find_task tid db = Some t" "progress_ok (tp_progress report)"
      "tr_status t = status \<or> task_can_transition_to (tr_status t) status"
    and db': "db' = (if task_is_terminal status
        then update_runtime (\<lambda>r. rt_active_task_run_id r = Some tid)
          (\<lambda>r. r\<lparr>rt_active_task_run_id := None, rt_updated_at_ms := now\<rparr>)
          (update_tasks (\<lambda>t. tr_id t = tid) (\<lambda>_. transitioned status report now t) db)
        else update_tasks (\<lambda>t. tr_id t = tid) (\<lambda>_. transitioned status report now t) db)"
    using assms(2) by (auto simp: transition_task_run_def rbind_Inr_iff Let_def split: if_splits)
  have "step_ok db (update_tasks (\<lambda>t. tr_id t = tid) (\<lambda>_. transitioned status report now t) db)"
  proof (rule ok_update_tasks [OF assms(1)])
    fix x assume "x \<in> set (task_rows db)" "tr_id x = tid"
    then have "x = t" using find_task_in [OF assms(1), of x] t(1) by simp
    then show "task_le x (transitioned status report now t)" using transitioned_le [OF t(3)] by simp
  qed (simp add: transitioned_def t(2))
  note tasks = this
  show ?thesis
  proof (cases "task_is_terminal status")
    case True
    show ?thesis unfolding db' if_P [OF True] by (rule step_ok_then [OF tasks]) (rule ok_update_runtime, simp_all)
  qed (simp add: db' tasks)
qed

lemma ok_drop_schedule:
  assumes "schedule_ok db" and "\<forall>t \<in> set (task_rows db). tr_schedule_id t \<noteq> Some sid"
  shows "schedule_ok (db\<lparr>definitions := filter (\<lambda>d. sd_id d \<noteq> sid) (definitions db),
    runtime_state := filter (\<lambda>r. rt_schedule_id r \<noteq> sid) (runtime_state db),
    event_links := filter (\<lambda>l. lk_schedule_id l \<noteq> sid) (event_links db)\<rparr>)"
proof -
  have "map rt_schedule_id (filter (\<lambda>r. rt_schedule_id r \<noteq> sid) rs) =
      map sd_id (filter (\<lambda>d. sd_id d \<noteq> sid) ds)"
    if "map rt_schedule_id rs = map sd_id ds" for rs ds
    using that by (induction rs arbitrary: ds) (auto simp: Cons_eq_map_conv)
  then have "map rt_schedule_id (filter (\<lambda>r. rt_schedule_id r \<noteq> sid) (runtime_state db)) =
      map sd_id (filter (\<lambda>d. sd_id d \<noteq> sid) (definitions db))"
    using assms(1) unfolding schedule_ok_def by blast
  moreover have "x \<in> sd_id ` {d \<in> set (definitions db). sd_id d \<noteq> sid}"
    if "x \<in> sd_id ` set (definitions db)" "x \<noteq> sid" for x
    using that by blast
  ultimately show ?thesis
    using assms by (auto simp: schedule_ok_def distinct_map_filter)
qed

lemma ok_remove:
  assumes "schedule_ok db"
  shows "step_ok db (snd (remove_schedule sid db))"
proof -
  let ?db = "update_tasks (\<lambda>t. tr_schedule_id t = Some sid) (\<lambda>t. t\<lparr>tr_schedule_id := None\<rparr>) db"
  have 1: "step_ok db ?db" by (rule ok_update_tasks [OF assms]) (simp_all add: task_le_def)
  have "\<forall>t \<in> set (task_rows ?db). tr_schedule_id t \<noteq> Some sid"
    by (auto simp: update_tasks_def set_update_where)
  with 1 have "schedule_ok (?db\<lparr>definitions := filter (\<lambda>d. sd_id d \<noteq> sid) (definitions ?db),
      runtime_state := filter (\<lambda>r. rt_schedule_id r \<noteq> sid) (runtime_state ?db),
      event_links := filter (\<lambda>l. lk_schedule_id l \<noteq> sid) (event_links ?db)\<rparr>)"
    by (intro ok_drop_schedule) (auto simp: step_ok_def)
  with 1 show ?thesis
    by (simp add: step_ok_def schedule_le_def remove_schedule_def update_tasks_def)
qed

lemma ok_lose_running: "schedule_ok db \<Longrightarrow> step_ok db (lose_running_tasks now db)"
  unfolding lose_running_tasks_def
  by (rule ok_update_tasks) (auto simp: task_le_def task_is_terminal_def)

section \<open>Events\<close>

lemma ok_insert_link:
  assumes "schedule_ok db" and "insert_link k sid tid db = Inr (r, db')"
    and "k \<in> (\<lambda>r. event_key (el_context r)) ` set (event_ledger db)"
    and "sid \<in> sd_id ` set (definitions db)" and "tid \<in> tr_id ` set (task_rows db)"
  shows "step_ok db db'"
proof -
  have db': "db' = db\<lparr>event_links := event_links db @ [\<lparr>lk_event = k, lk_schedule_id = sid, lk_task_run_id = tid\<rparr>]\<rparr>"
    and new: "\<forall>l \<in> set (event_links db). \<not> (lk_event l = k \<and> lk_schedule_id l = sid) \<and> lk_task_run_id l \<noteq> tid"
    using assms(2) by (auto simp: insert_link_def list_ex_iff split: if_splits)
  have "schedule_ok db'"
    using assms(1,3-5) new unfolding db' schedule_ok_def by auto
  then show ?thesis by (simp add: step_ok_def db' schedule_le_def task_order.evolves_refl)
qed

text \<open>A claim leaves the definitions and the ledger alone, and the task run it answers with is there.\<close>

lemma claim_frame:
  assumes "claim_schedule_invocation sid e t db = Inr (c, db')"
  shows "definitions db' = definitions db" and "event_ledger db' = event_ledger db"
    and "event_links db' = event_links db" and "agent db' = agent db"
    and "tr_id (ic_task_run c) \<in> tr_id ` set (task_rows db')"
    and "find_schedule sid db = None \<Longrightarrow> db' = db"
  using assms
  by (cases rule: claim_cases; auto simp: insert_task_run_def point_runtime_def update_runtime_def
      stored_task_def dest: find_Some_imp split: if_splits)+

lemma ok_fan_out_one:
  assumes "schedule_ok db" and "fan_out_one sha fresh e d db = Inr (r, db')"
    and "event_key e \<in> (\<lambda>r. event_key (el_context r)) ` set (event_ledger db)"
    and "sd_id d \<in> sd_id ` set (definitions db)"
  shows "step_ok db db' \<and> event_ledger db' = event_ledger db \<and>
    map sd_id (definitions db') = map sd_id (definitions db)"
proof (cases "matches_schedule d e \<and> \<not> (reached_limit d db \<or> past_end d (ec_received_at_ms e))")
  case True
  then obtain c db1 where c: "claim_schedule_invocation (sd_id d) (sd_config_revision d)
        (event_task_record sha (fresh (sd_id d)) d e) db = Inr (c, db1)"
      and l: "insert_link (event_key e) (sd_id d) (tr_id (ic_task_run c)) db1 = Inr ((), db')"
    using assms(2) by (auto simp: fan_out_one_def rbind_Inr_iff)
  note frame = claim_frame [OF c]
  have "step_ok db db'"
  proof (rule step_ok_then [OF ok_claim [OF assms(1) c]])
    assume "schedule_ok db1"
    from ok_insert_link [OF this l] show "step_ok db1 db'" using frame assms(3,4) by simp
  qed
  moreover have "event_ledger db' = event_ledger db1 \<and> definitions db' = definitions db1"
    using l by (auto simp: insert_link_def split: if_splits)
  ultimately show ?thesis using frame by simp
next
  case False
  then show ?thesis
    using assms(1,2) ok_update_schedules [OF assms(1), of "\<lambda>r. sd_id r = sd_id d \<and> sd_enabled r"]
    by (auto simp: fan_out_one_def step_ok_refl update_schedules_def map_update_where split: if_splits)
qed

lemma ok_fan_out:
  "fan_out sha fresh e ds db = Inr (r, db') \<Longrightarrow> schedule_ok db \<Longrightarrow>
    event_key e \<in> (\<lambda>r. event_key (el_context r)) ` set (event_ledger db) \<Longrightarrow>
    sd_id ` set ds \<subseteq> set (map sd_id (definitions db)) \<Longrightarrow>
    step_ok db db' \<and> event_ledger db' = event_ledger db"
proof (induction ds arbitrary: db r)
  case Nil
  then show ?case by (simp add: step_ok_refl)
next
  case (Cons d ds)
  then obtain c db1 cs where one: "fan_out_one sha fresh e d db = Inr (c, db1)"
      and rest: "fan_out sha fresh e ds db1 = Inr (cs, db')"
    by (auto simp: rbind_Inr_iff)
  have *: "step_ok db db1 \<and> event_ledger db1 = event_ledger db \<and>
      map sd_id (definitions db1) = map sd_id (definitions db)"
    using ok_fan_out_one [OF Cons.prems(2) one Cons.prems(3)] Cons.prems(4) by simp
  then have "step_ok db1 db' \<and> event_ledger db' = event_ledger db1"
    using Cons.IH [OF rest] Cons.prems(3,4) by (simp add: step_ok_def)
  with * show ?case by (auto intro: step_ok_trans)
qed

lemma ok_new_ledger_row:
  "schedule_ok db \<Longrightarrow> find_event (event_key e) db = None \<Longrightarrow>
    step_ok db (db\<lparr>event_ledger := event_ledger db @ [new_ledger_row e]\<rparr>)"
  by (auto simp: step_ok_def schedule_ok_def schedule_le_def task_order.evolves_refl find_event_def
      find_None_iff new_ledger_row_def)

lemma candidates_in: "sd_id ` set (event_candidates db) \<subseteq> set (map sd_id (definitions db))"
  by (auto simp: event_candidates_def)

lemma ok_ingest:
  assumes "schedule_ok db" and "ingest_schedule_event sha fresh e db = Inr (r, db')"
  shows "step_ok db db'"
proof (cases "find_event (event_key e) db")
  case None
  let ?db = "db\<lparr>event_ledger := event_ledger db @ [new_ledger_row e]\<rparr>"
  obtain cs db1 where f: "fan_out sha fresh e (event_candidates db) ?db = Inr (cs, db1)"
      and db': "db' = update_ledger (\<lambda>r. event_key (el_context r) = event_key e)
        (\<lambda>r. r\<lparr>el_matched_schedule_count := length cs\<rparr>) db1"
    using assms(2) None by (auto simp: ingest_schedule_event_def event_candidates_def rbind_Inr_iff)
  note new = ok_new_ledger_row [OF assms(1) None]
  have "step_ok ?db db1"
    using ok_fan_out [OF f] new candidates_in [of db] by (simp add: step_ok_def new_ledger_row_def)
  with new have "step_ok db db1" by (rule step_ok_trans)
  then show ?thesis unfolding db' by (rule step_ok_then) (rule ok_update_ledger, simp_all)
next
  case (Some row)
  then show ?thesis
    using assms
    by (auto simp: ingest_schedule_event_def Let_def split: if_splits intro!: ok_update_ledger)
qed

lemma ok_cleanup:
  assumes "schedule_ok db"
  shows "step_ok db (snd (cleanup_schedule_event_ledger now db))"
proof -
  have "schedule_ok (snd (cleanup_schedule_event_ledger now db))"
    using assms unfolding schedule_ok_def cleanup_schedule_event_ledger_def Let_def
    by (auto simp: distinct_map_filter)
  then show ?thesis
    by (simp add: step_ok_def cleanup_schedule_event_ledger_def Let_def schedule_le_def task_order.evolves_refl)
qed

section \<open>Steps\<close>

inductive schedule_step :: "schedule_db \<Rightarrow> schedule_db \<Rightarrow> bool" where
  "create_schedule_idempotent w k d db = Inr (r, db') \<Longrightarrow> schedule_step db db'"
| "update_schedule d n db = Inr (r, db') \<Longrightarrow> schedule_step db db'"
| "schedule_step db (snd (remove_schedule sid db))"
| "set_schedule_enabled sid b n next_run now db = Inr (r, db') \<Longrightarrow> schedule_step db db'"
| "update_schedule_next_run sid next_run now db = Inr (r', db') \<Longrightarrow> schedule_step db db'"
| "mark_schedule_health sid h c now db = Inr (r', db') \<Longrightarrow> schedule_step db db'"
| "create_task_run t db = Inr (t', db') \<Longrightarrow> schedule_step db db'"
| "claim_schedule_invocation sid n t db = Inr (claim, db') \<Longrightarrow> schedule_step db db'"
| "bind_task_run_execution tid sid rid now db = Inr (t, db') \<Longrightarrow> schedule_step db db'"
| "requeue_unbound_preparing_task_run tid now db = Inr (t, db') \<Longrightarrow> schedule_step db db'"
| "bind_task_run_requester tid sid now db = Inr (t, db') \<Longrightarrow> schedule_step db db'"
| "transition_task_run tid status report now db = Inr (t, db') \<Longrightarrow> schedule_step db db'"
| "update_task_delivery tid delivery c now db = Inr (t, db') \<Longrightarrow> schedule_step db db'"
| "schedule_step db (lose_running_tasks now db)"
| "ingest_schedule_event sha fresh e db = Inr (result, db') \<Longrightarrow> schedule_step db db'"
| "schedule_step db (snd (cleanup_schedule_event_ledger now db))"
| "schedule_step db (db\<lparr>agent := a\<rparr>)"

lemma ok_create_task: "schedule_ok db \<Longrightarrow> create_task_run t db = Inr (r, db') \<Longrightarrow> step_ok db db'"
  by (auto simp: create_task_run_def rbind_Inr_iff intro: ok_insert_task)

lemma schedule_step_ok: "schedule_step db db' \<Longrightarrow> schedule_ok db \<Longrightarrow> step_ok db db'"
  by (induction rule: schedule_step.induct)
    (blast intro: ok_create ok_update_schedule ok_remove ok_set_enabled ok_next_run ok_health
      ok_create_task ok_claim ok_bind_execution ok_requeue ok_bind_requester ok_transition ok_delivery
      ok_lose_running ok_ingest ok_cleanup ok_agent)+

abbreviation schedule_steps :: "schedule_db \<Rightarrow> schedule_db \<Rightarrow> bool" where
  "schedule_steps \<equiv> schedule_step\<^sup>*\<^sup>*"

lemma schedule_steps_ok: "schedule_steps db db' \<Longrightarrow> schedule_ok db \<Longrightarrow> step_ok db db'"
  by (induction rule: rtranclp_induct)
    (auto simp: step_ok_refl intro: step_ok_then schedule_step_ok)

definition empty_schedule_db :: "store \<Rightarrow> schedule_db" where
  "empty_schedule_db s = \<lparr>agent = s, definitions = [], runtime_state = [], task_rows = [],
     event_ledger = [], event_links = []\<rparr>"

inductive schedule_reachable :: "schedule_db \<Rightarrow> bool" where
  schedule_start: "schedule_reachable (empty_schedule_db s)"
| schedule_next: "schedule_reachable db \<Longrightarrow> schedule_step db db' \<Longrightarrow> schedule_reachable db'"

lemma schedule_reachable_ok: "schedule_reachable db \<Longrightarrow> schedule_ok db"
proof (induction rule: schedule_reachable.induct)
  case (schedule_start s)
  then show ?case by (simp add: schedule_ok_def empty_schedule_db_def)
next
  case (schedule_next db db')
  then show ?case using schedule_step_ok by (auto simp: step_ok_def)
qed

end
