(* ===== verification/Schedule_Demo.thy ===== *)
theory Schedule_Demo
  imports Schedule_Steps Store_Steps
begin

text \<open>A concrete run of the schedule tables, for the witnesses of the properties.\<close>

definition plain_schedule :: "string \<Rightarrow> schedule_spec \<Rightarrow> schedule_definition" where
  "plain_schedule sid spec = \<lparr>sd_id = sid, sd_name = ''n'', sd_enabled = True, sd_prompt = ''p'',
     sd_schedule = spec, sd_entry_profile = Workbench_Entry, sd_workload_override = None,
     sd_context_template = Workspace_Template Managed_Workspace PerRunSession,
     sd_skill_allowlist = [], sd_skill_revisions = [], sd_mcp_tool_allowlist = [],
     sd_contribution_revisions = [], sd_host_connectors = [], sd_permission_policy = default_policy,
     sd_permission_revision = 1, sd_timeout_ms = 60000, sd_misfire_policy = Skip,
     sd_delivery_policy = TaskTabOnly,
     sd_stop_conditions = \<lparr>st_max_occurrences = None, st_end_at_ms = None, st_stop_after_success = False\<rparr>,
     sd_config_revision = 1, sd_created_by = ''u'', sd_next_run_at_ms = None, sd_health = Healthy,
     sd_health_reason = None, sd_created_at_ms = 0, sd_updated_at_ms = 0\<rparr>"

definition plain_task :: "string \<Rightarrow> string \<Rightarrow> string \<Rightarrow> task_run_record" where
  "plain_task sid tid key = \<lparr>tr_id = tid, tr_schedule_id = Some sid, tr_schedule_revision = Some 1,
     tr_trigger = Trigger_Scheduled, tr_scheduled_for_ms = Some 0, tr_event_context = None,
     tr_invocation_key = key, tr_requester_session_id = None, tr_execution_session_id = None,
     tr_run_id = None, tr_status = Task_Queued, tr_progress_percent = None, tr_result_summary = None,
     tr_error_code = None, tr_error_summary = None, tr_artifact_ids = [],
     tr_delivery_status = NotRequested, tr_delivery_error_code = None, tr_created_at_ms = 0,
     tr_started_at_ms = None, tr_finished_at_ms = None, tr_updated_at_ms = 0\<rparr>"

definition db_after :: "'a sched \<Rightarrow> schedule_db \<Rightarrow> schedule_db" where
  "db_after m db = (case m db of Inl _ \<Rightarrow> db | Inr (_, db') \<Rightarrow> db')"

lemma reachable_db_after:
  assumes "schedule_reachable db" and "\<And>r db'. m db = Inr (r, db') \<Longrightarrow> schedule_step db db'"
  shows "schedule_reachable (db_after m db)"
  using assms by (auto simp: db_after_def intro: schedule_next split: sum.splits)

lemma steps_db_after:
  assumes "\<And>r db'. m db = Inr (r, db') \<Longrightarrow> schedule_step db db'"
  shows "schedule_steps db (db_after m db)"
  using assms by (auto simp: db_after_def split: sum.splits)

definition no_report :: task_report where
  "no_report = \<lparr>tp_progress = None, tp_result_summary = None, tp_error_code = None,
     tp_error_summary = None, tp_artifact_ids = []\<rparr>"

text \<open>A schedule, and its first invocation, which is being prepared.\<close>

definition demo_created :: schedule_db where
  "demo_created = db_after (create_schedule_idempotent ''u'' ''k'' (plain_schedule ''s'' (Every 60000 0)))
     (empty_schedule_db empty_store)"

definition demo_claimed :: schedule_db where
  "demo_claimed = db_after (claim_schedule_invocation ''s'' 1 (plain_task ''s'' ''a'' ''ka'')) demo_created"

definition demo_preparing :: schedule_db where
  "demo_preparing = db_after (transition_task_run ''a'' Task_Preparing no_report 1) demo_claimed"

lemma demo_schedule_reachable:
  "schedule_reachable demo_created" "schedule_reachable demo_claimed" "schedule_reachable demo_preparing"
  unfolding demo_created_def demo_claimed_def demo_preparing_def
  by (intro reachable_db_after schedule_start; blast intro: schedule_step.intros)+

lemma column_u64_small [simp]: "n < 9223372036854775808 \<Longrightarrow> column_u64 n = n"
  by (simp add: column_u64_def i64_of_u64_def i64_max_def min_def)

lemmas demo_eval = db_after_def create_schedule_idempotent_def insert_schedule_def find_schedule_def
  find_task_def empty_schedule_db_def empty_store_def schedule_row_ok_def stored_schedule_def
  stored_task_def persisted_trigger_def claim_schedule_invocation_def overlaps_def active_task_def
  insert_task_run_def task_row_ok_def opt_exists_def progress_ok_def update_runtime_def
  update_tasks_def update_schedules_def transition_task_run_def transitioned_def no_report_def
  task_is_terminal_def skip_overlap_def Let_def

lemma demo_created_nf:
  "demo_created = \<lparr>agent = empty_store\<lparr>idempotency_records :=
       [\<lparr>ir_principal = ''u'', ir_method = create_method, ir_key = ''k'', ir_resource_id = ''s'', ir_created_at_ms = 0\<rparr>]\<rparr>,
     definitions = [plain_schedule ''s'' (Every 60000 0)],
     runtime_state = [\<lparr>rt_schedule_id = ''s'', rt_last_scheduled_for_ms = None, rt_last_invocation_key = None,
       rt_active_task_run_id = None, rt_timer_generation = 0, rt_updated_at_ms = 0\<rparr>],
     task_rows = [], event_ledger = [], event_links = []\<rparr>"
  unfolding demo_created_def by (simp add: demo_eval plain_schedule_def)

lemma demo_preparing_nf:
  "demo_preparing = demo_created\<lparr>
     runtime_state := [\<lparr>rt_schedule_id = ''s'', rt_last_scheduled_for_ms = Some 0, rt_last_invocation_key = Some ''ka'',
       rt_active_task_run_id = Some ''a'', rt_timer_generation = 1, rt_updated_at_ms = 0\<rparr>],
     task_rows := [(plain_task ''s'' ''a'' ''ka'')\<lparr>tr_status := Task_Preparing, tr_updated_at_ms := 1\<rparr>]\<rparr>"
  unfolding demo_preparing_def demo_claimed_def demo_created_nf
  by (simp add: demo_eval plain_task_def plain_schedule_def)

lemma demo_schedule_claim:
  "claim_schedule_invocation ''s'' 1 (plain_task ''s'' ''a'' ''ka'') demo_created =
    Inr (\<lparr>ic_task_run = plain_task ''s'' ''a'' ''ka'', ic_should_launch = True\<rparr>, demo_claimed)"
  unfolding demo_claimed_def demo_created_nf
  by (simp add: demo_eval plain_task_def plain_schedule_def)

lemma demo_steps: "schedule_steps demo_claimed demo_preparing"
  unfolding demo_preparing_def by (rule steps_db_after) (rule schedule_step.intros)

definition demo_second :: schedule_db where
  "demo_second = db_after (claim_schedule_invocation ''s'' 1 (plain_task ''s'' ''b'' ''kb'')) demo_preparing"

definition demo_third :: schedule_db where
  "demo_third = db_after (claim_schedule_invocation ''s'' 1 (plain_task ''s'' ''c'' ''kc'')) demo_second"

lemma demo_overlap:
  "claim_schedule_invocation ''s'' 1 (plain_task ''s'' ''b'' ''kb'') demo_preparing =
    Inr (\<lparr>ic_task_run = skip_overlap (plain_task ''s'' ''b'' ''kb''), ic_should_launch = False\<rparr>, demo_second)"
  "claim_schedule_invocation ''s'' 1 (plain_task ''s'' ''c'' ''kc'') demo_second =
    Inr (\<lparr>ic_task_run = plain_task ''s'' ''c'' ''kc'', ic_should_launch = True\<rparr>, demo_third)"
  "active_task ''s'' demo_preparing =
    Some ((plain_task ''s'' ''a'' ''ka'')\<lparr>tr_status := Task_Preparing, tr_updated_at_ms := 1\<rparr>)"
  unfolding demo_third_def demo_second_def demo_preparing_nf demo_created_nf
  by (simp_all add: demo_eval plain_task_def plain_schedule_def)

lemma demo_keys:
  "tr_invocation_key ` set (task_rows demo_preparing) = {''ka''}"
  "tr_invocation_key ` set (task_rows demo_second) = {''ka'', ''kb''}"
  unfolding demo_second_def demo_preparing_nf demo_created_nf
  by (simp_all add: demo_eval plain_task_def plain_schedule_def)

definition demo_cancelled :: schedule_db where
  "demo_cancelled = db_after (transition_task_run ''a'' Task_Cancelled no_report 2) demo_preparing"

lemma demo_cancelled_reachable: "schedule_reachable demo_cancelled"
  unfolding demo_cancelled_def
  by (rule reachable_db_after [OF demo_schedule_reachable(3)]) (rule schedule_step.intros)

lemma demo_cancelled_task:
  "find_task ''a'' demo_cancelled = Some ((plain_task ''s'' ''a'' ''ka'')
    \<lparr>tr_status := Task_Cancelled, tr_finished_at_ms := Some 2, tr_updated_at_ms := 2\<rparr>)"
  unfolding demo_cancelled_def demo_preparing_nf demo_created_nf
  by (simp add: demo_eval plain_task_def plain_schedule_def)

text \<open>An event schedule and an event for it.\<close>

definition demo_source :: schedule_event_source where
  "demo_source = \<lparr>es_kind = PluginSource, es_principal = ''p'', es_id = ''i''\<rparr>"

definition demo_event :: schedule_event_context where
  "demo_event = \<lparr>ec_event_id = ''e'', ec_source = demo_source, ec_event_type = ''t'', ec_subject = None,
     ec_labels = [], ec_resource = None, ec_fingerprint = ''f'', ec_occurred_at_ms = 5, ec_received_at_ms = 6\<rparr>"

definition demo_matcher :: schedule_event_matcher where
  "demo_matcher = \<lparr>em_source = demo_source, em_event_type = ''t'', em_subject_prefix = None,
     em_labels = [], em_resource = None\<rparr>"

definition demo_listening :: schedule_db where
  "demo_listening = db_after (create_schedule_idempotent ''u'' ''k'' (plain_schedule ''v'' (Event demo_matcher)))
     (empty_schedule_db empty_store)"

lemma demo_listening_reachable: "schedule_reachable demo_listening"
  unfolding demo_listening_def
  by (intro reachable_db_after schedule_start) (rule schedule_step.intros)

definition demo_claimed_event :: schedule_invocation_claim where
  "demo_claimed_event = \<lparr>ic_task_run = event_task_record (\<lambda>t. t) ''1'' (plain_schedule ''v'' (Event demo_matcher)) demo_event,
     ic_should_launch = True\<rparr>"

definition demo_ingested :: schedule_event_ingest_claim where
  "demo_ingested = \<lparr>ei_receipt = \<lparr>ep_status = Event_Accepted, ep_event = demo_event,
       ep_matched_schedule_ids = [''v''], ep_task_runs = [ic_task_run demo_claimed_event]\<rparr>,
     ei_launch_claims = [\<lparr>eq_schedule = plain_schedule ''v'' (Event demo_matcher), eq_claim = demo_claimed_event\<rparr>]\<rparr>"

definition demo_received :: schedule_db where
  "demo_received = db_after (ingest_schedule_event (\<lambda>t. t) (\<lambda>_. ''1'') demo_event) demo_listening"

lemmas event_eval = ingest_schedule_event_def find_event_def event_candidates_def fan_out_one_def
  matches_schedule_def event_matches_def reached_limit_def past_end_def event_task_record_def
  initial_delivery_def insert_link_def update_ledger_def demo_listening_def demo_matcher_def
  demo_event_def demo_source_def event_key_def new_ledger_row_def

lemma demo_ingest:
  "find_event (event_key demo_event) demo_listening = None"
  "ingest_schedule_event (\<lambda>t. t) (\<lambda>_. ''1'') demo_event demo_listening = Inr (Ingested demo_ingested, demo_received)"
  unfolding demo_received_def demo_ingested_def demo_claimed_event_def
  by (simp_all add: event_eval demo_eval plain_schedule_def)

lemma demo_received_row:
  "find_event (event_key demo_event) demo_received =
    Some ((new_ledger_row demo_event)\<lparr>el_matched_schedule_count := 1\<rparr>)"
  unfolding demo_received_def
  by (simp add: event_eval demo_eval plain_schedule_def)

end
