(* ===== verification/Schedule_Props.thy ===== *)
theory Schedule_Props
  imports Schedule_Demo
begin

text \<open>
  Properties of the schedule tables: an invocation is claimed once, a settled task run stays, an
  overlap is refused once only, an event fans out exactly and a repetition changes nothing.
\<close>

section \<open>Invocations\<close>

text \<open>C5: In every reachable state a task run is identified by its id and by its invocation key, every
  schedule has exactly one runtime row, every task run that names a schedule names an existing
  one, and an event is linked to at most one task run per schedule and a task run to at most one
  event.\<close>

theorem schedule_tables_consistent:
  assumes "schedule_reachable db"
  shows "distinct (map tr_id (task_rows db)) \<and> distinct (map tr_invocation_key (task_rows db)) \<and>
    distinct (map sd_id (definitions db)) \<and>
    map rt_schedule_id (runtime_state db) = map sd_id (definitions db) \<and>
    (\<forall>t \<in> set (task_rows db). \<forall>sid. tr_schedule_id t = Some sid \<longrightarrow> find_schedule sid db \<noteq> None) \<and>
    (\<forall>l \<in> set (event_links db). \<forall>l' \<in> set (event_links db).
      lk_event l = lk_event l' \<and> lk_schedule_id l = lk_schedule_id l' \<or>
      lk_task_run_id l = lk_task_run_id l' \<longrightarrow> l = l') \<and>
    (\<forall>l \<in> set (event_links db). find_event (lk_event l) db \<noteq> None \<and>
      find_task (lk_task_run_id l) db \<noteq> None)"
proof -
  note ok = schedule_reachable_ok [OF assms, unfolded schedule_ok_def]
  have "l = l'" if "l \<in> set (event_links db)" "l' \<in> set (event_links db)"
      "lk_event l = lk_event l' \<and> lk_schedule_id l = lk_schedule_id l' \<or> lk_task_run_id l = lk_task_run_id l'" for l l'
    using that ok key_unique [of "\<lambda>l. (lk_event l, lk_schedule_id l)" "event_links db"]
      key_unique [of lk_task_run_id "event_links db"] by blast
  moreover have "find_event (lk_event l) db \<noteq> None \<and> find_task (lk_task_run_id l) db \<noteq> None"
    if "l \<in> set (event_links db)" for l
    using ok that by (simp add: find_event_None_iff find_task_None_iff)
  ultimately show ?thesis
    using ok by (simp add: find_schedule_None_iff)
qed

lemma find_key_row:
  assumes "distinct (map k rows)" and "r \<in> set rows" and "k r = v"
  shows "find (\<lambda>x. k x = v) rows = Some r"
  using assms find_key by fastforce

lemma claim_key_there:
  assumes "claim_schedule_invocation sid n t db = Inr (c, db')"
  shows "\<exists>r \<in> set (task_rows db'). tr_invocation_key r = tr_invocation_key t \<and> tr_id r = tr_id (ic_task_run c)"
  using assms
  by (cases rule: claim_cases; auto simp: insert_task_run_def point_runtime_def update_runtime_def
      stored_task_def claimed_task_def skip_overlap_def dest: find_Some_imp split: if_splits)

text \<open>C4: An invocation is launched at most once. After a claim with an invocation key has committed,
  whatever happens in between, every later claim with that key launches nothing, changes nothing
  and answers with the same task run.\<close>

theorem invocation_launched_once:
  assumes "schedule_reachable db" and "claim_schedule_invocation sid n t db = Inr (c, db1)"
    and "schedule_steps db1 db2" and "tr_invocation_key t' = tr_invocation_key t"
  shows "\<exists>c'. claim_schedule_invocation sid' n' t' db2 = Inr (c', db2) \<and> \<not> ic_should_launch c' \<and>
    tr_id (ic_task_run c') = tr_id (ic_task_run c)"
proof -
  have ok1: "schedule_ok db1"
    using schedule_reachable_ok [OF assms(1)] ok_claim [OF _ assms(2)] by (simp add: step_ok_def)
  then have step: "step_ok db1 db2" by (rule schedule_steps_ok [OF assms(3)])
  obtain r where r: "r \<in> set (task_rows db1)" "tr_invocation_key r = tr_invocation_key t"
      "tr_id r = tr_id (ic_task_run c)"
    using claim_key_there [OF assms(2)] by blast
  then obtain r' where r': "r' \<in> set (task_rows db2)" "task_le r r'"
    using step unfolding step_ok_def schedule_le_def by (metis task_order.evolves_row)
  then have "find (\<lambda>x. tr_invocation_key x = tr_invocation_key t') (task_rows db2) = Some r'"
    using step r(2) assms(4) by (intro find_key_row) (auto simp: step_ok_def schedule_ok_def task_le_def)
  then show ?thesis
    using r' r(3) by (auto simp: claim_schedule_invocation_def task_le_def)
qed

text \<open>C13: A settled task run stays settled. Once its status is terminal, it keeps that status through
  every later operation, restarts included, and every transition to another status is refused: the
  late success of a cancelled launch is not recorded.\<close>

theorem settled_task_stays:
  assumes "schedule_reachable db" and "find_task tid db = Some t" and "task_is_terminal (tr_status t)"
    and "schedule_steps db db'"
  shows "\<exists>t'. find_task tid db' = Some t' \<and> tr_status t' = tr_status t \<and>
    (\<forall>status report now. status \<noteq> tr_status t \<longrightarrow>
      transition_task_run tid status report now db' = Inl InvalidTaskRunTransition)"
proof -
  have step: "step_ok db db'"
    using schedule_steps_ok [OF assms(4)] schedule_reachable_ok [OF assms(1)] by blast
  have t: "t \<in> set (task_rows db)" "tr_id t = tid" using find_task_Some [OF assms(2)] by simp_all
  then obtain t' where t': "t' \<in> set (task_rows db')" "task_le t t'"
    using step unfolding step_ok_def schedule_le_def by (metis task_order.evolves_row)
  have "find_task tid db' = Some t'"
    using find_task_in [OF _ t'(1)] step t' t(2) by (simp add: step_ok_def task_le_def)
  moreover have "tr_status t' = tr_status t" using t'(2) assms(3) by (simp add: task_le_def)
  moreover have "\<not> task_can_transition_to (tr_status t) s" for s
    using assms(3) task_transition_open by blast
  ultimately show ?thesis by (auto simp: transition_task_run_def)
qed

section \<open>Overlap\<close>

lemma find_update_same:
  "(\<And>r. p r \<Longrightarrow> p (f r)) \<Longrightarrow> find p (update_where p f rows) = map_option f (find p rows)"
  by (induction rows) auto

lemma active_after_claim:
  assumes "schedule_ok db" and "claim_schedule_invocation sid n t db = Inr (c, db')"
    and "find (\<lambda>r. tr_invocation_key r = tr_invocation_key t) (task_rows db) = None"
    and "\<not> ic_should_launch c"
  shows "active_task sid db' = None"
  using assms(2)
proof (cases rule: claim_cases)
  case (fresh d db1)
  have "runtime_state db1 = runtime_state db"
    using fresh(4) by (auto simp: insert_task_run_def split: if_splits)
  moreover have "\<not> claim_launches sid t db" using fresh(5) assms(4) by simp
  ultimately show ?thesis
    unfolding fresh(6) active_task_def point_runtime_def update_runtime_def
    by (auto simp: find_update_same split: bind_splits)
qed (simp add: assms(3))

text \<open>Only the first overlap is noticed. While an invocation of a schedule is still active, the next
  claim is recorded as skipped; but that claim also forgets the active task run, so the claim after
  it is launched although the first invocation has not ended.\<close>

theorem overlap_noticed_once:
  assumes "schedule_reachable db" and "active_task sid db = Some a" and "\<not> task_is_terminal (tr_status a)"
    and "claim_schedule_invocation sid n b db = Inr (cb, db1)"
    and "tr_invocation_key b \<notin> tr_invocation_key ` set (task_rows db)"
    and "claim_schedule_invocation sid n c db1 = Inr (cc, db2)"
    and "tr_invocation_key c \<notin> tr_invocation_key ` set (task_rows db1)"
    and "\<not> task_is_terminal (tr_status c)"
  shows "\<not> ic_should_launch cb \<and> tr_status (ic_task_run cb) = Task_Skipped \<and>
    ic_should_launch cc \<and> find_task (tr_id a) db2 = Some a"
proof -
  have ok: "schedule_ok db" by (rule schedule_reachable_ok [OF assms(1)])
  have fresh: "find (\<lambda>r. tr_invocation_key r = tr_invocation_key b) (task_rows db) = None"
      "find (\<lambda>r. tr_invocation_key r = tr_invocation_key c) (task_rows db1) = None"
    using assms(5,7) by (simp_all add: find_key_None_iff)
  have overlap: "overlaps sid db" using assms(2,3) by (simp add: overlaps_def)
  have first: "\<not> ic_should_launch cb \<and> tr_status (ic_task_run cb) = Task_Skipped"
    using assms(4)
    by (cases rule: claim_cases)
      (use fresh(1) overlap in \<open>auto simp: claim_launches_def claimed_task_def skip_overlap_def\<close>)
  then have "active_task sid db1 = None"
    using active_after_claim [OF ok assms(4) fresh(1)] by blast
  then have idle: "\<not> overlaps sid db1" by (simp add: overlaps_def)
  have second: "ic_should_launch cc"
    using assms(6) by (cases rule: claim_cases) (use idle fresh(2) assms(8) in \<open>auto simp: claim_launches_def\<close>)
  have rows: "a \<in> set (task_rows db)" using assms(2) find_task_Some by (fastforce simp: active_task_def split: bind_splits)
  have kept: "set (task_rows db) \<subseteq> set (task_rows db')"
    if "claim_schedule_invocation s m t db = Inr (x, db')" for s m t x db db'
    using that by (cases rule: claim_cases)
      (auto simp: insert_task_run_def point_runtime_def update_runtime_def split: if_splits)
  have "a \<in> set (task_rows db2)" using rows kept [OF assms(4)] kept [OF assms(6)] by blast
  moreover have "schedule_ok db2"
    using ok_claim [OF ok assms(4)] ok_claim [OF _ assms(6)] by (simp add: step_ok_def)
  ultimately have "find_task (tr_id a) db2 = Some a" by (simp add: find_task_in)
  with first second show ?thesis by simp
qed

section \<open>Events\<close>

definition admits :: "schedule_definition \<Rightarrow> schedule_event_context \<Rightarrow> schedule_db \<Rightarrow> bool" where
  "admits d e db \<longleftrightarrow> \<not> reached_limit d db \<and> \<not> past_end d (ec_received_at_ms e)"

lemma claim_count:
  assumes "claim_schedule_invocation sid n t db = Inr (c, db')" and "tr_schedule_id t = Some sid"
    and "sid' \<noteq> sid"
  shows "count_schedule_task_runs sid' db' = count_schedule_task_runs sid' db"
  using assms(1)
  by (cases rule: claim_cases)
    (use assms(2,3) in \<open>auto simp: insert_task_run_def point_runtime_def update_runtime_def
      count_schedule_task_runs_def stored_task_def claimed_task_def skip_overlap_def split: if_splits\<close>)

definition stop_for :: "schedule_definition \<Rightarrow> schedule_event_context \<Rightarrow> schedule_definition list \<Rightarrow> schedule_definition list" where
  "stop_for d e = update_where (\<lambda>r. sd_id r = sd_id d \<and> sd_enabled r)
     (\<lambda>r. r\<lparr>sd_enabled := False, sd_next_run_at_ms := None,
        sd_config_revision := sd_config_revision r + 1, sd_updated_at_ms := ec_received_at_ms e\<rparr>)"

lemma fan_out_one_result:
  assumes "fan_out_one sha fresh e d db = Inr (cs, db')"
  shows "map eq_schedule cs = (if matches_schedule d e \<and> admits d e db then [d] else []) \<and>
    (\<forall>d'. sd_id d' \<noteq> sd_id d \<longrightarrow> admits d' e db' = admits d' e db) \<and>
    definitions db' = (if matches_schedule d e \<and> \<not> admits d e db then stop_for d e (definitions db)
      else definitions db)"
proof (cases "matches_schedule d e \<and> admits d e db")
  case True
  then obtain c db1 where c: "claim_schedule_invocation (sd_id d) (sd_config_revision d)
        (event_task_record sha (fresh (sd_id d)) d e) db = Inr (c, db1)"
      and l: "insert_link (event_key e) (sd_id d) (tr_id (ic_task_run c)) db1 = Inr ((), db')"
      and cs: "cs = [\<lparr>eq_schedule = d, eq_claim = c\<rparr>]"
    using assms by (auto simp: fan_out_one_def admits_def rbind_Inr_iff)
  have "definitions db' = definitions db" "count_schedule_task_runs s db' = count_schedule_task_runs s db1" for s
    using l claim_frame(1) [OF c]
    by (auto simp: insert_link_def count_schedule_task_runs_def split: if_splits)
  then show ?thesis
    using True cs claim_count [OF c] by (auto simp: event_task_record_def admits_def reached_limit_def split: option.splits)
next
  case False
  then show ?thesis
    using assms by (auto simp: fan_out_one_def admits_def reached_limit_def update_schedules_def stop_for_def
        count_schedule_task_runs_def split: if_splits option.splits)
qed

lemma stop_for_disabled:
  "sd_id d \<in> sd_id ` set ds \<Longrightarrow> \<exists>r \<in> set (stop_for d e ds). sd_id r = sd_id d \<and> \<not> sd_enabled r"
proof -
  assume "sd_id d \<in> sd_id ` set ds"
  then obtain r where "r \<in> set ds" "sd_id r = sd_id d" by force
  then show ?thesis
    unfolding stop_for_def set_update_where bex_simps by (intro bexI [of _ r]) auto
qed

lemma stop_for_keeps_disabled:
  "\<exists>r \<in> set ds. sd_id r = sid \<and> \<not> sd_enabled r \<Longrightarrow> \<exists>r \<in> set (stop_for d e ds). sd_id r = sid \<and> \<not> sd_enabled r"
  unfolding stop_for_def set_update_where bex_simps by auto

lemma stop_for_ids: "map sd_id (stop_for d e ds) = map sd_id ds"
  by (simp add: stop_for_def map_update_where)

lemma fan_out_result:
  "fan_out sha fresh e ds db = Inr (cs, db') \<Longrightarrow> distinct (map sd_id ds) \<Longrightarrow>
    map eq_schedule cs = filter (\<lambda>d. matches_schedule d e \<and> admits d e db) ds \<and>
    (\<forall>sid. (\<exists>r \<in> set (definitions db). sd_id r = sid \<and> \<not> sd_enabled r) \<longrightarrow>
      (\<exists>r \<in> set (definitions db'). sd_id r = sid \<and> \<not> sd_enabled r)) \<and>
    (sd_id ` set ds \<subseteq> set (map sd_id (definitions db)) \<longrightarrow>
      (\<forall>d \<in> set ds. matches_schedule d e \<and> \<not> admits d e db \<longrightarrow>
        (\<exists>r \<in> set (definitions db'). sd_id r = sd_id d \<and> \<not> sd_enabled r)))"
proof (induction ds arbitrary: db cs)
  case (Cons d ds)
  then obtain c db1 cs' where one: "fan_out_one sha fresh e d db = Inr (c, db1)"
      and rest: "fan_out sha fresh e ds db1 = Inr (cs', db')" and cs: "cs = c @ cs'"
    by (auto simp: rbind_Inr_iff)
  note r = fan_out_one_result [OF one]
  have ids: "map sd_id (definitions db1) = map sd_id (definitions db)"
    using r by (simp add: stop_for_ids)
  note other = other_key [OF Cons.prems(2)]
  have same: "filter (\<lambda>d. matches_schedule d e \<and> admits d e db1) ds =
      filter (\<lambda>d. matches_schedule d e \<and> admits d e db) ds"
  proof (rule filter_cong [OF refl])
    fix x assume "x \<in> set ds"
    then have "sd_id x \<noteq> sd_id d" by (rule other)
    then show "(matches_schedule x e \<and> admits x e db1) = (matches_schedule x e \<and> admits x e db)"
      using r by simp
  qed
  have distinct: "distinct (map sd_id ds)" using Cons.prems(2) by simp
  note IH = Cons.IH [OF rest distinct]
  have keep: "\<exists>r \<in> set (definitions db'). sd_id r = sid \<and> \<not> sd_enabled r"
    if "\<exists>r \<in> set (definitions db). sd_id r = sid \<and> \<not> sd_enabled r" for sid
  proof -
    have "\<exists>r \<in> set (definitions db1). sd_id r = sid \<and> \<not> sd_enabled r"
      using that r stop_for_keeps_disabled [OF that, of d e] by (simp split: if_splits)
    then show ?thesis using IH by blast
  qed
  have stopped: "\<exists>r \<in> set (definitions db'). sd_id r = sd_id d' \<and> \<not> sd_enabled r"
    if "sd_id ` set (d # ds) \<subseteq> set (map sd_id (definitions db))"
      "d' \<in> set (d # ds)" "matches_schedule d' e" "\<not> admits d' e db" for d'
  proof (cases "d' = d")
    case True
    then have "\<exists>r \<in> set (definitions db1). sd_id r = sd_id d \<and> \<not> sd_enabled r"
      using r that stop_for_disabled [of d "definitions db" e] by simp
    then show ?thesis using True IH by blast
  next
    case False
    then have "sd_id d' \<noteq> sd_id d" using that(2) other by auto
    then have "\<not> admits d' e db1" using r that(4) by simp
    moreover have "sd_id ` set ds \<subseteq> set (map sd_id (definitions db1))" using ids that(1) by simp
    ultimately show ?thesis using IH False that(2,3) by auto
  qed
  have "map eq_schedule cs = filter (\<lambda>d. matches_schedule d e \<and> admits d e db) (d # ds)"
    using r IH same by (simp add: cs)
  then show ?case using keep stopped by blast
qed simp

lemma update_ledger_definitions [simp]: "definitions (update_ledger p f db) = definitions db"
  by (simp add: update_ledger_def)


text \<open>A repetition of an event does nothing. When the ledger already has the event, no task run is
  created, changed or launched and no schedule is touched; the same content is answered with the
  task runs the event has, another content is recorded as a conflict.\<close>

theorem event_replay_harmless:
  assumes "find_event (event_key e) db = Some row" and "ingest_schedule_event sha fresh e db = Inr (r, db')"
  shows "task_rows db' = task_rows db \<and> definitions db' = definitions db \<and>
    runtime_state db' = runtime_state db \<and> event_links db' = event_links db \<and>
    r = (if ec_fingerprint (el_context row) = ec_fingerprint e
      then Ingested \<lparr>ei_receipt = event_receipt (el_context row) Event_Replayed db, ei_launch_claims = []\<rparr>
      else ConflictRecorded)"
  using assms
  by (auto simp: ingest_schedule_event_def Let_def update_ledger_def event_receipt_def find_task_def
      split: if_splits)

section \<open>Witnesses\<close>

theorem schedule_tables_consistent_witness:
  "distinct (map tr_id (task_rows demo_preparing)) \<and> map rt_schedule_id (runtime_state demo_preparing) = [''s'']"
  using schedule_tables_consistent [OF demo_schedule_reachable(3)]
  by (simp add: demo_preparing_nf demo_created_nf plain_schedule_def)

theorem invocation_launched_once_witness:
  "\<exists>c. claim_schedule_invocation ''s'' 1 (plain_task ''s'' ''b'' ''ka'') demo_preparing = Inr (c, demo_preparing) \<and>
    \<not> ic_should_launch c \<and> tr_id (ic_task_run c) = ''a''"
  using invocation_launched_once [OF demo_schedule_reachable(1) demo_schedule_claim demo_steps,
      of "plain_task ''s'' ''b'' ''ka''" "''s''" 1]
  by (simp add: plain_task_def)

theorem settled_task_stays_witness:
  "transition_task_run ''a'' Task_Succeeded no_report 9 demo_cancelled = Inl InvalidTaskRunTransition"
  using settled_task_stays [OF demo_cancelled_reachable demo_cancelled_task, of demo_cancelled]
  by (simp add: task_is_terminal_def) blast

theorem overlap_noticed_once_witness:
  "find_task ''a'' demo_third = Some ((plain_task ''s'' ''a'' ''ka'')\<lparr>tr_status := Task_Preparing, tr_updated_at_ms := 1\<rparr>)"
  using overlap_noticed_once [OF demo_schedule_reachable(3) demo_overlap(3) _ demo_overlap(1) _ demo_overlap(2)]
  by (simp add: demo_keys) (simp add: plain_task_def task_is_terminal_def)


theorem event_replay_harmless_witness:
  "\<exists>r db'. ingest_schedule_event (\<lambda>t. t) (\<lambda>_. ''2'') demo_event demo_received = Inr (r, db') \<and>
    task_rows db' = task_rows demo_received"
proof -
  obtain r db' where r: "ingest_schedule_event (\<lambda>t. t) (\<lambda>_. ''2'') demo_event demo_received = Inr (r, db')"
    by (simp add: ingest_schedule_event_def demo_received_row Let_def new_ledger_row_def)
  from event_replay_harmless [OF demo_received_row this] show ?thesis using r by blast
qed

end
