(* ===== verification/Schedule_Service.thy ===== *)
theory Schedule_Service
  imports Schedule_Events Calendar Policy_Normalize "HOL-Library.Option_ord"
begin

text \<open>
  The scheduler service (\<open>hachimi-scheduler\<close>: \<open>service.rs\<close>, \<open>service_helpers.rs\<close>, \<open>event.rs\<close>,
  \<open>runtime.rs\<close>). A method is a function of the service state that returns its result and the new
  state, also when it fails: what it has written before an error stays. A launch runs in a
  background task of its own; its two stretches between the calls of the launcher are steps. The
  clock readings, the random identifiers, the hooks, the launcher's answer and the notification
  are arguments.
\<close>

section \<open>Errors\<close>

text \<open>\<open>InvalidSchedule\<close> carries a text; the one of a refused permission policy is given by the
  refusal.\<close>

datatype (plugins only: code) scheduler_error =
    Sched_Store store_error
  | InvalidSchedule string
  | InvalidPermissionPolicy policy_error
  | NoFutureOccurrence
  | Serialization
  | Sched_Unavailable

fun scheduler_error_code :: "scheduler_error \<Rightarrow> string" where
  "scheduler_error_code (Sched_Store _) = ''scheduler_storage_unavailable''"
| "scheduler_error_code Serialization = ''scheduler_state_invalid''"
| "scheduler_error_code (InvalidSchedule _) = ''scheduler_schedule_invalid''"
| "scheduler_error_code (InvalidPermissionPolicy _) = ''scheduler_schedule_invalid''"
| "scheduler_error_code NoFutureOccurrence = ''scheduler_schedule_invalid''"
| "scheduler_error_code Sched_Unavailable = ''scheduler_unavailable''"

fun calendar_error_text :: "calendar_error \<Rightarrow> string" where
  "calendar_error_text PastTimestamp = ''schedule timestamp must be in the future''"
| "calendar_error_text IntervalTooShort = ''schedule interval must be at least 60000 milliseconds''"
| "calendar_error_text (InvalidCron t) = ''invalid Cron expression: '' @ t"
| "calendar_error_text (InvalidTimeZone t) = ''invalid IANA timezone: '' @ t"
| "calendar_error_text (TimeZoneUnavailable t) = ''timezone runtime is unavailable: '' @ t"
| "calendar_error_text SearchHorizonExceeded = ''no Cron occurrence was found within the search horizon''"
| "calendar_error_text TimestampRange = ''timestamp is outside the supported range''"

definition map_error :: "('e \<Rightarrow> 'f) \<Rightarrow> ('e, 'a) result \<Rightarrow> ('f, 'a) result" where
  "map_error f r = (case r of Inl e \<Rightarrow> Inl (f e) | Inr a \<Rightarrow> Inr a)"

section \<open>State\<close>

datatype launch_phase = Spawned | Launched

text \<open>A background task between its start and its end.\<close>

record launch =
  la_schedule :: schedule_definition
  la_task_id :: string
  la_phase :: launch_phase

text \<open>\<open>active_launches\<close> maps a task run to its cancellation token; \<open>launcher_calls\<close> records the calls
  of the launcher, with the task run it was given.\<close>

record scheduler =
  schedule_db :: schedule_db
  accepting :: bool
  active_launches :: "(string \<times> bool) list"
  background :: "launch list"
  launcher_calls :: "task_run_record list"

type_synonym 'a svc = "scheduler \<Rightarrow> (scheduler_error, 'a) result \<times> scheduler"

record 'z service_env =
  calendar :: "'z calendar_env_scheme"
  os :: os_env

definition svc_bind :: "'a svc \<Rightarrow> ('a \<Rightarrow> 'b svc) \<Rightarrow> 'b svc" where
  "svc_bind m f s = (case m s of (Inl e, s') \<Rightarrow> (Inl e, s') | (Inr a, s') \<Rightarrow> f a s')"

definition svc_ret :: "'a \<Rightarrow> 'a svc" where
  "svc_ret a s = (Inr a, s)"

definition svc_lift :: "(scheduler_error, 'a) result \<Rightarrow> 'a svc" where
  "svc_lift r s = (r, s)"

definition svc_gets :: "(scheduler \<Rightarrow> 'a) \<Rightarrow> 'a svc" where
  "svc_gets f s = (Inr (f s), s)"

text \<open>An operation of the store.\<close>

definition svc_store :: "'a sched \<Rightarrow> 'a svc" where
  "svc_store m s = (case m (schedule_db s) of
      Inl e \<Rightarrow> (Inl (Sched_Store e), s)
    | Inr (a, db) \<Rightarrow> (Inr a, s\<lparr>schedule_db := db\<rparr>))"

definition ensure_accepting :: "unit svc" where
  "ensure_accepting s = (if accepting s then Inr () else Inl Sched_Unavailable, s)"

definition suspend :: "scheduler \<Rightarrow> scheduler" where
  "suspend s = s\<lparr>accepting := False\<rparr>"

definition get_schedule :: "string \<Rightarrow> schedule_definition svc" where
  "get_schedule sid = svc_bind (svc_gets (\<lambda>s. find_schedule sid (schedule_db s)))
     (\<lambda>d. svc_lift (ok_or (Sched_Store (ScheduleNotFound sid)) d))"

definition get_task :: "string \<Rightarrow> task_run_record svc" where
  "get_task tid = svc_bind (svc_gets (\<lambda>s. find_task tid (schedule_db s)))
     (\<lambda>t. svc_lift (ok_or (Sched_Store (TaskRunNotFound tid)) t))"

section \<open>Normalisation and validation\<close>

definition skill_selection_key :: "schedule_skill_selection \<Rightarrow> string \<times> string \<times> string" where
  "skill_selection_key k = (sk_skill_id k, sk_content_hash k, sk_tree_revision k)"

definition mcp_selection_key :: "mcp_tool_selection \<Rightarrow> string \<times> string \<times> string \<times> string" where
  "mcp_selection_key m = (mt_server_id m, mt_tool_name m, mt_schema_hash m, mt_host_identity_hash m)"

definition revision_key :: "contribution_revision \<Rightarrow> string \<times> string \<times> string option" where
  "revision_key c = (cv_plugin_id c, cv_contribution_id c, cv_account_id c)"

definition same_revision :: "contribution_revision \<Rightarrow> contribution_revision \<Rightarrow> bool" where
  "same_revision a b \<longleftrightarrow> revision_key a = revision_key b"

definition normalize_revisions :: "contribution_revision list \<Rightarrow> contribution_revision list" where
  "normalize_revisions cs = dedup_by same_revision (sort_key revision_key cs)"

definition normalize_actions :: "connector_revision_selection \<Rightarrow> connector_revision_selection" where
  "normalize_actions c = c\<lparr>cn_allowed_actions :=
     remdups_adj (sort (filter (\<lambda>a. a \<noteq> []) (map trim (cn_allowed_actions c))))\<rparr>"

text \<open>The first revision with the key is replaced, or a new one is added.\<close>

fun select_revision :: "contribution_revision \<Rightarrow> contribution_revision list \<Rightarrow> contribution_revision list" where
  "select_revision c [] = [c]"
| "select_revision c (x # xs) = (if same_revision x c then c # xs else x # select_revision c xs)"

definition select_revisions ::
    "connector_revision_selection list \<Rightarrow> contribution_revision list \<Rightarrow> contribution_revision list" where
  "select_revisions sels cs = fold (\<lambda>sel. select_revision (cn_contribution_revision sel)) sels cs"

definition normalize_definition ::
    "os_env \<Rightarrow> schedule_definition \<Rightarrow> (scheduler_error, schedule_definition) result" where
  "normalize_definition env d =
     (let connectors = map normalize_actions (sort_key cn_account_id (sd_host_connectors d));
          revisions = normalize_revisions
            (select_revisions connectors (normalize_revisions (sd_contribution_revisions d)));
          d = d\<lparr>sd_name := take_chars 200 (trim (sd_name d)), sd_prompt := trim (sd_prompt d),
            sd_skill_allowlist := remdups_adj (sort (sd_skill_allowlist d)),
            sd_skill_revisions := remdups_adj (sort_key skill_selection_key (sd_skill_revisions d)),
            sd_mcp_tool_allowlist := remdups_adj (sort_key mcp_selection_key (sd_mcp_tool_allowlist d)),
            sd_contribution_revisions := revisions, sd_host_connectors := connectors\<rparr> in
      rbind (map_error InvalidPermissionPolicy (normalize_permission_policy env (sd_permission_policy d))) (\<lambda>p.
      Inr (if pp_level p = FullAccess
        then d\<lparr>sd_permission_policy := p\<lparr>pp_rules := default_rules\<rparr>, sd_mcp_tool_allowlist := [],
          sd_contribution_revisions := [], sd_host_connectors := []\<rparr>
        else d\<lparr>sd_permission_policy := p\<rparr>)))"

definition min_task_timeout_ms :: nat where "min_task_timeout_ms = 60000"
definition max_task_timeout_ms :: nat where "max_task_timeout_ms = 24 * 60 * 60 * 1000"

definition check :: "bool \<Rightarrow> string \<Rightarrow> (scheduler_error, unit) result" where
  "check b message = (if b then Inr () else Inl (InvalidSchedule message))"

definition validate_event_identity :: "string \<Rightarrow> string \<Rightarrow> nat \<Rightarrow> (scheduler_error, unit) result" where
  "validate_event_identity field v maximum =
     check (chars_count v \<noteq> 0 \<and> chars_count v \<le> maximum)
       (field @ '' must contain 1-'' @ decimal maximum @ '' characters'')"

fun validate_labels :: "(string \<times> string) list \<Rightarrow> (scheduler_error, unit) result" where
  "validate_labels [] = Inr ()"
| "validate_labels ((key, v) # labels) =
     rbind (validate_event_identity ''event label key'' key 128) (\<lambda>_.
     rbind (check (chars_count v \<le> 256) ''event label values must contain at most 256 characters'') (\<lambda>_.
     validate_labels labels))"

definition validate_resource :: "schedule_event_resource option \<Rightarrow> (scheduler_error, unit) result" where
  "validate_resource resource = (case resource of None \<Rightarrow> Inr ()
    | Some r \<Rightarrow>
        rbind (validate_event_identity ''event resource kind'' (er_kind r) 128) (\<lambda>_.
        rbind (validate_event_identity ''event resource id'' (er_id r) 512) (\<lambda>_.
        check (case er_revision r of None \<Rightarrow> True | Some v \<Rightarrow> v \<noteq> [] \<and> chars_count v \<le> 256)
          ''event resource revision must contain 1-256 characters'')))"

definition at_most_chars :: "nat \<Rightarrow> string option \<Rightarrow> bool" where
  "at_most_chars n v = (case v of None \<Rightarrow> True | Some t \<Rightarrow> chars_count t \<le> n)"

definition validate_matcher :: "schedule_event_matcher \<Rightarrow> (scheduler_error, unit) result" where
  "validate_matcher m =
     rbind (validate_event_identity ''source principal'' (es_principal (em_source m)) 256) (\<lambda>_.
     rbind (validate_event_identity ''source id'' (es_id (em_source m)) 256) (\<lambda>_.
     rbind (validate_event_identity ''event type'' (em_event_type m) 256) (\<lambda>_.
     rbind (check (at_most_chars 512 (em_subject_prefix m))
       ''event subject prefix must contain at most 512 characters'') (\<lambda>_.
     rbind (check (length (em_labels m) \<le> 16) ''event matcher supports at most 16 labels'') (\<lambda>_.
     rbind (validate_labels (em_labels m)) (\<lambda>_.
     validate_resource (em_resource m)))))))"

definition connector_selection_ok :: "connector_revision_selection \<Rightarrow> bool" where
  "connector_selection_ok c \<longleftrightarrow> cn_allowed_actions c \<noteq> [] \<and>
     cv_account_id (cn_contribution_revision c) = Some (cn_account_id c)"

definition stop_conditions_ok :: "schedule_definition \<Rightarrow> bool" where
  "stop_conditions_ok d \<longleftrightarrow> st_max_occurrences (sd_stop_conditions d) \<noteq> Some 0 \<and>
     (case st_end_at_ms (sd_stop_conditions d) of None \<Rightarrow> True | Some end_at \<Rightarrow> sd_created_at_ms d < end_at)"

definition validate_definition :: "schedule_definition \<Rightarrow> (scheduler_error, unit) result" where
  "validate_definition d =
     rbind (check (sd_name d \<noteq> []) ''name is required'') (\<lambda>_.
     rbind (check (sd_prompt d \<noteq> [] \<and> chars_count (sd_prompt d) \<le> 32000)
       ''prompt must contain 1-32000 characters'') (\<lambda>_.
     rbind (check (min_task_timeout_ms \<le> sd_timeout_ms d \<and> sd_timeout_ms d \<le> max_task_timeout_ms)
       ''timeout must be between one minute and 24 hours'') (\<lambda>_.
     rbind (check (sd_entry_profile d = Workbench_Entry)
       ''only the Workbench entry profile can be scheduled'') (\<lambda>_.
     rbind (case sd_schedule d of Event m \<Rightarrow> validate_matcher m | _ \<Rightarrow> Inr ()) (\<lambda>_.
     rbind (check (list_all connector_selection_ok (sd_host_connectors d))
       ''schedule_connector_selection_invalid'') (\<lambda>_.
     check (stop_conditions_ok d) ''stop conditions must allow at least one future occurrence''))))))"

definition authority_configuration_changed :: "schedule_definition \<Rightarrow> schedule_definition \<Rightarrow> bool" where
  "authority_configuration_changed current candidate \<longleftrightarrow>
     sd_entry_profile current \<noteq> sd_entry_profile candidate \<or>
     sd_workload_override current \<noteq> sd_workload_override candidate \<or>
     sd_context_template current \<noteq> sd_context_template candidate \<or>
     sd_skill_allowlist current \<noteq> sd_skill_allowlist candidate \<or>
     sd_skill_revisions current \<noteq> sd_skill_revisions candidate \<or>
     sd_mcp_tool_allowlist current \<noteq> sd_mcp_tool_allowlist candidate \<or>
     sd_permission_policy current \<noteq> sd_permission_policy candidate \<or>
     sd_contribution_revisions current \<noteq> sd_contribution_revisions candidate \<or>
     sd_host_connectors current \<noteq> sd_host_connectors candidate"

section \<open>Schedules\<close>

definition service_next ::
    "'z service_env \<Rightarrow> schedule_spec \<Rightarrow> int \<Rightarrow> (scheduler_error, int option) result" where
  "service_next env spec after = map_error
     (\<lambda>e. InvalidSchedule (calendar_error_code e @ '': '' @ calendar_error_text e))
     (next_occurrence (calendar env) spec after)"

definition required_next_occurrence ::
    "'z service_env \<Rightarrow> schedule_spec \<Rightarrow> int \<Rightarrow> (scheduler_error, int) result" where
  "required_next_occurrence env spec after =
     rbind (service_next env spec after) (ok_or NoFutureOccurrence)"

definition first_run :: "'z service_env \<Rightarrow> bool \<Rightarrow> schedule_spec \<Rightarrow> int \<Rightarrow> (scheduler_error, int option) result" where
  "first_run env enabled spec now =
     (if enabled \<and> \<not> is_event spec
      then rbind (required_next_occurrence env spec now) (\<lambda>t. Inr (Some t)) else Inr None)"

definition create :: "'z service_env \<Rightarrow> string \<Rightarrow> string \<Rightarrow> schedule_definition \<Rightarrow> int \<Rightarrow> schedule_snapshot svc" where
  "create env requester key d now =
     svc_bind ensure_accepting (\<lambda>_.
     svc_bind (svc_lift (normalize_definition (os env) d)) (\<lambda>d.
     svc_bind (svc_lift (validate_definition d)) (\<lambda>_.
     svc_bind (svc_lift (first_run env (sd_enabled d) (sd_schedule d) now)) (\<lambda>next_run.
     svc_store (create_schedule_idempotent requester key
       (d\<lparr>sd_config_revision := 1, sd_permission_revision := 1, sd_created_by := requester,
          sd_created_at_ms := now, sd_updated_at_ms := now, sd_next_run_at_ms := next_run,
          sd_health := Healthy, sd_health_reason := None\<rparr>))))))"

definition cancel_launch :: "string \<Rightarrow> scheduler \<Rightarrow> scheduler" where
  "cancel_launch tid s = s\<lparr>active_launches :=
     map (\<lambda>(k, c). (k, c \<or> k = tid)) (active_launches s)\<rparr>"

definition cancel_active_launches_for_schedule :: "string \<Rightarrow> nat svc" where
  "cancel_active_launches_for_schedule sid s =
     (let mine = filter (\<lambda>tid. case find_task tid (schedule_db s) of None \<Rightarrow> False
            | Some t \<Rightarrow> tr_schedule_id t = Some sid) (map fst (active_launches s)) in
      (Inr (length mine), fold cancel_launch mine s))"

text \<open>The clock is read twice: for the time of the change and for the next run.\<close>

definition update_definition ::
    "'z service_env \<Rightarrow> schedule_definition \<Rightarrow> nat \<Rightarrow> int \<Rightarrow> int \<Rightarrow> schedule_definition svc" where
  "update_definition env d expected now now' =
     svc_bind ensure_accepting (\<lambda>_.
     svc_bind (get_schedule (sd_id d)) (\<lambda>current.
     svc_bind (svc_lift (if sd_config_revision current \<noteq> expected
       then Inl (Sched_Store ScheduleRevisionConflict) else Inr ())) (\<lambda>_.
     svc_bind (svc_lift (normalize_definition (os env) d)) (\<lambda>d.
     svc_bind (svc_lift (validate_definition d)) (\<lambda>_.
     (let changed = authority_configuration_changed current d;
          d = d\<lparr>sd_created_by := sd_created_by current, sd_created_at_ms := sd_created_at_ms current,
            sd_config_revision := sat_add_u64 (sd_config_revision current) 1, sd_updated_at_ms := now,
            sd_permission_revision := (if changed then sat_add_u64 (sd_permission_revision current) 1
              else sd_permission_revision current),
            sd_health := (if changed then Healthy else sd_health current),
            sd_health_reason := (if changed then None else sd_health_reason current)\<rparr> in
      svc_bind (svc_lift (first_run env (sd_enabled d) (sd_schedule d) now')) (\<lambda>next_run.
      svc_bind (svc_store (update_schedule (d\<lparr>sd_next_run_at_ms := next_run\<rparr>) expected)) (\<lambda>updated.
      svc_bind (if changed then cancel_active_launches_for_schedule (sd_id updated) else svc_ret 0) (\<lambda>_.
      svc_ret updated)))))))))"

definition set_enabled :: "'z service_env \<Rightarrow> string \<Rightarrow> bool \<Rightarrow> nat \<Rightarrow> int \<Rightarrow> schedule_definition svc" where
  "set_enabled env sid enabled expected now =
     svc_bind ensure_accepting (\<lambda>_.
     svc_bind (get_schedule sid) (\<lambda>d.
     svc_bind (svc_lift (first_run env enabled (sd_schedule d) now)) (\<lambda>next_run.
     svc_store (set_schedule_enabled sid enabled expected next_run now))))"

definition remove :: "string \<Rightarrow> bool svc" where
  "remove sid = svc_bind ensure_accepting (\<lambda>_. svc_store (\<lambda>db. Inr (remove_schedule sid db)))"

end
