(* ===== verification/Schedule_Launch.thy ===== *)
theory Schedule_Launch
  imports Schedule_Service
begin

text \<open>
  The second half of the scheduler service: what is due, manual runs and retries, the background
  task of a launch, cancellation, the reconciliation after a start, events.
\<close>

section \<open>Launching\<close>

text \<open>\<open>launch_claim\<close>: the token replaces one the map may hold, and the background task starts.\<close>

definition launch_claim :: "schedule_definition \<Rightarrow> schedule_invocation_claim \<Rightarrow> scheduler \<Rightarrow> scheduler" where
  "launch_claim d claim s =
     (if \<not> ic_should_launch claim then s
      else (let tid = tr_id (ic_task_run claim) in
        s\<lparr>active_launches := filter (\<lambda>(k, _). k \<noteq> tid) (active_launches s) @ [(tid, False)],
          background := background s @ [\<lparr>la_schedule = d, la_task_id = tid, la_phase = Spawned\<rparr>]\<rparr>))"

definition empty_report :: task_report where
  "empty_report = \<lparr>tp_progress = None, tp_result_summary = None, tp_error_code = None,
     tp_error_summary = None, tp_artifact_ids = []\<rparr>"

record schedule_run_completion =
  rn_status :: task_run_status
  rn_result_summary :: "string option"
  rn_error_code :: "string option"
  rn_error_summary :: "string option"
  rn_artifact_ids :: "string list"

type_synonym launch_result = "(string \<times> string, schedule_run_completion) result"

definition completion_of :: "launch_result \<Rightarrow> schedule_run_completion" where
  "completion_of r = (case r of Inr c \<Rightarrow> c
     | Inl (code, message) \<Rightarrow> \<lparr>rn_status = Task_Failed, rn_result_summary = None,
         rn_error_code = Some code, rn_error_summary = Some message, rn_artifact_ids = []\<rparr>)"

definition end_launch :: "launch \<Rightarrow> scheduler \<Rightarrow> scheduler" where
  "end_launch l s = s\<lparr>active_launches := filter (\<lambda>(k, _). k \<noteq> la_task_id l) (active_launches s),
     background := remove1 l (background s)\<rparr>"

section \<open>The background task\<close>

text \<open>The first stretch: the task run is prepared and, unless that fails, handed to the launcher. A
  hook that fails (\<open>hook\<close> is its message) takes the place of the launcher's answer.\<close>

definition start_launch :: "launch \<Rightarrow> string option \<Rightarrow> int \<Rightarrow> scheduler \<Rightarrow> scheduler" where
  "start_launch l hook now s =
     (case transition_task_run (la_task_id l) Task_Preparing empty_report now (schedule_db s) of
        Inl _ \<Rightarrow> end_launch l s
      | Inr (prepared, db) \<Rightarrow>
          (let s = s\<lparr>schedule_db := db,
             background := remove1 l (background s) @ [l\<lparr>la_phase := Launched\<rparr>]\<rparr> in
           if hook = None then s\<lparr>launcher_calls := launcher_calls s @ [prepared]\<rparr> else s))"

definition hook_failure :: "string \<Rightarrow> launch_result" where
  "hook_failure message = Inl (''plugin_schedule_before_hook_failed'', message)"

definition should_stop :: "schedule_definition \<Rightarrow> task_run_status \<Rightarrow> int \<Rightarrow> schedule_db \<Rightarrow> bool" where
  "should_stop current status now db \<longleftrightarrow>
     status = Task_Succeeded \<and> st_stop_after_success (sd_stop_conditions current) \<or>
     reached_limit current db \<or>
     (case st_end_at_ms (sd_stop_conditions current) of None \<Rightarrow> False | Some end_at \<Rightarrow> end_at \<le> now)"

definition apply_stop_conditions :: "schedule_definition \<Rightarrow> task_run_status \<Rightarrow> int \<Rightarrow> unit sched" where
  "apply_stop_conditions d status now db =
     (case find_schedule (sd_id d) db of
        None \<Rightarrow> Inr ((), db)
      | Some current \<Rightarrow>
          if sd_enabled current \<and> should_stop current status now db
          then rbind (set_schedule_enabled (sd_id current) False (sd_config_revision current) None now db)
            (\<lambda>(_, db). Inr ((), db))
          else Inr ((), db))"

text \<open>A store operation whose failure is ignored.\<close>

definition try_store :: "'a sched \<Rightarrow> schedule_db \<Rightarrow> schedule_db" where
  "try_store m db = (case m db of Inl _ \<Rightarrow> db | Inr (_, db') \<Rightarrow> db')"

definition completion_report :: "schedule_run_completion \<Rightarrow> task_report" where
  "completion_report c = \<lparr>tp_progress = Some 100, tp_result_summary = rn_result_summary c,
     tp_error_code = rn_error_code c, tp_error_summary = rn_error_summary c,
     tp_artifact_ids = rn_artifact_ids c\<rparr>"

text \<open>A success of a run that was never reported as running passes through the running status.\<close>

definition pass_running :: "string \<Rightarrow> task_run_status \<Rightarrow> int \<Rightarrow> schedule_db \<Rightarrow> schedule_db" where
  "pass_running tid status now db =
     (if status = Task_Succeeded \<and>
         (case find_task tid db of None \<Rightarrow> False | Some t \<Rightarrow> tr_status t = Task_Preparing)
      then try_store (transition_task_run tid Task_Running (empty_report\<lparr>tp_progress := Some 0\<rparr>) now) db
      else db)"

text \<open>The second stretch: \<open>delivered\<close> is the answer of the notification adapter.\<close>

definition settle_launch :: "launch \<Rightarrow> launch_result \<Rightarrow> bool \<Rightarrow> int \<Rightarrow> schedule_db \<Rightarrow> schedule_db" where
  "settle_launch l result delivered now db =
     (let c = completion_of result; tid = la_task_id l;
          db = pass_running tid (rn_status c) now db in
      case transition_task_run tid (rn_status c) (completion_report c) now db of
        Inl _ \<Rightarrow> db
      | Inr (task, db) \<Rightarrow>
          (let db = try_store (apply_stop_conditions (la_schedule l) (rn_status c) now) db in
           if sd_delivery_policy (la_schedule l) = TaskTabAndSystemNotification
           then try_store (update_task_delivery (tr_id task) (if delivered then Delivered else Delivery_Failed)
             (if delivered then None else Some ''system_notification_failed'') now) db
           else db))"

definition finish_launch :: "launch \<Rightarrow> launch_result \<Rightarrow> bool \<Rightarrow> int \<Rightarrow> scheduler \<Rightarrow> scheduler" where
  "finish_launch l result delivered now s =
     end_launch l (s\<lparr>schedule_db := settle_launch l result delivered now (schedule_db s)\<rparr>)"

section \<open>Invocations\<close>

definition task_record :: "schedule_definition \<Rightarrow> string \<Rightarrow> task_run_trigger \<Rightarrow> int \<Rightarrow> string \<Rightarrow>
    task_run_status \<Rightarrow> (string \<times> string) option \<Rightarrow> int \<Rightarrow> task_run_record" where
  "task_record d tid trigger scheduled_for key status error now =
     \<lparr>tr_id = tid, tr_schedule_id = Some (sd_id d), tr_schedule_revision = Some (sd_config_revision d),
      tr_trigger = trigger, tr_scheduled_for_ms = Some scheduled_for, tr_event_context = None,
      tr_invocation_key = key, tr_requester_session_id = None, tr_execution_session_id = None,
      tr_run_id = None, tr_status = status, tr_progress_percent = None, tr_result_summary = None,
      tr_error_code = map_option fst error, tr_error_summary = map_option snd error,
      tr_artifact_ids = [], tr_delivery_status = initial_delivery d, tr_delivery_error_code = None,
      tr_created_at_ms = now, tr_started_at_ms = None,
      tr_finished_at_ms = (if task_is_terminal status then Some now else None), tr_updated_at_ms = now\<rparr>"

definition claim_and_launch :: "schedule_definition \<Rightarrow> task_run_record \<Rightarrow> task_run_record svc" where
  "claim_and_launch d t =
     svc_bind (svc_store (claim_schedule_invocation (sd_id d) (sd_config_revision d) t)) (\<lambda>claim s.
     (Inr (ic_task_run claim), launch_claim d claim s))"

definition run_now :: "string \<Rightarrow> string \<Rightarrow> int \<Rightarrow> task_run_record svc" where
  "run_now sid tid now =
     svc_bind ensure_accepting (\<lambda>_.
     svc_bind (get_schedule sid) (\<lambda>d.
     claim_and_launch d (task_record d tid Trigger_Manual now
       (''manual:'' @ sd_id d @ '':'' @ tid) Task_Queued None now)))"

definition retryable :: "task_run_status \<Rightarrow> bool" where
  "retryable s \<longleftrightarrow> s \<in> {Task_Failed, Task_TimedOut, Task_Cancelled, Task_Lost}"

definition retry :: "string \<Rightarrow> string \<Rightarrow> int \<Rightarrow> task_run_record svc" where
  "retry tid retry_id now =
     svc_bind ensure_accepting (\<lambda>_.
     svc_bind (get_task tid) (\<lambda>previous.
     svc_bind (svc_lift (check (retryable (tr_status previous))
       (''TaskRun '' @ tr_id previous @ '' with status '' @ task_run_status_str (tr_status previous) @
        '' is not retryable''))) (\<lambda>_.
     svc_bind (svc_lift (ok_or (InvalidSchedule ''task has no Schedule'') (tr_schedule_id previous))) (\<lambda>sid.
     svc_bind (get_schedule sid) (\<lambda>d.
     claim_and_launch d ((task_record d retry_id Trigger_Retry now
       (''retry:'' @ tid @ '':'' @ retry_id) Task_Queued None now)
         \<lparr>tr_event_context := tr_event_context previous\<rparr>))))))"

definition kept_report :: "task_run_record \<Rightarrow> string \<Rightarrow> string \<Rightarrow> task_report" where
  "kept_report t code summary = \<lparr>tp_progress = tr_progress_percent t,
     tp_result_summary = tr_result_summary t, tp_error_code = Some code,
     tp_error_summary = Some summary, tp_artifact_ids = tr_artifact_ids t\<rparr>"

definition cancel_task :: "string \<Rightarrow> int \<Rightarrow> task_run_record svc" where
  "cancel_task tid now =
     svc_bind (get_task tid) (\<lambda>current.
     if task_is_terminal (tr_status current) then svc_ret current
     else (\<lambda>s. svc_store (transition_task_run tid Task_Cancelled
       (kept_report current ''task_cancelled'' ''the scheduled invocation was cancelled'') now)
       (cancel_launch tid s)))"

section \<open>The due schedules\<close>

definition misfire_grace_ms :: int where
  "misfire_grace_ms = 60000"

definition misfired :: "int \<Rightarrow> int \<Rightarrow> bool" where
  "misfired now scheduled_for \<longleftrightarrow> misfire_grace_ms < sat_i64 (now - scheduled_for)"

fun decimal_int :: "int \<Rightarrow> string" where
  "decimal_int i = (if i < 0 then ''-'' @ decimal (nat (- i)) else decimal (nat i))"

definition occurrence_key :: "schedule_definition \<Rightarrow> int \<Rightarrow> string" where
  "occurrence_key d scheduled_for = ''schedule:'' @ sd_id d @ '':'' @ decimal_int scheduled_for"

definition due_task :: "schedule_definition \<Rightarrow> string \<Rightarrow> int \<Rightarrow> int \<Rightarrow> task_run_record" where
  "due_task d tid scheduled_for now =
     (if misfired now scheduled_for \<and> sd_misfire_policy d = Skip
      then task_record d tid Trigger_Scheduled scheduled_for (occurrence_key d scheduled_for) Task_Skipped
        (Some (''schedule_misfire_skipped'',
           ''the occurrence was missed while the scheduler was not running'')) now
      else task_record d tid (if misfired now scheduled_for then Trigger_CatchUp else Trigger_Scheduled)
        scheduled_for (occurrence_key d scheduled_for) Task_Queued None now)"

definition next_within :: "'z service_env \<Rightarrow> schedule_definition \<Rightarrow> int \<Rightarrow> (scheduler_error, int option) result" where
  "next_within env d now = rbind (service_next env (sd_schedule d) now) (\<lambda>next_run.
     Inr (case next_run of None \<Rightarrow> None | Some t \<Rightarrow> if past_end d t then None else Some t))"

definition move_on :: "schedule_definition \<Rightarrow> int option \<Rightarrow> int \<Rightarrow> unit svc" where
  "move_on d next_run now = (case sd_schedule d of
       At _ \<Rightarrow> svc_bind (svc_store (set_schedule_enabled (sd_id d) False (sd_config_revision d) None now))
         (\<lambda>_. svc_ret ())
     | Event _ \<Rightarrow> svc_ret ()
     | _ \<Rightarrow> svc_store (update_schedule_next_run (sd_id d) next_run now))"

definition trigger_one :: "'z service_env \<Rightarrow> (string \<Rightarrow> string) \<Rightarrow> int \<Rightarrow> schedule_definition \<Rightarrow>
    task_run_record list svc" where
  "trigger_one env fresh now d =
     (let scheduled_for = (case sd_next_run_at_ms d of None \<Rightarrow> now | Some t \<Rightarrow> t) in
      svc_bind (svc_gets (\<lambda>s. reached_limit d (schedule_db s))) (\<lambda>limit.
      if limit \<or> past_end d scheduled_for
      then svc_bind (svc_store (set_schedule_enabled (sd_id d) False (sd_config_revision d) None now))
        (\<lambda>_. svc_ret [])
      else
        svc_bind (svc_store (claim_schedule_invocation (sd_id d) (sd_config_revision d)
          (due_task d (fresh (sd_id d)) scheduled_for now))) (\<lambda>claim.
        svc_bind (svc_lift (next_within env d now)) (\<lambda>next_run.
        svc_bind (move_on d next_run now) (\<lambda>_ s.
        (Inr [ic_task_run claim], launch_claim d claim s))))))"

fun trigger_all :: "'z service_env \<Rightarrow> (string \<Rightarrow> string) \<Rightarrow> int \<Rightarrow> schedule_definition list \<Rightarrow>
    task_run_record list svc" where
  "trigger_all env fresh now [] = svc_ret []"
| "trigger_all env fresh now (d # ds) =
     svc_bind (trigger_one env fresh now d) (\<lambda>tasks.
     svc_bind (trigger_all env fresh now ds) (\<lambda>rest. svc_ret (tasks @ rest)))"

definition trigger_due :: "'z service_env \<Rightarrow> (string \<Rightarrow> string) \<Rightarrow> int \<Rightarrow> task_run_record list svc" where
  "trigger_due env fresh now =
     svc_bind (svc_gets (\<lambda>s. list_due_schedules now (schedule_db s))) (trigger_all env fresh now)"

section \<open>After a start\<close>

fun linked_task_status :: "run_status \<Rightarrow> task_run_status" where
  "linked_task_status Succeeded = Task_Succeeded"
| "linked_task_status Failed = Task_Failed"
| "linked_task_status TimedOut = Task_TimedOut"
| "linked_task_status Cancelled = Task_Cancelled"
| "linked_task_status Lost = Task_Lost"
| "linked_task_status Interrupted = Task_NeedsAttention"
| "linked_task_status _ = Task_Running"

text \<open>The fields of a task run as they are.\<close>

definition same_report :: "task_run_record \<Rightarrow> task_report" where
  "same_report t = \<lparr>tp_progress = tr_progress_percent t, tp_result_summary = tr_result_summary t,
     tp_error_code = tr_error_code t, tp_error_summary = tr_error_summary t,
     tp_artifact_ids = tr_artifact_ids t\<rparr>"

definition linked_report :: "task_run_record \<Rightarrow> task_run_status \<Rightarrow> task_report" where
  "linked_report t target =
     (if target = Task_Succeeded
      then \<lparr>tp_progress = Some 100, tp_result_summary = Some ''linked Agent Run completed'',
        tp_error_code = None, tp_error_summary = None, tp_artifact_ids = tr_artifact_ids t\<rparr>
      else kept_report t ''schedule_linked_run_terminal''
        ''the linked Agent Run reached a terminal recovery state'')"

definition reconcile_linked :: "int \<Rightarrow> task_run_record \<Rightarrow> run_record \<Rightarrow> unit svc" where
  "reconcile_linked now t run =
     (let target = linked_task_status (rr_status run) in
      svc_bind (if tr_status t = Task_Preparing \<and> target \<noteq> Task_NeedsAttention
        then svc_store (transition_task_run (tr_id t) Task_Running (same_report t) now)
        else svc_ret t) (\<lambda>t.
      if target \<noteq> Task_Running
      then svc_bind (svc_store (transition_task_run (tr_id t) target (linked_report t target) now)) (\<lambda>_. svc_ret ())
      else svc_ret ()))"

definition relaunch :: "int \<Rightarrow> task_run_record \<Rightarrow> task_run_record list svc" where
  "relaunch now t s =
     (case tr_schedule_id t of
        None \<Rightarrow> (Inr [], s)
      | Some sid \<Rightarrow>
          (case find_schedule sid (schedule_db s) of
             None \<Rightarrow> (Inr [], s\<lparr>schedule_db := try_store (transition_task_run (tr_id t) Task_NeedsAttention
               (empty_report\<lparr>tp_error_code := Some ''schedule_missing'',
                  tp_error_summary := Some ''the Schedule was removed before its queued invocation started''\<rparr>)
               now) (schedule_db s)\<rparr>)
           | Some d \<Rightarrow>
               (Inr [t], launch_claim d \<lparr>ic_task_run = t, ic_should_launch = True\<rparr> s)))"

definition reconcile_one :: "int \<Rightarrow> task_run_record \<Rightarrow> task_run_record list svc" where
  "reconcile_one now t s =
     (if tr_id t \<in> set (map fst (active_launches s)) then (Inr [], s)
      else if tr_status t \<in> {Task_Preparing, Task_Running}
      then
        (if tr_run_id t = None \<and> tr_status t = Task_Preparing
         then svc_bind (svc_store (requeue_unbound_preparing_task_run (tr_id t) now)) (relaunch now) s
         else svc_bind
           (case Option.bind (tr_run_id t) (\<lambda>rid. find (\<lambda>r. rr_id r = rid) (runs (agent (schedule_db s)))) of
              Some run \<Rightarrow> reconcile_linked now t run
            | None \<Rightarrow> svc_bind (svc_store (transition_task_run (tr_id t) Task_NeedsAttention
                (kept_report t ''schedule_run_recovery_indeterminate''
                  ''the linked Agent Run cannot be proven safe to resume'') now)) (\<lambda>_. svc_ret ()))
           (\<lambda>_. svc_ret []) s)
      else relaunch now t s)"

fun reconcile_all :: "(string \<Rightarrow> int) \<Rightarrow> task_run_record list \<Rightarrow> task_run_record list svc" where
  "reconcile_all clock [] = svc_ret []"
| "reconcile_all clock (t # ts) =
     svc_bind (reconcile_one (clock (tr_id t)) t) (\<lambda>tasks.
     svc_bind (reconcile_all clock ts) (\<lambda>rest. svc_ret (tasks @ rest)))"

text \<open>The clock is read while a task run is reconciled; the readings for one task run are taken to be
  equal.\<close>

definition reconcile_startup :: "(string \<Rightarrow> int) \<Rightarrow> task_run_record list svc" where
  "reconcile_startup clock = svc_bind
     (svc_gets (\<lambda>s. filter (\<lambda>t. tr_status t \<in> {Task_Queued, Task_Preparing, Task_Running}) (list_task_runs None 500 (schedule_db s))))
     (reconcile_all clock)"

section \<open>Events\<close>

definition validate_event_envelope :: "schedule_event_envelope \<Rightarrow> (scheduler_error, unit) result" where
  "validate_event_envelope e =
     rbind (validate_event_identity ''event id'' (ee_event_id e) 256) (\<lambda>_.
     rbind (validate_event_identity ''source principal'' (es_principal (ee_source e)) 256) (\<lambda>_.
     rbind (validate_event_identity ''source id'' (es_id (ee_source e)) 256) (\<lambda>_.
     rbind (validate_event_identity ''event type'' (ee_event_type e) 256) (\<lambda>_.
     rbind (check (at_most_chars 512 (ee_subject e)) ''event subject must contain at most 512 characters'') (\<lambda>_.
     rbind (check (length (ee_labels e) \<le> 16) ''event envelope supports at most 16 labels'') (\<lambda>_.
     rbind (validate_labels (ee_labels e)) (\<lambda>_.
     validate_resource (ee_resource e))))))))"

text \<open>\<open>serde_json::to_vec\<close> of the envelope is the parameter \<open>to_json\<close>.\<close>

definition event_fingerprint ::
    "(string \<Rightarrow> string) \<Rightarrow> (schedule_event_envelope \<Rightarrow> string) \<Rightarrow> schedule_event_envelope \<Rightarrow> string" where
  "event_fingerprint sha to_json e = sha (to_json e)"

definition event_context ::
    "(string \<Rightarrow> string) \<Rightarrow> (schedule_event_envelope \<Rightarrow> string) \<Rightarrow> schedule_event_envelope \<Rightarrow> int \<Rightarrow>
      schedule_event_context" where
  "event_context sha to_json e now = \<lparr>ec_event_id = ee_event_id e, ec_source = ee_source e,
     ec_event_type = ee_event_type e, ec_subject = ee_subject e, ec_labels = ee_labels e,
     ec_resource = ee_resource e, ec_fingerprint = event_fingerprint sha to_json e,
     ec_occurred_at_ms = ee_occurred_at_ms e, ec_received_at_ms = now\<rparr>"

definition launch_claims :: "schedule_event_launch_claim list \<Rightarrow> scheduler \<Rightarrow> scheduler" where
  "launch_claims claims = fold (\<lambda>c. launch_claim (eq_schedule c) (eq_claim c)) claims"

definition ingest_event ::
    "(string \<Rightarrow> string) \<Rightarrow> (schedule_event_envelope \<Rightarrow> string) \<Rightarrow> (string \<Rightarrow> string) \<Rightarrow>
      schedule_event_envelope \<Rightarrow> int \<Rightarrow> schedule_event_receipt svc" where
  "ingest_event sha to_json fresh e now =
     svc_bind ensure_accepting (\<lambda>_.
     svc_bind (svc_lift (validate_event_envelope e)) (\<lambda>_.
     svc_bind (svc_store (\<lambda>db. Inr (cleanup_schedule_event_ledger now db))) (\<lambda>_.
     svc_bind (svc_store (ingest_schedule_event sha fresh (event_context sha to_json e now))) (\<lambda>result s.
     (case result of
        ConflictRecorded \<Rightarrow> (Inl (Sched_Store ScheduleEventConflict), s)
      | Ingested claim \<Rightarrow> (Inr (ei_receipt claim), launch_claims (ei_launch_claims claim) s))))))"

end
