(* ===== verification/Schedule_Trigger.thy ===== *)
theory Schedule_Trigger
  imports Schedule_Launch Schedule_Demo Calendar_Props
begin

text \<open>
  What the timer does (\<open>trigger_due\<close>): a pass that succeeds leaves nothing due, and one schedule
  whose next occurrence cannot be computed stops every pass.
\<close>

section \<open>Composition of the service\<close>

named_theorems svc_simps \<open>evaluation of service operations\<close>

lemma svc_bind_Inr_iff:
  "svc_bind m f s = (Inr b, s'') \<longleftrightarrow> (\<exists>a s'. m s = (Inr a, s') \<and> f a s' = (Inr b, s''))"
  by (auto simp: svc_bind_def split: prod.splits sum.splits)

lemma svc_store_Inr_iff:
  "svc_store m s = (Inr a, s') \<longleftrightarrow> (\<exists>db. m (schedule_db s) = Inr (a, db) \<and> s' = s\<lparr>schedule_db := db\<rparr>)"
  by (auto simp: svc_store_def split: sum.splits)

lemma svc_eval [svc_simps]:
  "svc_ret a s = (Inr a, s)"
  "svc_lift r s = (r, s)"
  "svc_gets f s = (Inr (f s), s)"
  by (simp_all add: svc_ret_def svc_lift_def svc_gets_def)

lemmas svc_Inr = svc_bind_Inr_iff svc_store_Inr_iff svc_simps

lemma launch_claim_db [simp]: "schedule_db (launch_claim d c s) = schedule_db s"
  by (simp add: launch_claim_def Let_def)

section \<open>The next occurrence is later\<close>

text \<open>Anchors and clocks after the epoch keep the arithmetic of intervals away from its limits.\<close>

definition sane_spec :: "schedule_spec \<Rightarrow> bool" where
  "sane_spec spec \<longleftrightarrow> (case spec of Every _ anchor \<Rightarrow> 0 \<le> anchor \<and> is_i64 anchor | _ \<Rightarrow> True)"

lemma every_next_later:
  assumes "every_occurrences interval anchor now (Suc 0) = Inr vs" and "0 \<le> anchor" and "is_i64 anchor"
    and "0 \<le> now" and "is_i64 now"
  shows "\<exists>v. vs = [v] \<and> now < v"
proof -
  let ?i = "int interval"
  let ?steps = "if sat_i64 (now - anchor) < 0 then 0 else sat_i64 (sat_i64 (now - anchor) div ?i + 1)"
  let ?next = "sat_i64 (anchor + sat_i64 (?steps * ?i))"
  have i: "60000 \<le> ?i" "is_i64 ?i" and vs: "vs = [?next]" and fit: "is_i64 (?next + ?i)"
    using assms(1)
    by (auto simp: every_occurrences_def Let_def min_every_interval_ms_def rbind_Inr_iff
        split: if_splits option.splits)
  have d: "is_i64 (now - anchor)" using assms(2-5) by (simp add: is_i64_def i64_min_def i64_max_def)
  have small: "?next < i64_max" using fit i(1) by (simp add: is_i64_def)
  have "now < ?next"
  proof (cases "now < anchor")
    case True
    moreover have "sat_i64 0 = 0" by (simp add: sat_i64_def i64_min_def i64_max_def)
    ultimately show ?thesis using assms(3) d by (simp add: sat_i64_id)
  next
    case False
    define q where "q = (now - anchor) div ?i"
    have "now - anchor = q * ?i + (now - anchor) mod ?i" unfolding q_def by (rule div_mult_mod_eq [symmetric])
    moreover have "(now - anchor) mod ?i < ?i" using i(1) by (intro pos_mod_bound) simp
    moreover have "(q + 1) * ?i = q * ?i + ?i" by (simp add: distrib_right)
    ultimately have "now - anchor < (q + 1) * ?i" by linarith
    moreover have "0 \<le> q" using False i(1) by (simp add: q_def pos_imp_zdiv_nonneg_iff)
    ultimately have q: "0 \<le> q" "now - anchor < (q + 1) * ?i" by simp_all
    have "q * 60000 \<le> q * ?i" using q(1) i(1) by (intro mult_left_mono) simp_all
    moreover have "q * ?i \<le> now - anchor"
      using div_mult_mod_eq [of "now - anchor" ?i] pos_mod_sign [of ?i "now - anchor"] i(1)
      unfolding q_def by linarith
    ultimately have "q * 60000 \<le> now - anchor" by simp
    then have "is_i64 (q + 1)" using q(1) assms(2,5)
      by (simp add: is_i64_def i64_min_def i64_max_def)
    then have nx: "?next = sat_i64 (anchor + sat_i64 ((q + 1) * ?i))"
      using False d by (simp add: sat_i64_id q_def)
    have "0 \<le> (q + 1) * ?i" using q(1) i(1) by simp
    then have "?next = anchor + (q + 1) * ?i"
      using small assms(2) unfolding nx by (auto simp: sat_i64_def i64_min_def min_def max_def split: if_splits)
    then show ?thesis using q(2) by simp
  qed
  then show ?thesis using vs by simp
qed

lemma service_next_later:
  assumes "service_next env spec now = Inr (Some t)" and "sane_spec spec" and "0 \<le> now" and "is_i64 now"
  shows "now < t"
proof -
  obtain ws where ws: "occurrences_after (calendar env) spec now 1 = Inr ws"
      "(case ws of [] \<Rightarrow> None | v # _ \<Rightarrow> Some v) = Some t"
    using assms(1) by (auto simp: service_next_def map_error_def next_occurrence_def rbind_Inr_iff
        split: sum.splits)
  then obtain vs where vs: "occurrences_after (calendar env) spec now 1 = Inr (t # vs)"
    by (cases ws) auto
  show ?thesis
  proof (cases spec)
    case (Every interval anchor)
    then show ?thesis using vs every_next_later [of interval anchor now "t # vs"] assms(2-4)
      by (auto simp: sane_spec_def)
  next
    case (Cron expression timezone)
    then obtain cron start where
      "cron_search (calendar env) timezone cron now 1 max_cron_search_steps start [] = Inr (t # vs)"
      using vs by (auto simp: cron_occurrences_def rbind_Inr_iff split: if_splits)
    from cron_search_sound [OF this] show ?thesis by simp
  qed (use vs in \<open>auto split: if_splits\<close>)
qed

section \<open>A pass of the timer\<close>

definition due_row :: "int \<Rightarrow> schedule_definition \<Rightarrow> bool" where
  "due_row now d \<longleftrightarrow> sd_enabled d \<and> sd_health d = Healthy \<and>
     (case sd_next_run_at_ms d of None \<Rightarrow> False | Some t \<Rightarrow> t \<le> now)"

lemma set_list_due: "set (list_due_schedules now db) = {d \<in> set (definitions db). due_row now d}"
  by (simp add: list_due_schedules_def due_row_def)

text \<open>What a step of the pass does to the definitions: the row of its schedule is not due any more, the
  others are as they were.\<close>

definition handled :: "int \<Rightarrow> schedule_definition \<Rightarrow> schedule_db \<Rightarrow> schedule_db \<Rightarrow> bool" where
  "handled now d db db' \<longleftrightarrow> (\<exists>f. definitions db' = update_where (\<lambda>r. sd_id r = sd_id d) f (definitions db) \<and>
     (\<forall>r. r \<in> set (definitions db) \<and> sd_id r = sd_id d \<longrightarrow> sd_id (f r) = sd_id d \<and> \<not> due_row now (f r)))"

lemma handledI:
  assumes "definitions db' = update_where p f (definitions db)"
    and "\<And>r. r \<in> set (definitions db) \<Longrightarrow> p r = (sd_id r = sd_id d)"
    and "\<And>r. sd_id (f r) = sd_id r" and "\<And>r. r \<in> set (definitions db) \<Longrightarrow> sd_id r = sd_id d \<Longrightarrow> \<not> due_row now (f r)"
  shows "handled now d db db'"
proof -
  have "update_where p f (definitions db) = update_where (\<lambda>r. sd_id r = sd_id d) f (definitions db)"
    using assms(2) unfolding update_where_def by (intro map_cong) auto
  then show ?thesis unfolding handled_def using assms by auto
qed

lemma handled_disable:
  assumes "distinct (map sd_id (definitions db))" and "d \<in> set (definitions db)"
    and "set_schedule_enabled (sd_id d) False (sd_config_revision d) None now db = Inr (r, db')"
  shows "handled now d db db'"
proof -
  let ?hit = "\<lambda>x. sd_id x = sd_id d \<and> sd_config_revision x = column_u64 (sd_config_revision d)"
  have hit: "list_ex ?hit (definitions db)" and db': "db' = update_schedules ?hit
      (\<lambda>d. d\<lparr>sd_enabled := False, sd_next_run_at_ms := None,
         sd_config_revision := sd_config_revision d + 1, sd_updated_at_ms := now\<rparr>) db"
    using assms(3) by (auto simp: set_schedule_enabled_def Let_def rbind_Inr_iff split: if_splits)
  have same: "x = d" if "x \<in> set (definitions db)" "sd_id x = sd_id d" for x
    using key_unique [OF assms(1) that(1) assms(2) that(2)] .
  then have "?hit d" using hit by (auto simp: list_ex_iff)
  let ?off = "\<lambda>d. d\<lparr>sd_enabled := False, sd_next_run_at_ms := None,
    sd_config_revision := sd_config_revision d + 1, sd_updated_at_ms := now\<rparr>"
  show ?thesis
    by (rule handledI [where p = ?hit and f = ?off])
      (use same \<open>?hit d\<close> in \<open>auto simp: db' update_schedules_def due_row_def\<close>)
qed

lemma handled_next_run:
  assumes "update_schedule_next_run (sd_id d) n now db = Inr (r, db')" and "\<And>t. n = Some t \<Longrightarrow> now < t"
  shows "handled now d db db'"
  by (rule handledI [where p = "\<lambda>r. sd_id r = sd_id d" and f = "\<lambda>d. d\<lparr>sd_next_run_at_ms := n, sd_updated_at_ms := now\<rparr>"])
    (use assms in \<open>auto simp: update_schedule_next_run_def update_schedules_def due_row_def
      split: if_splits option.splits dest!: assms(2)\<close>)

lemma handled_frame: "handled now d db db' \<Longrightarrow> definitions db1 = definitions db \<Longrightarrow> handled now d db1 db'"
  by (simp add: handled_def)

text \<open>An event schedule has no next run.\<close>

definition sane_schedule :: "schedule_definition \<Rightarrow> bool" where
  "sane_schedule d \<longleftrightarrow> sane_spec (sd_schedule d) \<and> (is_event (sd_schedule d) \<longrightarrow> sd_next_run_at_ms d = None)"

lemma trigger_one_handled:
  assumes "trigger_one env fresh now d s = (Inr ts, s')"
    and "distinct (map sd_id (definitions (schedule_db s)))" and "d \<in> set (definitions (schedule_db s))"
    and "due_row now d" and "sane_schedule d" and "0 \<le> now" and "is_i64 now"
  shows "handled now d (schedule_db s) (schedule_db s')"
proof -
  let ?for = "case sd_next_run_at_ms d of None \<Rightarrow> now | Some t \<Rightarrow> t"
  have same: "x = d" if "x \<in> set (definitions (schedule_db s))" "sd_id x = sd_id d" for x
    using key_unique [OF assms(2) that(1) assms(3) that(2)] .
  show ?thesis
  proof (cases "reached_limit d (schedule_db s) \<or> past_end d ?for")
    case True
    then show ?thesis
      using assms(1) handled_disable [OF assms(2,3)] by (auto simp: trigger_one_def Let_def svc_Inr)
  next
    case False
    then obtain c db1 n s2 where c: "claim_schedule_invocation (sd_id d) (sd_config_revision d)
          (due_task d (fresh (sd_id d)) ?for now) (schedule_db s) = Inr (c, db1)"
        and n: "next_within env d now = Inr n"
        and m: "move_on d n now (s\<lparr>schedule_db := db1\<rparr>) = (Inr (), s2)" and s': "schedule_db s' = schedule_db s2"
      using assms(1) by (auto simp: trigger_one_def Let_def svc_Inr)
    have same_defs: "definitions db1 = definitions (schedule_db s)" by (rule claim_frame(1) [OF c])
    have later: "n = Some t \<Longrightarrow> now < t" for t
      using n service_next_later [of env "sd_schedule d" now] assms(5-7)
      by (auto simp: next_within_def rbind_Inr_iff sane_schedule_def split: option.splits if_splits)
    have "handled now d db1 (schedule_db s2)"
    proof (cases "sd_schedule d")
      case (At t)
      then show ?thesis
        using m handled_disable [of db1 d now] assms(2,3) same_defs by (auto simp: move_on_def svc_Inr)
    next
      case (Event matcher)
      then show ?thesis using assms(4,5) by (auto simp: due_row_def sane_schedule_def)
    next
      case (Every interval anchor)
      then have "update_schedule_next_run (sd_id d) n now db1 = Inr ((), schedule_db s2)"
        using m by (auto simp: move_on_def svc_Inr)
      then show ?thesis using later by (rule handled_next_run)
    next
      case (Cron expression timezone)
      then have "update_schedule_next_run (sd_id d) n now db1 = Inr ((), schedule_db s2)"
        using m by (auto simp: move_on_def svc_Inr)
      then show ?thesis using later by (rule handled_next_run)
    qed
    then show ?thesis using handled_frame [OF _ same_defs [symmetric]] s' by simp
  qed
qed

lemma trigger_all_drains:
  "trigger_all env fresh now ds s = (Inr ts, s') \<Longrightarrow> distinct (map sd_id ds) \<Longrightarrow>
    distinct (map sd_id (definitions (schedule_db s))) \<Longrightarrow>
    {r \<in> set (definitions (schedule_db s)). due_row now r} = set ds \<Longrightarrow>
    \<forall>d \<in> set ds. sane_schedule d \<Longrightarrow> 0 \<le> now \<Longrightarrow> is_i64 now \<Longrightarrow>
    {r \<in> set (definitions (schedule_db s')). due_row now r} = {}"
proof (induction ds arbitrary: s ts)
  case Nil
  then show ?case by (auto simp: svc_Inr)
next
  case (Cons d ds)
  then obtain t s1 ts' where one: "trigger_one env fresh now d s = (Inr t, s1)"
      and rest: "trigger_all env fresh now ds s1 = (Inr ts', s')"
    by (auto simp: svc_Inr)
  have d: "d \<in> set (definitions (schedule_db s))" "due_row now d" using Cons.prems(4) by auto
  obtain f where f: "definitions (schedule_db s1) = update_where (\<lambda>r. sd_id r = sd_id d) f (definitions (schedule_db s))"
      "\<And>r. r \<in> set (definitions (schedule_db s)) \<Longrightarrow> sd_id r = sd_id d \<Longrightarrow> sd_id (f r) = sd_id d \<and> \<not> due_row now (f r)"
    using trigger_one_handled [OF one Cons.prems(3) d] Cons.prems(5-7) unfolding handled_def by auto
  have ids: "map sd_id (definitions (schedule_db s1)) = map sd_id (definitions (schedule_db s))"
    unfolding f(1) by (rule map_update_where) (use f(2) in auto)
  have "r \<in> set ds \<longleftrightarrow> r \<in> set (definitions (schedule_db s1)) \<and> due_row now r" for r
  proof -
    have "sd_id r \<noteq> sd_id d" if "r \<in> set ds" using other_key [OF Cons.prems(2) that] .
    moreover have "r = d" if "r \<in> set (definitions (schedule_db s))" "sd_id r = sd_id d"
      using key_unique [OF Cons.prems(3) that(1) d(1) that(2)] .
    moreover have "r \<in> set (definitions (schedule_db s)) \<and> due_row now r \<longleftrightarrow> r = d \<or> r \<in> set ds"
      using Cons.prems(4) by auto
    ultimately show ?thesis
      unfolding f(1) set_update_where using f(2) by auto
  qed
  then show ?case
    using Cons.IH [OF rest] Cons.prems ids by (metis (no_types, lifting) Collect_cong distinct.simps(2)
        list.set_intros(2) list.simps(9) mem_Collect_eq set_def Collect_mem_eq)
qed

lemma list_due_distinct:
  "distinct (map sd_id (definitions db)) \<Longrightarrow> distinct (map sd_id (list_due_schedules now db))"
  by (simp add: list_due_schedules_def distinct_map inj_on_def)

lemma wakeup_due:
  assumes "next_schedule_wakeup db = Some t" and "t \<le> now"
  shows "list_due_schedules now db \<noteq> []"
proof -
  have "t \<in> set (List.map_filter (\<lambda>d. if sd_enabled d \<and> sd_health d = Healthy then sd_next_run_at_ms d else None)
      (definitions db))"
    using assms(1) unfolding next_schedule_wakeup_def
    by (metis (no_types, lifting) list.case_eq_if list.set_sel(1) option.distinct(1) option.inject set_sort)
  then obtain d where "d \<in> set (definitions db)" "due_row now d"
    using assms(2) by (auto simp: List.map_filter_def due_row_def split: if_splits)
  then show ?thesis using set_list_due [of now db] by force
qed


section \<open>A schedule that fails\<close>

text \<open>One schedule whose next occurrence cannot be computed stops the timer for all of them. The
  pass has already claimed its occurrence when it fails, so a task run stays queued that nobody
  launches; the schedule stays due and comes first again, and the schedules after it are not
  reached, in this pass or in the next.\<close>

theorem failing_schedule_blocks:
  assumes "list_due_schedules now (schedule_db s) = d # ds" and "sd_next_run_at_ms d = Some t"
    and "\<not> reached_limit d (schedule_db s)" and "\<not> past_end d t"
    and "claim_schedule_invocation (sd_id d) (sd_config_revision d) (due_task d (fresh (sd_id d)) t now)
      (schedule_db s) = Inr (claim, db)"
    and "next_within env d now = Inl e"
  shows "\<exists>s'. trigger_due env fresh now s = (Inl e, s') \<and> schedule_db s' = db \<and>
    background s' = background s \<and> list_due_schedules now (schedule_db s') = d # ds"
proof -
  have "definitions db = definitions (schedule_db s)" by (rule claim_frame(1) [OF assms(5)])
  then have "list_due_schedules now db = d # ds" using assms(1) by (simp add: list_due_schedules_def)
  moreover have "trigger_due env fresh now s = (Inl e, s\<lparr>schedule_db := db\<rparr>)"
    using assms by (simp add: trigger_due_def trigger_one_def svc_bind_def svc_store_def svc_simps Let_def)
  ultimately show ?thesis by simp
qed

section \<open>Witnesses\<close>

definition quiet_os :: os_env where
  "quiet_os = \<lparr>cfg_windows = False, parse_path = unix_parse, show_path = unix_show,
     canonicalize = (\<lambda>_. None), is_dir = (\<lambda>_. False), is_file = (\<lambda>_. False),
     to_lowercase = to_ascii_lowercase, parse_url = (\<lambda>_. None)\<rparr>"

definition demo_env :: "unit service_env" where
  "demo_env = \<lparr>calendar = plain_env, os = quiet_os\<rparr>"

text \<open>The schedule of the demonstration, due at sixty seconds.\<close>

definition demo_due :: schedule_db where
  "demo_due = db_after (update_schedule_next_run ''s'' (Some 60000) 0) demo_created"

definition demo_service :: "schedule_db \<Rightarrow> scheduler" where
  "demo_service db = \<lparr>schedule_db = db, accepting = True, active_launches = [], background = [],
     launcher_calls = []\<rparr>"

lemma demo_due_reachable: "schedule_reachable demo_due"
  unfolding demo_due_def by (rule reachable_db_after [OF demo_schedule_reachable(1)]) (rule schedule_step.intros)

lemma demo_due_nf:
  "demo_due = demo_created\<lparr>definitions :=
     [(plain_schedule ''s'' (Every 60000 0))\<lparr>sd_next_run_at_ms := Some 60000\<rparr>]\<rparr>"
  unfolding demo_due_def demo_created_nf
  by (simp add: db_after_def update_schedule_next_run_def find_schedule_def update_schedules_def plain_schedule_def)

lemmas trigger_eval = trigger_due_def trigger_one_def svc_bind_def svc_store_def svc_simps Let_def
  list_due_schedules_def reached_limit_def past_end_def due_task_def task_record_def misfired_def
  misfire_grace_ms_def sat_i64_def i64_min_def i64_max_def next_within_def service_next_def map_error_def
  next_occurrence_def every_occurrences_def min_every_interval_ms_def checked_i64_def is_i64_def
  move_on_def update_schedule_next_run_def initial_delivery_def demo_service_def occurrence_key_def

lemma demo_trigger:
  "\<exists>ts s'. trigger_due demo_env (\<lambda>_. ''t'') 60000 (demo_service demo_due) = (Inr ts, s')"
  unfolding demo_due_nf demo_created_nf demo_env_def
  by (simp add: trigger_eval demo_eval plain_schedule_def)


text \<open>A schedule of every day whose time zone has become unavailable.\<close>

definition broken_env :: "unit service_env" where
  "broken_env = \<lparr>calendar = plain_env\<lparr>utc_to_local := (\<lambda>z _. Inl (TimeZoneUnavailable z))\<rparr>, os = quiet_os\<rparr>"

definition demo_cron :: schedule_db where
  "demo_cron = demo_created\<lparr>definitions :=
     [(plain_schedule ''s'' (Cron ''*/30 * * * *'' ''UTC''))\<lparr>sd_next_run_at_ms := Some 60000\<rparr>]\<rparr>"

lemma broken_next:
  "next_within broken_env ((plain_schedule ''s'' (Cron ''*/30 * * * *'' ''UTC''))\<lparr>sd_next_run_at_ms := Some 60000\<rparr>) 60000 =
    Inl (InvalidSchedule (''schedule_timezone_runtime_unavailable: '' @
      ''timezone runtime is unavailable: UTC''))"
  by (simp add: next_within_def service_next_def map_error_def next_occurrence_def cron_occurrences_def
      fold_steps(1) half_hours_parse broken_env_def plain_schedule_def)

theorem failing_schedule_blocks_witness:
  "\<exists>e s'. trigger_due broken_env (\<lambda>_. ''t'') 60000 (demo_service demo_cron) = (Inl e, s') \<and>
    background s' = [] \<and> list_due_schedules 60000 (schedule_db s') \<noteq> []"
proof -
  let ?d = "(plain_schedule ''s'' (Cron ''*/30 * * * *'' ''UTC''))\<lparr>sd_next_run_at_ms := Some 60000\<rparr>"
  have due: "list_due_schedules 60000 (schedule_db (demo_service demo_cron)) = [?d]"
    by (simp add: demo_cron_def demo_service_def list_due_schedules_def plain_schedule_def)
  have "\<exists>c db. claim_schedule_invocation (sd_id ?d) (sd_config_revision ?d) (due_task ?d ''t'' 60000 60000)
      (schedule_db (demo_service demo_cron)) = Inr (c, db)"
    unfolding demo_cron_def demo_created_nf by (simp add: trigger_eval demo_eval plain_schedule_def)
  then obtain c db where c: "claim_schedule_invocation (sd_id ?d) (sd_config_revision ?d)
      (due_task ?d ''t'' 60000 60000) (schedule_db (demo_service demo_cron)) = Inr (c, db)" by blast
  have "\<not> reached_limit ?d (schedule_db (demo_service demo_cron))" "\<not> past_end ?d 60000"
    by (simp_all add: reached_limit_def past_end_def plain_schedule_def)
  from failing_schedule_blocks [OF due _ this, where fresh = "\<lambda>_. ''t''", OF _ c broken_next]
  show ?thesis by (auto simp: demo_service_def)
qed

end
