(* ===== verification/Schedule_Running.thy ===== *)
theory Schedule_Running
  imports Schedule_Trigger
begin

text \<open>
  The scheduler service as a transition system: its methods, the two stretches of each background
  task, what the launcher and other commands do to the store meanwhile, and restarts. No task run
  is ever executed by two background tasks, and each of them can be cancelled.
\<close>

section \<open>The invariant\<close>

definition task_ids :: "schedule_db \<Rightarrow> string set" where
  "task_ids db = tr_id ` set (task_rows db)"

definition service_ok :: "scheduler \<Rightarrow> bool" where
  "service_ok s \<longleftrightarrow> schedule_ok (schedule_db s) \<and> distinct (map la_task_id (background s)) \<and>
     distinct (map fst (active_launches s)) \<and>
     la_task_id ` set (background s) = fst ` set (active_launches s) \<and>
     fst ` set (active_launches s) \<subseteq> task_ids (schedule_db s)"

lemma step_ok_ids: "step_ok db db' \<Longrightarrow> task_ids db \<subseteq> task_ids db'"
proof
  fix i assume "step_ok db db'" "i \<in> task_ids db"
  then obtain t t' where "tr_id t = i" "t' \<in> set (task_rows db')" "task_le t t'"
    unfolding step_ok_def schedule_le_def task_ids_def by (metis imageE task_order.evolves_row)
  then show "i \<in> task_ids db'" unfolding task_ids_def task_le_def by (metis image_eqI)
qed

lemma service_ok_db: "service_ok s \<Longrightarrow> step_ok (schedule_db s) db \<Longrightarrow> service_ok (s\<lparr>schedule_db := db\<rparr>)"
  using step_ok_ids [of "schedule_db s" db] by (auto simp: service_ok_def step_ok_def)

section \<open>Operations keep it\<close>

text \<open>\<open>carried s s'\<close>: the invariant holds after, and the tables only moved forward.\<close>

definition carried :: "scheduler \<Rightarrow> scheduler \<Rightarrow> bool" where
  "carried s s' \<longleftrightarrow> service_ok s' \<and> step_ok (schedule_db s) (schedule_db s')"

lemma carried_refl: "service_ok s \<Longrightarrow> carried s s"
  by (simp add: carried_def service_ok_def step_ok_refl)

lemma carried_trans: "carried s s' \<Longrightarrow> carried s' s'' \<Longrightarrow> carried s s''"
  by (auto simp: carried_def intro: step_ok_trans)

lemma carried_ok: "carried s s' \<Longrightarrow> service_ok s'"
  by (simp add: carried_def)

lemma carried_ids: "carried s s' \<Longrightarrow> i \<in> task_ids (schedule_db s) \<Longrightarrow> i \<in> task_ids (schedule_db s')"
  using step_ok_ids by (auto simp: carried_def)

lemma carried_db: "service_ok s \<Longrightarrow> step_ok (schedule_db s) db \<Longrightarrow> carried s (s\<lparr>schedule_db := db\<rparr>)"
  by (simp add: carried_def service_ok_db)

lemma carriedI: "service_ok s' \<Longrightarrow> schedule_db s' = schedule_db s \<Longrightarrow> carried s s'"
  by (simp add: carried_def step_ok_refl service_ok_def)

definition keeps :: "'a svc \<Rightarrow> bool" where
  "keeps m \<longleftrightarrow> (\<forall>s. service_ok s \<longrightarrow> carried s (snd (m s)))"

lemma keepsD: "keeps m \<Longrightarrow> service_ok s \<Longrightarrow> m s = (r, s') \<Longrightarrow> carried s s'"
  by (metis keeps_def snd_conv)

lemma keeps_pure: "keeps (svc_ret a)" "keeps (svc_lift r)" "keeps (svc_gets f)" "keeps ensure_accepting"
    "keeps (get_schedule sid)" "keeps (get_task tid)"
  by (simp_all add: keeps_def svc_simps ensure_accepting_def get_schedule_def get_task_def svc_bind_def carried_refl
      split: sum.splits)

lemma keeps_bind:
  assumes "keeps m" and "\<And>a. keeps (f a)"
  shows "keeps (svc_bind m f)"
  unfolding keeps_def
proof (intro allI impI)
  fix s assume s: "service_ok s"
  obtain r s' where m: "m s = (r, s')" by (cases "m s")
  note first = keepsD [OF assms(1) s m]
  then have "carried s' (snd (f a s'))" for a
    using assms(2) carried_ok by (auto simp: keeps_def)
  then show "carried s (snd (svc_bind m f s))"
    using first m by (auto simp: svc_bind_def split: sum.split intro: carried_trans)
qed

lemma keeps_store:
  assumes "\<And>db r db'. schedule_ok db \<Longrightarrow> m db = Inr (r, db') \<Longrightarrow> step_ok db db'"
  shows "keeps (svc_store m)"
  unfolding keeps_def
proof (intro allI impI)
  fix s assume s: "service_ok s"
  then have "carried s (s\<lparr>schedule_db := db\<rparr>)" if "m (schedule_db s) = Inr (r, db)" for r db
    using carried_db [OF s assms [OF _ that]] by (simp add: service_ok_def)
  with s show "carried s (snd (svc_store m s))"
    by (auto simp: svc_store_def carried_refl split: sum.splits)
qed

text \<open>A claim that is to be launched is not running yet.\<close>

definition launchable :: "schedule_invocation_claim \<Rightarrow> scheduler \<Rightarrow> bool" where
  "launchable c s \<longleftrightarrow> (ic_should_launch c \<longrightarrow>
     tr_id (ic_task_run c) \<notin> fst ` set (active_launches s) \<and> tr_id (ic_task_run c) \<in> task_ids (schedule_db s))"

lemma claim_new:
  assumes "claim_schedule_invocation sid n t db = Inr (c, db')" and "ic_should_launch c"
  shows "tr_id (ic_task_run c) \<notin> task_ids db" and "tr_id (ic_task_run c) \<in> task_ids db'"
  using assms(1)
  by (cases rule: claim_cases; use assms(2) in \<open>auto simp: insert_task_run_def task_row_ok_def find_task_None_iff
      point_runtime_def update_runtime_def task_ids_def stored_task_def split: if_splits\<close>)+

lemma claim_launchable:
  assumes "service_ok s" and "svc_store (claim_schedule_invocation sid n t) s = (Inr c, s')"
  shows "carried s s' \<and> launchable c s'"
proof -
  obtain db where db: "claim_schedule_invocation sid n t (schedule_db s) = Inr (c, db)" "s' = s\<lparr>schedule_db := db\<rparr>"
    using assms(2) by (auto simp: svc_store_Inr_iff)
  have "step_ok (schedule_db s) db" using ok_claim [OF _ db(1)] assms(1) by (simp add: service_ok_def)
  then show ?thesis
    using carried_db [OF assms(1)] claim_new [OF db(1)] assms(1) db(2)
    by (auto simp: launchable_def service_ok_def)
qed

lemma launch_claim_ok: "service_ok s \<Longrightarrow> launchable c s \<Longrightarrow> carried s (launch_claim d c s)"
proof (rule carriedI)
  assume a: "service_ok s" "launchable c s"
  have "filter (\<lambda>(k, _). k \<noteq> i) ls = ls" if "i \<notin> fst ` set ls" for i and ls :: "(string \<times> bool) list"
    using that by (induction ls) auto
  then show "service_ok (launch_claim d c s)"
    using a by (cases "ic_should_launch c") (simp_all add: launch_claim_def Let_def service_ok_def launchable_def)
qed simp

lemma claim_then_launch:
  assumes "service_ok s" and "svc_store (claim_schedule_invocation sid n t) s = (Inr c, s1)"
    and "carried s1 s2" and "active_launches s2 = active_launches s1"
  shows "carried s2 (launch_claim d c s2)"
  using claim_launchable [OF assms(1,2)] assms(3,4) carried_ids [OF assms(3)]
  by (intro launch_claim_ok carried_ok [OF assms(3)]) (auto simp: launchable_def)

lemma keeps_claim: "keeps (svc_store (claim_schedule_invocation sid n t))"
  by (rule keeps_store) (rule ok_claim)

lemma keeps_requeue: "keeps (svc_store (requeue_unbound_preparing_task_run tid now))"
  by (rule keeps_store) (rule ok_requeue)

lemma keeps_claim_and_launch: "keeps (claim_and_launch d t)"
  unfolding keeps_def
proof (intro allI impI)
  fix s assume s: "service_ok s"
  let ?m = "svc_store (claim_schedule_invocation (sd_id d) (sd_config_revision d) t)"
  obtain r s1 where m: "?m s = (r, s1)" by (cases "?m s")
  note c = keepsD [OF keeps_claim s m]
  have "carried s (launch_claim d claim s1)" if "r = Inr claim" for claim
    by (rule carried_trans [OF c claim_then_launch [OF s m [unfolded that] carried_refl [OF carried_ok [OF c]] refl]])
  with c show "carried s (snd (claim_and_launch d t s))"
    by (auto simp: claim_and_launch_def svc_bind_def m split: sum.split)
qed

lemma keeps_set_enabled_store: "keeps (svc_store (set_schedule_enabled sid b n x now))"
  by (rule keeps_store) (rule ok_set_enabled)

lemma keeps_move_on: "keeps (move_on d n now)"
  unfolding move_on_def
  by (auto split: schedule_spec.split intro!: keeps_bind keeps_pure keeps_set_enabled_store keeps_store ok_next_run)

lemma move_on_active: "move_on d n now s = (r, s') \<Longrightarrow> active_launches s' = active_launches s"
  by (auto simp: move_on_def svc_bind_def svc_store_def svc_simps split: schedule_spec.splits sum.splits)

lemma keeps_trigger_one: "keeps (trigger_one env fresh now d)"
  unfolding keeps_def
proof (intro allI impI)
  fix s assume s: "service_ok s"
  define t where "t = (case sd_next_run_at_ms d of None \<Rightarrow> now | Some t \<Rightarrow> t)"
  show "carried s (snd (trigger_one env fresh now d s))"
  proof (cases "reached_limit d (schedule_db s) \<or> past_end d t")
    case True
    then have "trigger_one env fresh now d s =
        svc_bind (svc_store (set_schedule_enabled (sd_id d) False (sd_config_revision d) None now)) (\<lambda>_. svc_ret []) s"
      by (simp add: trigger_one_def Let_def t_def svc_bind_def [of "svc_gets _"] svc_simps)
    moreover have "keeps (svc_bind (svc_store (set_schedule_enabled (sd_id d) False (sd_config_revision d) None now))
        (\<lambda>_. svc_ret ([] :: task_run_record list)))"
      by (intro keeps_bind keeps_set_enabled_store keeps_pure)
    ultimately show ?thesis using s by (simp add: keeps_def)
  next
    case False
    let ?claim = "svc_store (claim_schedule_invocation (sd_id d) (sd_config_revision d) (due_task d (fresh (sd_id d)) t now))"
    let ?rest = "\<lambda>claim. svc_bind (svc_lift (next_within env d now)) (\<lambda>n. svc_bind (move_on d n now)
      (\<lambda>_ s. (Inr [ic_task_run claim], launch_claim d claim s)))"
    have eq: "trigger_one env fresh now d s = svc_bind ?claim ?rest s"
      using False by (simp add: trigger_one_def Let_def t_def svc_bind_def [of "svc_gets _"] svc_simps)
    obtain r s1 where m: "?claim s = (r, s1)" by (cases "?claim s")
    note c = keepsD [OF keeps_claim s m]
    note s1 = carried_ok [OF c]
    have "carried s1 (snd (?rest claim s1))" if "r = Inr claim" for claim
    proof -
      have "carried s1 s2 \<and> carried s2 (launch_claim d claim s2)" if v: "move_on d n now s1 = (v, s2)" for n v s2
        using keepsD [OF keeps_move_on s1 v] move_on_active [OF v]
          claim_then_launch [OF s m [unfolded \<open>r = Inr claim\<close>]] by blast
      then show ?thesis
        using s1 by (auto simp: svc_bind_def svc_simps carried_refl split: sum.split prod.split intro: carried_trans)
    qed
    then show ?thesis using c by (auto simp: eq svc_bind_def [of ?claim] m split: sum.split intro: carried_trans)
  qed
qed

lemma keeps_trigger_all: "keeps (trigger_all env fresh now ds)"
  by (induction ds) (auto intro!: keeps_bind keeps_pure keeps_trigger_one)

lemma keeps_run_now: "keeps (run_now sid tid now)"
  unfolding run_now_def by (intro keeps_bind keeps_pure keeps_claim_and_launch)

lemma keeps_retry: "keeps (retry tid rid now)"
  unfolding retry_def by (intro keeps_bind keeps_pure keeps_claim_and_launch)

lemma keeps_trigger_due: "keeps (trigger_due env fresh now)"
  unfolding trigger_due_def by (intro keeps_bind keeps_pure keeps_trigger_all)

lemma cancel_launch_ok:
  assumes "service_ok s"
  shows "carried s (cancel_launch tid s)"
proof (rule carriedI)
  let ?f = "\<lambda>(k, c). (k, c \<or> k = tid)"
  have k: "map fst (map ?f ls) = map fst ls" for ls :: "(string \<times> bool) list"
    by (induction ls) auto
  then have "fst ` set (map ?f ls) = fst ` set ls" for ls :: "(string \<times> bool) list"
    by (metis set_map)
  with k assms show "service_ok (cancel_launch tid s)"
    by (simp add: service_ok_def cancel_launch_def del: map_map set_map)
qed (simp add: cancel_launch_def)

lemma keeps_then_cancel: "keeps m \<Longrightarrow> keeps (\<lambda>s. m (cancel_launch tid s))"
  unfolding keeps_def by (metis cancel_launch_ok carried_ok carried_trans)

lemma keeps_cancel_task: "keeps (cancel_task tid now)"
  unfolding cancel_task_def
  by (intro keeps_bind keeps_pure)
    (auto intro!: keeps_pure keeps_then_cancel [OF keeps_store] ok_transition)

lemma fold_cancel_ok: "service_ok s \<Longrightarrow> carried s (fold cancel_launch ids s)"
  by (induction ids arbitrary: s) (auto intro: carried_refl carried_trans cancel_launch_ok carried_ok)

lemma keeps_cancel_all: "keeps (cancel_active_launches_for_schedule sid)"
  by (simp add: keeps_def cancel_active_launches_for_schedule_def Let_def fold_cancel_ok)

lemma keeps_create: "keeps (create env w k d now)"
  unfolding create_def by (intro keeps_bind keeps_pure keeps_store ok_create)

lemma keeps_set_enabled: "keeps (set_enabled env sid b n now)"
  unfolding set_enabled_def by (intro keeps_bind keeps_pure keeps_set_enabled_store)

lemma keeps_remove: "keeps (remove sid)"
  unfolding remove_def by (intro keeps_bind keeps_pure keeps_store) (metis Inr_inject ok_remove snd_conv)

lemma keeps_update: "keeps (update_definition env d n now now')"
  unfolding update_definition_def Let_def
  by (intro keeps_bind keeps_pure keeps_store ok_update_schedule) (auto intro: keeps_cancel_all keeps_pure)

section \<open>Reconciliation and events\<close>

lemma keeps_relaunch:
  assumes "service_ok s" and "tr_id t \<notin> fst ` set (active_launches s)" and "tr_id t \<in> task_ids (schedule_db s)"
  shows "carried s (snd (relaunch now t s))"
proof -
  have "carried s (launch_claim d \<lparr>ic_task_run = t, ic_should_launch = True\<rparr> s)" for d
    by (rule launch_claim_ok [OF assms(1)]) (simp add: launchable_def assms(2,3))
  moreover have "step_ok (schedule_db s) (try_store (transition_task_run i st r now) (schedule_db s))" for i st r
    using assms(1) ok_transition by (auto simp: try_store_def service_ok_def step_ok_refl split: sum.split)
  ultimately show ?thesis
    using assms(1) by (auto simp: relaunch_def carried_refl split: option.splits intro: carried_db)
qed

lemma keeps_reconcile_linked: "keeps (reconcile_linked now t run)"
  unfolding reconcile_linked_def Let_def
  by (intro keeps_bind) (auto intro!: keeps_bind keeps_pure keeps_store ok_transition)

lemma reconcile_one_ok:
  assumes "service_ok s" and "tr_id t \<in> task_ids (schedule_db s)"
  shows "carried s (snd (reconcile_one now t s))"
proof (cases "tr_id t \<in> fst ` set (active_launches s)")
  case False
  show ?thesis
  proof (cases "tr_status t = Task_Preparing \<and> tr_run_id t = None")
    case True
    let ?m = "svc_store (requeue_unbound_preparing_task_run (tr_id t) now)"
    obtain r s1 where m: "?m s = (r, s1)" by (cases "?m s")
    note c = keepsD [OF keeps_requeue assms(1) m]
    have "carried s (snd (relaunch now t' s1))" if inr: "r = Inr t'" for t'
    proof (rule carried_trans [OF c keeps_relaunch [OF carried_ok [OF c]]])
      obtain db where db: "requeue_unbound_preparing_task_run (tr_id t) now (schedule_db s) = Inr (t', db)"
          "s1 = s\<lparr>schedule_db := db\<rparr>"
        using m inr by (auto simp: svc_store_Inr_iff)
      then have id: "tr_id t' = tr_id t"
        by (auto simp: requeue_unbound_preparing_task_run_def update_task_if_def Let_def
            rbind_Inr_iff split: if_splits dest: find_task_Some)
      show "tr_id t' \<notin> fst ` set (active_launches s1)" using False id db(2) by simp
      show "tr_id t' \<in> task_ids (schedule_db s1)" using carried_ids [OF c assms(2)] id by simp
    qed
    then show ?thesis
      using True False c by (auto simp: reconcile_one_def svc_bind_def m split: sum.splits)
  next
    case unbound: False
    let ?lose = "svc_store (transition_task_run (tr_id t) Task_NeedsAttention
      (kept_report t ''schedule_run_recovery_indeterminate'' ''the linked Agent Run cannot be proven safe to resume'') now)"
    have "keeps (svc_bind ?lose (\<lambda>_. svc_ret ()))"
      by (intro keeps_bind keeps_pure keeps_store ok_transition)
    then have "keeps (svc_bind (case v of Some run \<Rightarrow> reconcile_linked now t run
        | None \<Rightarrow> svc_bind ?lose (\<lambda>_. svc_ret ())) (\<lambda>_. svc_ret ([] :: task_run_record list)))" for v
      by (intro keeps_bind keeps_pure) (auto split: option.split intro: keeps_reconcile_linked)
    then show ?thesis
      using keeps_relaunch [OF assms(1) False assms(2), of now] assms(1) unbound False
      by (auto simp: reconcile_one_def keeps_def)
  qed
qed (simp add: reconcile_one_def assms carried_refl)

lemma reconcile_all_ok:
  "service_ok s \<Longrightarrow> tr_id ` set ts \<subseteq> task_ids (schedule_db s) \<Longrightarrow> carried s (snd (reconcile_all clock ts s))"
proof (induction ts arbitrary: s)
  case (Cons t ts)
  have "carried s (snd (reconcile_one (clock (tr_id t)) t s))"
    using Cons.prems by (intro reconcile_one_ok) auto
  moreover have "carried s' (snd (reconcile_all clock ts s'))" if "carried s s'" for s'
    using Cons.prems carried_ids [OF that] carried_ok [OF that] by (intro Cons.IH) auto
  ultimately show ?case
    by (auto simp: svc_bind_def svc_simps split: sum.split prod.split) (metis carried_trans snd_conv)+
qed (simp add: svc_simps carried_refl)

lemma keeps_reconcile_startup: "keeps (reconcile_startup clock)"
  unfolding keeps_def reconcile_startup_def
proof (intro allI impI)
  fix s assume "service_ok s"
  moreover have "tr_id ` set (filter (\<lambda>t. tr_status t \<in> {Task_Queued, Task_Preparing, Task_Running}) (list_task_runs None 500 (schedule_db s)))
      \<subseteq> task_ids (schedule_db s)"
    by (auto simp: list_task_runs_def task_ids_def dest: in_set_takeD)
  ultimately show "carried s (snd (svc_bind (svc_gets (\<lambda>s. filter (\<lambda>t. tr_status t \<in> {Task_Queued, Task_Preparing, Task_Running})
      (list_task_runs None 500 (schedule_db s)))) (reconcile_all clock) s))"
    using reconcile_all_ok by (simp add: svc_bind_def [of "svc_gets _"] svc_simps)
qed

text \<open>The launches a batch of claims asks for are of new task runs, each once.\<close>

definition launched_ids :: "schedule_event_launch_claim list \<Rightarrow> string list" where
  "launched_ids cs = map (\<lambda>c. tr_id (ic_task_run (eq_claim c))) (filter (\<lambda>c. ic_should_launch (eq_claim c)) cs)"

lemma launched_ids_simps [simp]: "launched_ids [] = []" "launched_ids (cs @ ds) = launched_ids cs @ launched_ids ds"
  by (simp_all add: launched_ids_def)

lemma fan_out_one_new:
  assumes "fan_out_one sha fresh e d db = Inr (cs, db')"
  shows "distinct (launched_ids cs) \<and> set (launched_ids cs) \<inter> task_ids db = {} \<and>
    set (launched_ids cs) \<subseteq> task_ids db'"
proof (cases "matches_schedule d e \<and> \<not> (reached_limit d db \<or> past_end d (ec_received_at_ms e))")
  case True
  then obtain c db1 where c: "claim_schedule_invocation (sd_id d) (sd_config_revision d)
        (event_task_record sha (fresh (sd_id d)) d e) db = Inr (c, db1)"
      and l: "insert_link (event_key e) (sd_id d) (tr_id (ic_task_run c)) db1 = Inr ((), db')"
      and cs: "cs = [\<lparr>eq_schedule = d, eq_claim = c\<rparr>]"
    using assms by (auto simp: fan_out_one_def rbind_Inr_iff)
  have "task_ids db' = task_ids db1" using l by (auto simp: insert_link_def task_ids_def split: if_splits)
  then show ?thesis using claim_new [OF c] cs by (auto simp: launched_ids_def)
next
  case False
  then show ?thesis using assms by (auto simp: fan_out_one_def split: if_splits)
qed

lemma fan_out_new:
  "fan_out sha fresh e ds db = Inr (cs, db') \<Longrightarrow> schedule_ok db \<Longrightarrow>
    event_key e \<in> (\<lambda>r. event_key (el_context r)) ` set (event_ledger db) \<Longrightarrow>
    sd_id ` set ds \<subseteq> set (map sd_id (definitions db)) \<Longrightarrow>
    distinct (launched_ids cs) \<and> set (launched_ids cs) \<inter> task_ids db = {} \<and>
    set (launched_ids cs) \<subseteq> task_ids db'"
proof (induction ds arbitrary: db cs)
  case (Cons d ds)
  then obtain c db1 cs' where one: "fan_out_one sha fresh e d db = Inr (c, db1)"
      and rest: "fan_out sha fresh e ds db1 = Inr (cs', db')" and cs: "cs = c @ cs'"
    by (auto simp: rbind_Inr_iff)
  have *: "step_ok db db1 \<and> event_ledger db1 = event_ledger db \<and>
      map sd_id (definitions db1) = map sd_id (definitions db)"
    using ok_fan_out_one [OF Cons.prems(2) one Cons.prems(3)] Cons.prems(4) by simp
  have tail: "schedule_ok db1" "event_key e \<in> (\<lambda>r. event_key (el_context r)) ` set (event_ledger db1)"
      "sd_id ` set ds \<subseteq> set (map sd_id (definitions db1))"
    using * Cons.prems(3,4) by (auto simp: step_ok_def)
  have ids: "task_ids db \<subseteq> task_ids db1" "task_ids db1 \<subseteq> task_ids db'"
    using * ok_fan_out [OF rest tail] by (auto intro: step_ok_ids [THEN subsetD])
  from fan_out_one_new [OF one] Cons.IH [OF rest tail] ids show ?case
    unfolding cs by auto
qed simp

lemma ingest_new:
  assumes "schedule_ok db" and "ingest_schedule_event sha fresh e db = Inr (Ingested claim, db')"
  shows "distinct (launched_ids (ei_launch_claims claim)) \<and>
    set (launched_ids (ei_launch_claims claim)) \<inter> task_ids db = {} \<and>
    set (launched_ids (ei_launch_claims claim)) \<subseteq> task_ids db'"
proof (cases "find_event (event_key e) db")
  case None
  let ?db = "db\<lparr>event_ledger := event_ledger db @ [new_ledger_row e]\<rparr>"
  obtain cs db1 where f: "fan_out sha fresh e (event_candidates db) ?db = Inr (cs, db1)"
      and claim: "ei_launch_claims claim = cs"
      and db': "db' = update_ledger (\<lambda>r. event_key (el_context r) = event_key e)
        (\<lambda>r. r\<lparr>el_matched_schedule_count := length cs\<rparr>) db1"
    using assms(2) None by (auto simp: ingest_schedule_event_def event_candidates_def rbind_Inr_iff)
  have "task_ids ?db = task_ids db" "task_ids db' = task_ids db1"
    by (simp_all add: task_ids_def db' update_ledger_def)
  then show ?thesis
    using fan_out_new [OF f] ok_new_ledger_row [OF assms(1) None] candidates_in [of db] claim
    by (simp add: step_ok_def new_ledger_row_def)
next
  case (Some row)
  then show ?thesis using assms by (auto simp: ingest_schedule_event_def Let_def split: if_splits)
qed

lemma launch_claims_ok:
  "service_ok s \<Longrightarrow> distinct (launched_ids cs) \<Longrightarrow>
    set (launched_ids cs) \<inter> fst ` set (active_launches s) = {} \<Longrightarrow>
    set (launched_ids cs) \<subseteq> task_ids (schedule_db s) \<Longrightarrow> carried s (launch_claims cs s)"
proof (induction cs arbitrary: s)
  case (Cons c cs)
  let ?s = "launch_claim (eq_schedule c) (eq_claim c) s"
  have c: "carried s ?s"
    using Cons.prems by (intro launch_claim_ok) (auto simp: launchable_def launched_ids_def)
  moreover have "carried ?s (launch_claims cs ?s)"
    using Cons.prems carried_ok [OF c]
    by (intro Cons.IH) (auto simp: launched_ids_def launch_claim_def Let_def split: if_splits)
  ultimately show ?case by (simp add: launch_claims_def carried_trans)
qed (simp add: launch_claims_def carried_refl)

lemma keeps_ingest_store: "keeps (svc_store (ingest_schedule_event sha fresh e))"
  by (rule keeps_store) (rule ok_ingest)

lemma keeps_ingest_event: "keeps (ingest_event sha to_json fresh e now)"
proof -
  have clean: "keeps (svc_store (\<lambda>db. Inr (cleanup_schedule_event_ledger now db)))"
    by (rule keeps_store) (metis Inr_inject ok_cleanup snd_conv)
  let ?m = "svc_store (ingest_schedule_event sha fresh (event_context sha to_json e now))"
  let ?f = "\<lambda>result s. case result of ConflictRecorded \<Rightarrow> (Inl (Sched_Store ScheduleEventConflict), s)
      | Ingested claim \<Rightarrow> (Inr (ei_receipt claim), launch_claims (ei_launch_claims claim) s)"
  have "keeps (svc_bind ?m ?f)" unfolding keeps_def
  proof (intro allI impI)
    fix s assume s: "service_ok s"
    obtain r s1 where m: "?m s = (r, s1)" by (cases "?m s")
    note c = keepsD [OF keeps_ingest_store s m]
    have "carried s1 (launch_claims (ei_launch_claims claim) s1)" if inr: "r = Inr (Ingested claim)" for claim
    proof -
      obtain db where db: "ingest_schedule_event sha fresh (event_context sha to_json e now) (schedule_db s) =
          Inr (Ingested claim, db)" "s1 = s\<lparr>schedule_db := db\<rparr>"
        using m inr by (auto simp: svc_store_Inr_iff)
      then show ?thesis
        using ingest_new [OF _ db(1)] s carried_ok [OF c]
        by (intro launch_claims_ok) (auto simp: service_ok_def)
    qed
    then show "carried s (snd (svc_bind ?m ?f s))"
      using c carried_refl [OF carried_ok [OF c]]
      by (auto simp: svc_bind_def m split: sum.split ingest_result.split intro: carried_trans)
  qed
  then show ?thesis
    unfolding ingest_event_def
    by (intro keeps_bind [OF keeps_pure(4)] keeps_bind [OF keeps_pure(2)] keeps_bind [OF clean])
qed

section \<open>Background tasks\<close>

lemma remove1_image:
  "distinct (map f b) \<Longrightarrow> x \<in> set b \<Longrightarrow>
    f ` set (remove1 x b) = f ` set b - {f x} \<and> distinct (map f (remove1 x b))"
  by (induction b) (auto split: if_splits)

lemma end_launch_ok: "service_ok s \<Longrightarrow> l \<in> set (background s) \<Longrightarrow> carried s (end_launch l s)"
proof (rule carriedI)
  assume s: "service_ok s" "l \<in> set (background s)"
  have "map fst (filter (\<lambda>(k, _). k \<noteq> i) ls) = filter (\<lambda>k. k \<noteq> i) (map fst ls)" for i and ls :: "(string \<times> bool) list"
    by (induction ls) auto
  then have tokens: "fst ` set (filter (\<lambda>(k, _). k \<noteq> i) ls) = fst ` set ls - {i}"
      "distinct (map fst ls) \<Longrightarrow> distinct (map fst (filter (\<lambda>(k, _). k \<noteq> i) ls))" for i and ls :: "(string \<times> bool) list"
    by (auto simp: distinct_filter image_iff)
  show "service_ok (end_launch l s)"
    using s tokens remove1_image [of la_task_id "background s" l] by (auto simp: service_ok_def end_launch_def)
qed (simp add: end_launch_def)

lemma ok_try_store:
  assumes "schedule_ok db" and "\<And>r db'. m db = Inr (r, db') \<Longrightarrow> step_ok db db'"
  shows "step_ok db (try_store m db)"
  using assms by (auto simp: try_store_def step_ok_refl split: sum.split)

lemma ok_stop_conditions: "schedule_ok db \<Longrightarrow> apply_stop_conditions d st now db = Inr (r, db') \<Longrightarrow> step_ok db db'"
  by (auto simp: apply_stop_conditions_def rbind_Inr_iff step_ok_refl split: option.splits if_splits
      intro: ok_set_enabled)

lemma ok_settle: "schedule_ok db \<Longrightarrow> step_ok db (settle_launch l result delivered now db)"
proof -
  assume db: "schedule_ok db"
  let ?c = "completion_of result"
  let ?db = "pass_running (la_task_id l) (rn_status ?c) now db"
  have "step_ok db (try_store (transition_task_run tid st report now) db)" for tid st report
    using db by (rule ok_try_store) (rule ok_transition [OF db])
  then have pass: "step_ok db ?db"
    by (simp add: pass_running_def step_ok_refl [OF db])
  have "step_ok db1 (try_store (apply_stop_conditions (la_schedule l) (rn_status ?c) now) db1)"
    if "schedule_ok db1" for db1
    using that by (rule ok_try_store) (rule ok_stop_conditions [OF that])
  moreover have "step_ok db2 (try_store (update_task_delivery tid x y now) db2)" if "schedule_ok db2" for db2 tid x y
    using that by (rule ok_try_store) (rule ok_delivery [OF that])
  moreover have "step_ok ?db db1"
    if "transition_task_run (la_task_id l) (rn_status ?c) (completion_report ?c) now ?db = Inr (t, db1)" for t db1
    using pass by (intro ok_transition [OF _ that]) (simp add: step_ok_def)
  ultimately show ?thesis
    unfolding settle_launch_def Let_def
    by (auto split: sum.split intro!: step_ok_then [OF pass] step_ok_refl) (meson step_ok_def step_ok_then)+
qed

lemma start_launch_ok:
  assumes "service_ok s" and "l \<in> set (background s)"
  shows "carried s (start_launch l hook now s)"
proof (cases "transition_task_run (la_task_id l) Task_Preparing empty_report now (schedule_db s)")
  case (Inl e)
  then show ?thesis using end_launch_ok [OF assms] by (simp add: start_launch_def)
next
  case (Inr v)
  then obtain t db where v: "transition_task_run (la_task_id l) Task_Preparing empty_report now (schedule_db s) = Inr (t, db)"
    by (cases v) simp
  have db: "carried s (s\<lparr>schedule_db := db\<rparr>)"
    using ok_transition [OF _ v] assms(1) by (intro carried_db [OF assms(1)]) (simp add: service_ok_def)
  have "insert (la_task_id l) (la_task_id ` set (background s)) = la_task_id ` set (background s)"
    using assms(2) by auto
  with remove1_image [OF _ assms(2), of la_task_id] db v show ?thesis
    by (auto simp: start_launch_def Let_def carried_def service_ok_def)
qed

lemma finish_launch_ok:
  assumes "service_ok s" and "l \<in> set (background s)"
  shows "carried s (finish_launch l result delivered now s)"
proof -
  let ?s = "s\<lparr>schedule_db := settle_launch l result delivered now (schedule_db s)\<rparr>"
  have "carried s ?s"
    using assms(1) by (intro carried_db ok_settle) (simp_all add: service_ok_def)
  moreover have "carried ?s (end_launch l ?s)"
    using calculation assms(2) by (intro end_launch_ok carried_ok) simp_all
  ultimately show ?thesis by (simp add: finish_launch_def carried_trans)
qed

section \<open>The service as a transition system\<close>

text \<open>Methods, background tasks, the store operations of the launcher and of other commands, and a
  restart, which forgets tokens and background tasks and closes the running task runs.\<close>

definition restarted :: "int \<Rightarrow> scheduler \<Rightarrow> scheduler" where
  "restarted now s = s\<lparr>schedule_db := lose_running_tasks now (schedule_db s), accepting := True,
     active_launches := [], background := []\<rparr>"

inductive service_step :: "scheduler \<Rightarrow> scheduler \<Rightarrow> bool" where
  "create (env :: unit service_env) w k d now s = (r, s') \<Longrightarrow> service_step s s'"
| "update_definition (env :: unit service_env) d n now now' s = (r', s') \<Longrightarrow> service_step s s'"
| "set_enabled (env :: unit service_env) sid b n now s = (r', s') \<Longrightarrow> service_step s s'"
| "remove sid s = (b, s') \<Longrightarrow> service_step s s'"
| "run_now sid tid now s = (t, s') \<Longrightarrow> service_step s s'"
| "retry tid retry_id now s = (t, s') \<Longrightarrow> service_step s s'"
| "cancel_task tid now s = (t, s') \<Longrightarrow> service_step s s'"
| "trigger_due (env :: unit service_env) fresh now s = (ts, s') \<Longrightarrow> service_step s s'"
| "reconcile_startup clock s = (ts, s') \<Longrightarrow> service_step s s'"
| "ingest_event sha to_json fresh e now s = (p, s') \<Longrightarrow> service_step s s'"
| "service_step s (suspend s)"
| "l \<in> set (background s) \<Longrightarrow> la_phase l = Spawned \<Longrightarrow> service_step s (start_launch l hook now s)"
| "l \<in> set (background s) \<Longrightarrow> la_phase l = Launched \<Longrightarrow>
     service_step s (finish_launch l result delivered now s)"
| "schedule_step (schedule_db s) db \<Longrightarrow> service_step s (s\<lparr>schedule_db := db\<rparr>)"
| "service_step s (restarted now s)"

lemma restarted_ok: "service_ok s \<Longrightarrow> carried s (restarted now s)"
  using ok_lose_running [of "schedule_db s" now]
  by (simp add: carried_def service_ok_def restarted_def step_ok_def)

lemma suspend_ok: "service_ok s \<Longrightarrow> carried s (suspend s)"
  by (rule carriedI) (simp_all add: suspend_def service_ok_def)

lemmas keeps_service = keeps_create keeps_update keeps_set_enabled keeps_remove keeps_run_now keeps_retry
  keeps_cancel_task keeps_trigger_due keeps_reconcile_startup keeps_ingest_event

lemma service_step_carried: "service_step s s' \<Longrightarrow> service_ok s \<Longrightarrow> carried s s'"
proof (induction rule: service_step.induct)
  case (14 s db)
  then show ?case using schedule_step_ok by (intro carried_db) (auto simp: service_ok_def)
qed (blast intro: keeps_service [THEN keepsD] suspend_ok start_launch_ok finish_launch_ok restarted_ok)+

inductive service_reachable :: "scheduler \<Rightarrow> bool" where
  service_start: "schedule_reachable db \<Longrightarrow>
    service_reachable \<lparr>schedule_db = db, accepting = True, active_launches = [], background = [], launcher_calls = []\<rparr>"
| service_next: "service_reachable s \<Longrightarrow> service_step s s' \<Longrightarrow> service_reachable s'"

lemma service_reachable_ok: "service_reachable s \<Longrightarrow> service_ok s"
proof (induction rule: service_reachable.induct)
  case (service_start db)
  then show ?case using schedule_reachable_ok by (simp add: service_ok_def task_ids_def)
next
  case (service_next s s')
  then show ?case using service_step_carried carried_ok by blast
qed


lemma demo_run_now:
  "\<exists>t s'. run_now ''s'' ''t'' 5 (demo_service demo_created) = (Inr t, s') \<and> map la_task_id (background s') = [''t'']"
  unfolding demo_created_nf
  by (simp add: run_now_def claim_and_launch_def launch_claim_def get_schedule_def ensure_accepting_def trigger_eval demo_eval
      plain_schedule_def)


end
