(* ===== verification/Schedule_Runtime.thy ===== *)
theory Schedule_Runtime
  imports Schedule_Running
begin

text \<open>
  The timer of the scheduler (\<open>runtime.rs\<close>): the delay until the next pass, the retries of an
  operation that fails, and one turn of the loop. Other users of the service run while it waits;
  the argument \<open>meanwhile\<close> is what they do to it.
\<close>

section \<open>Delays and retries\<close>

definition max_scheduler_sleep_ms :: nat where "max_scheduler_sleep_ms = 60000"
definition min_refire_gap_ms :: nat where "min_refire_gap_ms = 250"

definition scheduler_delay_ms :: "int option \<Rightarrow> int \<Rightarrow> nat" where
  "scheduler_delay_ms wake_at now =
     (let raw = (case wake_at of None \<Rightarrow> max_scheduler_sleep_ms | Some t \<Rightarrow> nat (max 0 (sat_i64 (t - now)))) in
      if raw = 0 then min_refire_gap_ms else min raw max_scheduler_sleep_ms)"

definition retry_delays :: "nat list" where
  "retry_delays = [1000, 2000, 5000]"

text \<open>The events an observer is told; the detail of a failure is the error itself.\<close>

datatype runtime_event =
    Ready
  | Retrying nat string
  | Recovered
  | Runtime_Failed scheduler_error

text \<open>\<open>operation n\<close> is the attempt after \<open>n\<close> failures, \<open>cancelled n\<close> tells whether the wait after it
  is cut short. The answer has the value and whether it took a retry.\<close>

function retry_operation ::
    "(nat \<Rightarrow> 'a svc) \<Rightarrow> (nat \<Rightarrow> bool) \<Rightarrow> (nat \<Rightarrow> scheduler \<Rightarrow> scheduler) \<Rightarrow> nat \<Rightarrow> scheduler \<Rightarrow>
      (scheduler_error, ('a \<times> bool) option) result \<times> runtime_event list \<times> scheduler" where
  "retry_operation operation cancelled meanwhile retries s =
     (case operation retries s of
        (Inr v, s') \<Rightarrow> (Inr (Some (v, 0 < retries)), [], s')
      | (Inl e, s') \<Rightarrow>
          if retries < length retry_delays
          then (let report = Retrying (retries + 1) (scheduler_error_code e) in
            if cancelled retries then (Inr None, [report], s')
            else (case retry_operation operation cancelled meanwhile (Suc retries) (meanwhile retries s') of
              (r, reports, s'') \<Rightarrow> (r, report # reports, s'')))
          else (Inl e, [], s'))"
  by pat_completeness auto
termination
  by (relation "measure (\<lambda>(_, _, _, retries, _). length retry_delays - retries)") auto

declare retry_operation.simps [simp del]

definition fail_runtime :: "scheduler_error \<Rightarrow> scheduler \<Rightarrow> runtime_event list \<times> scheduler" where
  "fail_runtime e s = ([Runtime_Failed e], s\<lparr>accepting := False\<rparr>)"

section \<open>The loop\<close>

text \<open>What ends the wait of a turn; a recovery can only be declared while one is under way.\<close>

datatype wake_up = Runtime_Cancelled | Notified | Recovery_Window | Delay_Over

record runtime =
  rn_service :: scheduler
  rn_recovering :: bool
  rn_running :: bool
  rn_events :: "runtime_event list"

definition start_runtime :: "scheduler \<Rightarrow> runtime" where
  "start_runtime s = \<lparr>rn_service = s\<lparr>accepting := True\<rparr>, rn_recovering = False, rn_running = True,
     rn_events = [Ready]\<rparr>"

text \<open>The end of an operation under retry: the loop goes on, or it ends with or without a failure.\<close>

definition after_operation ::
    "(scheduler_error, ('a \<times> bool) option) result \<times> runtime_event list \<times> scheduler \<Rightarrow> runtime \<Rightarrow> runtime" where
  "after_operation outcome r = (case outcome of (answer, reports, s) \<Rightarrow>
     (case answer of
        Inr (Some (_, recovered)) \<Rightarrow> r\<lparr>rn_service := s, rn_events := rn_events r @ reports,
          rn_recovering := recovered \<or> rn_recovering r\<rparr>
      | Inr None \<Rightarrow> r\<lparr>rn_service := s, rn_events := rn_events r @ reports, rn_running := False\<rparr>
      | Inl e \<Rightarrow> (case fail_runtime e s of (failed, s) \<Rightarrow>
          r\<lparr>rn_service := s, rn_events := rn_events r @ reports @ failed, rn_running := False\<rparr>)))"

text \<open>One turn: the wakeup is read, the loop waits, and a due pass is made when the delay is over.
  \<open>clock n\<close> is the time of the attempt after \<open>n\<close> failures.\<close>

definition runtime_turn ::
    "'z service_env \<Rightarrow> (string \<Rightarrow> string) \<Rightarrow> (nat \<Rightarrow> int) \<Rightarrow> (nat \<Rightarrow> bool) \<Rightarrow> (nat \<Rightarrow> scheduler \<Rightarrow> scheduler) \<Rightarrow>
      wake_up \<Rightarrow> runtime \<Rightarrow> runtime" where
  "runtime_turn env fresh clock cancelled meanwhile wake r =
     (if \<not> rn_running r then r
      else
        (let r = after_operation (retry_operation
             (\<lambda>_. svc_gets (\<lambda>s. next_schedule_wakeup (schedule_db s))) cancelled meanwhile 0 (rn_service r)) r in
         if \<not> rn_running r then r
         else (case wake of
             Runtime_Cancelled \<Rightarrow> r\<lparr>rn_running := False\<rparr>
           | Notified \<Rightarrow> r
           | Recovery_Window \<Rightarrow>
               if rn_recovering r then r\<lparr>rn_recovering := False, rn_events := rn_events r @ [Recovered]\<rparr> else r
           | Delay_Over \<Rightarrow> after_operation
               (retry_operation (\<lambda>n. trigger_due env fresh (clock n)) cancelled meanwhile 0 (rn_service r)) r)))"

section \<open>Delays\<close>

text \<open>The timer never waits zero milliseconds, so an overdue schedule cannot make the loop spin, and
  never longer than a minute; it never sleeps past the next wakeup, unless that has come already,
  in which case it looks again after the refire gap.\<close>

theorem scheduler_delay_bounds:
  "min_refire_gap_ms \<le> max_scheduler_sleep_ms \<and> 0 < scheduler_delay_ms wake now \<and>
    scheduler_delay_ms wake now \<le> max_scheduler_sleep_ms \<and>
    (case wake of None \<Rightarrow> scheduler_delay_ms wake now = max_scheduler_sleep_ms
     | Some t \<Rightarrow> if now < t then now + int (scheduler_delay_ms wake now) \<le> t
         else scheduler_delay_ms wake now = min_refire_gap_ms)"
  by (auto simp: scheduler_delay_ms_def min_refire_gap_ms_def max_scheduler_sleep_ms_def Let_def
      sat_i64_def i64_min_def i64_max_def min_def max_def split: option.splits)

section \<open>Retries\<close>

lemma retry_Inr: "operation n s = (Inr v, s') \<Longrightarrow>
    retry_operation operation cancelled meanwhile n s = (Inr (Some (v, 0 < n)), [], s')"
  by (simp add: retry_operation.simps)

text \<open>The numbers of the attempts an observer is told of.\<close>

definition reported :: "runtime_event list \<Rightarrow> nat list" where
  "reported es = List.map_filter (\<lambda>e. case e of Retrying n _ \<Rightarrow> Some n | _ \<Rightarrow> None) es"

lemma reported_simps [simp]:
  "reported [] = []" "reported (Retrying n c # es) = n # reported es"
  by (simp_all add: reported_def List.map_filter_def)

text \<open>An operation is tried at most once per delay after its first failure, whatever it does and
  whatever happens between the attempts: the observer is told of the retries in order and without
  gaps, there are never more of them than delays, and a failure is returned only when every delay
  has been used.\<close>

theorem retry_reports:
  "retry_operation operation cancelled meanwhile n s = (r, reports, s') \<Longrightarrow> n \<le> length retry_delays \<Longrightarrow>
    reported reports = [n + 1..<n + 1 + length reports] \<and> n + length reports \<le> length retry_delays \<and>
    (\<forall>e. r = Inl e \<longrightarrow> n + length reports = length retry_delays)"
proof (induction operation cancelled meanwhile n s arbitrary: r reports s' rule: retry_operation.induct)
  case (1 operation cancelled meanwhile n s)
  note eq = retry_operation.simps [of operation cancelled meanwhile n s]
  obtain a s1 where o: "operation n s = (a, s1)" by (cases "operation n s")
  show ?case
  proof (cases a)
    case (Inr v)
    then show ?thesis using "1.prems" eq o by auto
  next
    case (Inl e)
    show ?thesis
    proof (cases "n < length retry_delays \<and> \<not> cancelled n")
      case True
      obtain reps where rec: "retry_operation operation cancelled meanwhile (Suc n) (meanwhile n s1) = (r, reps, s')"
          "reports = Retrying (n + 1) (scheduler_error_code e) # reps"
        using "1.prems"(1) eq o Inl True by (auto simp: Let_def split: prod.splits)
      have "reported reps = [Suc n + 1..<Suc n + 1 + length reps] \<and> Suc n + length reps \<le> length retry_delays \<and>
          (\<forall>e. r = Inl e \<longrightarrow> Suc n + length reps = length retry_delays)"
        using "1.IH" [OF o [symmetric] Inl _ refl _ rec(1)] True by simp
      moreover have "[n + 1..<n + 1 + length reports] = (n + 1) # [Suc n + 1..<Suc n + 1 + length reps]"
        using rec(2) by (simp add: upt_conv_Cons del: upt_Suc)
      ultimately show ?thesis using rec(2) by (simp del: upt_Suc)
    next
      case False
      then show ?thesis
        using "1.prems" eq o Inl by (auto split: if_splits)
    qed
  qed
qed

text \<open>An operation that fails whatever the others do is given up after the last delay.\<close>

lemma retry_gives_up:
  assumes "\<And>n s. P s \<Longrightarrow> \<exists>e s'. operation n s = (Inl e, s') \<and> P s'"
    and "\<And>n s. P s \<Longrightarrow> P (meanwhile n s)" and "\<And>n. \<not> cancelled n"
  shows "P s \<Longrightarrow> \<exists>e reports s'. retry_operation operation cancelled meanwhile n s = (Inl e, reports, s') \<and> P s'"
proof (induction "length retry_delays - n" arbitrary: n s)
  case 0
  then show ?case using assms(1) [OF "0.prems", of n] by (auto simp: retry_operation.simps [of _ _ _ n])
next
  case (Suc k)
  then obtain e s' where o: "operation n s = (Inl e, s')" "P s'" using assms(1) by blast
  moreover have "\<exists>e reports s''. retry_operation operation cancelled meanwhile (Suc n) (meanwhile n s') = (Inl e, reports, s'') \<and> P s''"
    using Suc.hyps(2) o(2) assms(2) by (intro Suc.hyps(1)) auto
  ultimately show ?case
    using Suc.hyps(2) assms(3) by (auto simp: retry_operation.simps [of _ _ _ n] Let_def)
qed

section \<open>A schedule that cannot be moved on\<close>

text \<open>Such a schedule is due before all others; the others are not in the conclusion because the pass
  never reaches them.\<close>

definition stuck_first :: "'z service_env \<Rightarrow> (nat \<Rightarrow> int) \<Rightarrow> schedule_definition \<Rightarrow> schedule_db \<Rightarrow> bool" where
  "stuck_first env clock d db \<longleftrightarrow> (\<forall>n. \<exists>ds e. list_due_schedules (clock n) db = d # ds \<and>
     next_within env d (clock n) = Inl e)"

lemma stuck_pass:
  assumes "stuck_first env clock d (schedule_db s)" and "sd_next_run_at_ms d = Some t"
    and "st_max_occurrences (sd_stop_conditions d) = None" and "\<not> past_end d t"
  shows "\<exists>e s'. trigger_due env fresh (clock n) s = (Inl e, s') \<and>
    definitions (schedule_db s') = definitions (schedule_db s)"
proof -
  obtain ds e where due: "list_due_schedules (clock n) (schedule_db s) = d # ds"
      "next_within env d (clock n) = Inl e"
    using assms(1) unfolding stuck_first_def by blast
  have limit: "\<not> reached_limit d (schedule_db s)" using assms(3) by (simp add: reached_limit_def)
  show ?thesis
  proof (cases "claim_schedule_invocation (sd_id d) (sd_config_revision d) (due_task d (fresh (sd_id d)) t (clock n))
      (schedule_db s)")
    case (Inl e')
    then show ?thesis
      using due assms(2,4) limit
      by (simp add: trigger_due_def trigger_one_def svc_bind_def svc_store_def svc_simps Let_def)
  next
    case (Inr v)
    then obtain c db where c: "claim_schedule_invocation (sd_id d) (sd_config_revision d)
        (due_task d (fresh (sd_id d)) t (clock n)) (schedule_db s) = Inr (c, db)"
      by (cases v) simp
    then show ?thesis
      using due assms(2,4) limit claim_frame(1) [OF c]
      by (simp add: trigger_due_def trigger_one_def svc_bind_def svc_store_def svc_simps Let_def)
  qed
qed

lemma stuck_definitions:
  "definitions db' = definitions db \<Longrightarrow> stuck_first env clock d db' = stuck_first env clock d db"
  by (simp add: stuck_first_def list_due_schedules_def)


section \<open>Witness\<close>

lemma demo_cron_stuck:
  "stuck_first broken_env (\<lambda>n. 60000 + int n) ((plain_schedule ''s'' (Cron ''*/30 * * * *'' ''UTC''))
     \<lparr>sd_next_run_at_ms := Some 60000\<rparr>) demo_cron"
  unfolding stuck_first_def
proof (intro allI exI conjI)
  fix n
  let ?d = "(plain_schedule ''s'' (Cron ''*/30 * * * *'' ''UTC''))\<lparr>sd_next_run_at_ms := Some 60000\<rparr>"
  show "list_due_schedules (60000 + int n) demo_cron = ?d # []"
    by (simp add: demo_cron_def list_due_schedules_def plain_schedule_def)
  show "next_within broken_env ?d (60000 + int n) =
      Inl (InvalidSchedule (''schedule_timezone_runtime_unavailable: '' @ ''timezone runtime is unavailable: UTC''))"
    by (simp add: next_within_def service_next_def map_error_def next_occurrence_def cron_occurrences_def
        fold_steps(1) half_hours_parse broken_env_def plain_schedule_def)
qed


theorem retry_reports_witness:
  "\<exists>r reports s'. retry_operation (\<lambda>_. trigger_due broken_env (\<lambda>_. ''t'') 60000) (\<lambda>_. False) (\<lambda>_ s. s) 0
      (demo_service demo_cron) = (r, reports, s') \<and>
    reported reports = [1..<1 + length reports] \<and> length reports \<le> 3"
proof -
  obtain r reports s' where r: "retry_operation (\<lambda>_. trigger_due broken_env (\<lambda>_. ''t'') 60000) (\<lambda>_. False) (\<lambda>_ s. s) 0
      (demo_service demo_cron) = (r, reports, s')"
    by (rule prod_cases3)
  then show ?thesis using retry_reports [OF r] by (simp add: retry_delays_def)
qed

end
