(* ===== verification/Schedule_Reconcile.thy ===== *)
theory Schedule_Reconcile
  imports Schedule_Running
begin

text \<open>
  What the reconciliation after a start does with a task run whose schedule has been removed.
\<close>

section \<open>Rows of others\<close>

text \<open>\<open>leaves i m\<close>: \<open>m\<close> neither touches the row of the task run \<open>i\<close> nor starts a background task for it.\<close>

definition untouched :: "string \<Rightarrow> scheduler \<Rightarrow> scheduler \<Rightarrow> bool" where
  "untouched i s s' \<longleftrightarrow> filter (\<lambda>t. tr_id t = i) (task_rows (schedule_db s')) =
       filter (\<lambda>t. tr_id t = i) (task_rows (schedule_db s)) \<and>
     (i \<in> fst ` set (active_launches s') \<longleftrightarrow> i \<in> fst ` set (active_launches s))"

definition leaves :: "string \<Rightarrow> 'a svc \<Rightarrow> bool" where
  "leaves i m \<longleftrightarrow> (\<forall>s. untouched i s (snd (m s)))"

lemma untouched_refl [simp]: "untouched i s s"
  by (simp add: untouched_def)

lemma untouched_trans: "untouched i a b \<Longrightarrow> untouched i b c \<Longrightarrow> untouched i a c"
  by (simp add: untouched_def)

lemma leaves_bind: "leaves i m \<Longrightarrow> (\<And>a. leaves i (f a)) \<Longrightarrow> leaves i (svc_bind m f)"
  unfolding leaves_def svc_bind_def
  by (auto split: prod.split sum.split) (metis snd_conv, metis snd_conv untouched_trans)

lemma leaves_ret [simp]: "leaves i (svc_ret a)"
  by (simp add: leaves_def svc_ret_def)

lemma filter_update_other:
  "(\<And>t. p t \<Longrightarrow> tr_id t \<noteq> i \<and> tr_id (f t) \<noteq> i) \<Longrightarrow>
    filter (\<lambda>t. tr_id t = i) (update_where p f ts) = filter (\<lambda>t. tr_id t = i) ts"
  by (induction ts) (auto simp: update_where_def)

lemma leaves_transition:
  assumes "tid \<noteq> i"
  shows "leaves i (svc_store (transition_task_run tid status report now))"
  unfolding leaves_def
proof
  fix s :: scheduler
  have "filter (\<lambda>t. tr_id t = i) (task_rows db) = filter (\<lambda>t. tr_id t = i) (task_rows (schedule_db s))"
    if m: "transition_task_run tid status report now (schedule_db s) = Inr (t', db)" for t' db
  proof -
    obtain c where c: "find_task tid (schedule_db s) = Some c" and rows: "task_rows db =
        update_where (\<lambda>t. tr_id t = tid) (\<lambda>_. transitioned status report now c) (task_rows (schedule_db s))"
      using m by (auto simp: transition_task_run_def rbind_Inr_iff Let_def update_tasks_def update_runtime_def
          split: if_splits)
    have "tr_id (transitioned status report now c) = tid"
      using find_task_Some [OF c] by (simp add: transitioned_def)
    then show ?thesis unfolding rows using assms by (intro filter_update_other) auto
  qed
  then show "untouched i s (snd (svc_store (transition_task_run tid status report now) s))"
    by (auto simp: svc_store_def untouched_def split: sum.split)
qed

lemma leaves_requeue:
  assumes "tid \<noteq> i"
  shows "leaves i (svc_store (requeue_unbound_preparing_task_run tid now))"
  unfolding leaves_def
proof
  fix s :: scheduler
  have "filter (\<lambda>t. tr_id t = i) (task_rows db) = filter (\<lambda>t. tr_id t = i) (task_rows (schedule_db s))"
    if "requeue_unbound_preparing_task_run tid now (schedule_db s) = Inr (t', db)" for t' db
    using that assms
    by (auto simp: requeue_unbound_preparing_task_run_def update_task_if_def rbind_Inr_iff Let_def update_tasks_def
        intro!: filter_update_other split: if_splits)
  then show "untouched i s (snd (svc_store (requeue_unbound_preparing_task_run tid now) s))"
    by (auto simp: svc_store_def untouched_def split: sum.split)
qed

lemma requeued_id:
  assumes "svc_store (requeue_unbound_preparing_task_run tid now) s = (Inr t, s')"
  shows "tr_id t = tid"
  using assms
  by (auto simp: svc_store_Inr_iff requeue_unbound_preparing_task_run_def update_task_if_def Let_def
      rbind_Inr_iff split: if_splits dest: find_task_Some)

lemma relaunch_leaves:
  assumes "tr_id t \<noteq> i"
  shows "untouched i s (snd (relaunch now t s))"
proof (cases "tr_schedule_id t")
  case (Some sid)
  show ?thesis
  proof (cases "find_schedule sid (schedule_db s)")
    case None
    then show ?thesis
      using leaves_transition [OF assms, of Task_NeedsAttention _ now] Some
      by (force simp: relaunch_def leaves_def svc_store_def try_store_def untouched_def split: sum.splits)
  next
    case d: (Some d)
    then show ?thesis
      using Some assms by (auto simp: relaunch_def launch_claim_def Let_def untouched_def)
  qed
qed (simp add: relaunch_def)

lemma reconcile_linked_leaves: "tr_id t \<noteq> i \<Longrightarrow> untouched i s (snd (reconcile_linked now t run s))"
proof -
  assume t: "tr_id t \<noteq> i"
  let ?m = "if tr_status t = Task_Preparing \<and> linked_task_status (rr_status run) \<noteq> Task_NeedsAttention
    then svc_store (transition_task_run (tr_id t) Task_Running (same_report t) now) else svc_ret t"
  obtain r s1 where m: "?m s = (r, s1)" by (cases "?m s")
  have "leaves i ?m" using leaves_transition [OF t] by simp
  then have first: "untouched i s s1" using m unfolding leaves_def by (metis snd_conv)
  have id: "tr_id t' = tr_id t" if "r = Inr t'" for t'
    using m that by (auto simp: svc_simps svc_store_Inr_iff transition_task_run_def rbind_Inr_iff Let_def
        split: if_splits dest: find_task_Some)
  have "leaves i (if linked_task_status (rr_status run) \<noteq> Task_Running
      then svc_bind (svc_store (transition_task_run (tr_id t') (linked_task_status (rr_status run))
        (linked_report t' (linked_task_status (rr_status run))) now)) (\<lambda>_. svc_ret ()) else svc_ret ())"
    if "r = Inr t'" for t'
    using id [OF that] t by (auto intro: leaves_bind leaves_transition)
  with first m show ?thesis
    unfolding reconcile_linked_def Let_def svc_bind_def [of ?m]
    by (auto simp: leaves_def split: sum.split intro: untouched_trans)
qed

lemma reconcile_one_leaves:
  assumes "tr_id t \<noteq> i"
  shows "untouched i s (snd (reconcile_one now t s))"
proof (cases "tr_id t \<notin> fst ` set (active_launches s) \<and> tr_status t \<in> {Task_Preparing, Task_Running}")
  case True
  show ?thesis
  proof (cases "tr_run_id t = None \<and> tr_status t = Task_Preparing")
    case unbound: True
    let ?m = "svc_store (requeue_unbound_preparing_task_run (tr_id t) now)"
    obtain r s1 where m: "?m s = (r, s1)" by (cases "?m s")
    have "untouched i s s1" using leaves_requeue [OF assms] m unfolding leaves_def by (metis snd_conv)
    moreover have "untouched i s1 (snd (relaunch now t' s1))" if "r = Inr t'" for t'
      using requeued_id [OF m [unfolded that]] assms by (intro relaunch_leaves) simp
    ultimately show ?thesis
      using True unbound by (auto simp: reconcile_one_def svc_bind_def m split: sum.split intro: untouched_trans)
  next
    case False
    let ?lose = "svc_store (transition_task_run (tr_id t) Task_NeedsAttention
      (kept_report t ''schedule_run_recovery_indeterminate'' ''the linked Agent Run cannot be proven safe to resume'') now)"
    have "leaves i (reconcile_linked now t run)" for run
      using reconcile_linked_leaves [OF assms] by (simp add: leaves_def)
    moreover have "leaves i (svc_bind ?lose (\<lambda>_. svc_ret ()))"
      by (intro leaves_bind leaves_transition leaves_ret assms)
    ultimately have "leaves i (svc_bind (case v of Some run \<Rightarrow> reconcile_linked now t run
        | None \<Rightarrow> svc_bind ?lose (\<lambda>_. svc_ret ())) (\<lambda>_. svc_ret ([] :: task_run_record list)))" for v
      by (intro leaves_bind leaves_ret) (simp split: option.split)
    then show ?thesis using True False by (auto simp: reconcile_one_def leaves_def)
  qed
next
  case False
  then show ?thesis using relaunch_leaves [OF assms] by (auto simp: reconcile_one_def)
qed

section \<open>Orphans\<close>

text \<open>A task run that waits for a schedule that is gone.\<close>

definition orphan :: "task_run_record \<Rightarrow> bool" where
  "orphan t \<longleftrightarrow> tr_schedule_id t = None \<and> tr_status t = Task_Queued"

lemma reconcile_orphan: "orphan t \<Longrightarrow> reconcile_one now t s = (Inr [], s)"
  by (auto simp: orphan_def reconcile_one_def relaunch_def)

lemma reconcile_all_orphan:
  "(\<And>x. x \<in> set ts \<Longrightarrow> tr_id x = i \<Longrightarrow> orphan x) \<Longrightarrow> untouched i s (snd (reconcile_all clock ts s))"
proof (induction ts arbitrary: s)
  case (Cons t ts)
  have "untouched i s (snd (reconcile_one (clock (tr_id t)) t s))"
    using Cons.prems [of t] by (cases "tr_id t = i") (simp_all add: reconcile_orphan reconcile_one_leaves)
  moreover have "untouched i s' (snd (reconcile_all clock ts s'))" for s'
    by (rule Cons.IH) (simp add: Cons.prems)
  ultimately show ?case
    by (auto simp: svc_bind_def svc_simps split: sum.split prod.split) (metis snd_conv untouched_trans)+
qed (simp add: svc_simps)

text \<open>C24: A queued task run outlives its schedule unseen. Removing the schedule only clears the reference
  of the task run; after a restart the reconciliation passes over it, so it is neither launched nor
  marked, and stays queued. The branch of the code that reports a missing schedule is not reached.\<close>

theorem removed_schedule_orphans_task:
  assumes "service_reachable s" and "t \<in> set (task_rows (schedule_db s))"
    and "tr_schedule_id t = Some sid" and "tr_status t = Task_Queued"
    and "remove sid s = (Inr b, s1)" and "reconcile_startup clock (restarted now s1) = (r, s2)"
  shows "t\<lparr>tr_schedule_id := None\<rparr> \<in> set (task_rows (schedule_db s2)) \<and>
    tr_id t \<notin> fst ` set (active_launches s2)"
proof -
  let ?t = "t\<lparr>tr_schedule_id := None\<rparr>"
  let ?s = "restarted now s1"
  have "service_ok s1"
    using keepsD [OF keeps_remove service_reachable_ok [OF assms(1)] assms(5)] by (rule carried_ok)
  then have ids: "distinct (map tr_id (task_rows (schedule_db ?s)))"
    using restarted_ok [of s1 now] by (simp add: carried_def service_ok_def schedule_ok_def)
  have "?t \<in> set (task_rows (schedule_db s1))"
    using assms(2,3,5)
    by (auto simp: remove_def svc_bind_def ensure_accepting_def svc_store_def remove_schedule_def update_where_def
        split: if_splits intro!: image_eqI [of _ _ t])
  then have here: "?t \<in> set (task_rows (schedule_db ?s))"
    using assms(4)
    by (auto simp: restarted_def lose_running_tasks_def update_tasks_def update_where_def intro!: image_eqI [of _ _ ?t])
  have "orphan x" if "x \<in> set (task_rows (schedule_db ?s))" "tr_id x = tr_id t" for x
  proof -
    have "inj_on tr_id (set (task_rows (schedule_db ?s)))" using ids by (simp add: distinct_map)
    from inj_onD [OF this _ that(1) here] have "x = ?t" using that(2) by simp
    then show ?thesis using assms(4) by (simp add: orphan_def)
  qed
  then have "untouched (tr_id t) ?s (snd (reconcile_all clock
      (filter (\<lambda>t. tr_status t \<in> {Task_Queued, Task_Preparing, Task_Running}) (list_task_runs None 500 (schedule_db ?s))) ?s))"
    by (intro reconcile_all_orphan) (auto simp: list_task_runs_def dest: in_set_takeD)
  then have "untouched (tr_id t) ?s s2"
    using assms(6) by (simp add: reconcile_startup_def svc_bind_def [of "svc_gets _"] svc_simps)
  then have "filter (\<lambda>x. tr_id x = tr_id t) (task_rows (schedule_db s2)) =
      filter (\<lambda>x. tr_id x = tr_id t) (task_rows (schedule_db ?s))" "tr_id t \<notin> fst ` set (active_launches s2)"
    by (simp_all add: untouched_def restarted_def)
  moreover have "?t \<in> set (filter (\<lambda>x. tr_id x = tr_id t) (task_rows (schedule_db ?s)))" using here by simp
  ultimately show ?thesis by (metis (no_types, lifting) filter_is_subset subsetD)
qed

theorem removed_schedule_orphans_task_witness:
  "\<exists>s1 r s2. remove ''s'' (demo_service demo_claimed) = (Inr True, s1) \<and>
    reconcile_startup (\<lambda>_. 9) (restarted 8 s1) = (r, s2) \<and>
    (plain_task ''s'' ''a'' ''ka'')\<lparr>tr_schedule_id := None\<rparr> \<in> set (task_rows (schedule_db s2))"
proof -
  have nf: "plain_task ''s'' ''a'' ''ka'' \<in> set (task_rows demo_claimed)" "find_schedule ''s'' demo_claimed \<noteq> None"
    unfolding demo_claimed_def demo_created_nf
    by (simp_all add: demo_eval plain_schedule_def plain_task_def find_schedule_def)
  obtain s1 where s1: "remove ''s'' (demo_service demo_claimed) = (Inr True, s1)"
    using nf(2) by (simp add: remove_def svc_bind_def ensure_accepting_def demo_service_def svc_store_def remove_schedule_def)
  obtain r s2 where s2: "reconcile_startup (\<lambda>_. 9) (restarted 8 s1) = (r, s2)"
    by (cases "reconcile_startup (\<lambda>_. 9) (restarted 8 s1)")
  have "service_reachable (demo_service demo_claimed)"
    unfolding demo_service_def by (rule service_start) (rule demo_schedule_reachable(2))
  from removed_schedule_orphans_task [OF this _ _ _ s1 s2, of "plain_task ''s'' ''a'' ''ka''"] nf(1) s1 s2
  show ?thesis by (auto simp: demo_service_def plain_task_def)
qed

end
