(* ===== verification/Agent_Tasks.thy ===== *)
theory Agent_Tasks
  imports Store_Runs
begin

text \<open>
  The task tree of parallel agents (\<open>hachimi-storage/src/agent_store/agent_tasks.rs\<close> and the
  records of \<open>hachimi-protocol/src/agent/agent_tasks.rs\<close>): children of a run with a reserved part of
  its budget, the lease of the process that executes a child, the projection of the child's run
  onto its task, the messages to a child. The JSON documents a task touches are read and written
  through the fields of \<open>task_codec\<close>.
\<close>

section \<open>Data\<close>

datatype agent_task_status =
    Child_Queued | Child_Running | Child_Waiting | Child_NeedsAttention
  | Child_Succeeded | Child_Failed | Child_Cancelled

fun agent_task_status_str :: "agent_task_status \<Rightarrow> string" where
  "agent_task_status_str Child_Queued = ''queued''"
| "agent_task_status_str Child_Running = ''running''"
| "agent_task_status_str Child_Waiting = ''waiting''"
| "agent_task_status_str Child_NeedsAttention = ''needs_attention''"
| "agent_task_status_str Child_Succeeded = ''succeeded''"
| "agent_task_status_str Child_Failed = ''failed''"
| "agent_task_status_str Child_Cancelled = ''cancelled''"

definition parse_agent_task_status :: "string \<Rightarrow> agent_task_status option" where
  "parse_agent_task_status t = map_of (map (\<lambda>s. (agent_task_status_str s, s))
     [Child_Queued, Child_Running, Child_Waiting, Child_NeedsAttention, Child_Succeeded,
      Child_Failed, Child_Cancelled]) t"

interpretation agent_task_status: enum_codec agent_task_status_str parse_agent_task_status
  by (rule enum_codecI, rule parse_agent_task_status_def, simp, case_tac x) simp_all

definition child_is_terminal :: "agent_task_status \<Rightarrow> bool" where
  "child_is_terminal s \<longleftrightarrow> s \<in> {Child_Succeeded, Child_Failed, Child_Cancelled}"

text \<open>\<open>can_transition\<close>: staying is always allowed.\<close>

fun child_next :: "agent_task_status \<Rightarrow> agent_task_status set" where
  "child_next Child_Queued = {Child_Running, Child_NeedsAttention, Child_Failed, Child_Cancelled}"
| "child_next Child_Running =
     {Child_Waiting, Child_NeedsAttention, Child_Succeeded, Child_Failed, Child_Cancelled}"
| "child_next Child_Waiting =
     {Child_Running, Child_NeedsAttention, Child_Succeeded, Child_Failed, Child_Cancelled}"
| "child_next Child_NeedsAttention = {Child_Running, Child_Failed, Child_Cancelled}"
| "child_next _ = {}"

definition child_can_transition :: "agent_task_status \<Rightarrow> agent_task_status \<Rightarrow> bool" where
  "child_can_transition current target \<longleftrightarrow> current = target \<or> target \<in> child_next current"

record run_budget =
  bg_max_model_requests :: nat
  bg_max_tool_calls :: nat
  bg_max_parallel_read_tools :: nat
  bg_model_timeout_ms :: nat
  bg_tool_timeout_ms :: nat

record agent_task_record =
  at_id :: string
  at_root_task_id :: string
  at_root_run_id :: string
  at_parent_task_id :: "string option"
  at_parent_session_id :: string
  at_parent_run_id :: string
  at_child_session_id :: string
  at_child_run_id :: string
  at_title :: string
  at_depth :: nat
  at_status :: agent_task_status
  at_reserved_budget :: run_budget
  at_usage :: token_usage
  at_artifact_ids :: "string list"
  at_result_summary :: "string option"
  at_error_code :: "string option"
  at_created_at_ms :: int
  at_started_at_ms :: "int option"
  at_finished_at_ms :: "int option"
  at_updated_at_ms :: int

record agent_task_message =
  am_id :: string
  am_task_id :: string
  am_sender_run_id :: string
  am_recipient_run_id :: string
  am_content :: string
  am_created_at_ms :: int
  am_delivered_at_ms :: "int option"

text \<open>A row has the columns of the lease beside the record.\<close>

record agent_task_row =
  tk_task :: agent_task_record
  tk_execution_generation :: nat
  tk_lease_owner :: "string option"
  tk_lease_expires_at_ms :: "int option"
  tk_last_reconciled_at_ms :: "int option"

text \<open>The tables beside the store of the agents: tasks, messages, the transcript items that show a
  task, the billed usage of runs (\<open>run_usage_snapshots\<close>) and the artifacts of runs in the order of
  their creation.\<close>

record task_db =
  base :: store
  agent_tasks :: "agent_task_row list"
  task_messages :: "agent_task_message list"
  task_items :: "(string \<times> string) list"
  billed_usage :: "(string \<times> token_usage) list"
  run_artifacts :: "(string \<times> string) list"

type_synonym 'a ttx = "task_db \<Rightarrow> (store_error, 'a \<times> task_db) result"

text \<open>\<open>serde_json\<close> on the documents: the budget in a run's configuration, the payload of a
  collaboration item (tool name and parent run when it is one) and its rendering, the relations of
  an item with a task and artifacts set, the text of an assistant or plan payload.\<close>

record collab_call =
  cl_tool_name :: string
  cl_agent_task_id :: string
  cl_parent_run_id :: string
  cl_child_run_id :: string
  cl_title :: string
  cl_status :: string
  cl_summary :: "string option"
  cl_usage :: token_usage

record task_codec =
  configuration_budget :: "string \<Rightarrow> run_budget option"
  read_collab :: "item_payload \<Rightarrow> (string \<times> string) option"
  write_collab :: "collab_call \<Rightarrow> item_payload"
  relate_task :: "string \<Rightarrow> json \<Rightarrow> json option"
  relate_artifacts :: "string list \<Rightarrow> json \<Rightarrow> json"
  payload_text :: "item_payload \<Rightarrow> string option"

section \<open>Reading\<close>

definition find_row :: "string \<Rightarrow> task_db \<Rightarrow> agent_task_row option" where
  "find_row tid db = find (\<lambda>r. at_id (tk_task r) = tid) (agent_tasks db)"

definition get_agent_task :: "string \<Rightarrow> task_db \<Rightarrow> agent_task_record option" where
  "get_agent_task tid db = map_option tk_task (find_row tid db)"

definition get_agent_task_by_child_run :: "string \<Rightarrow> task_db \<Rightarrow> agent_task_record option" where
  "get_agent_task_by_child_run rid db =
     map_option tk_task (find (\<lambda>r. at_child_run_id (tk_task r) = rid) (agent_tasks db))"

definition tasks_where :: "(agent_task_record \<Rightarrow> bool) \<Rightarrow> task_db \<Rightarrow> agent_task_record list" where
  "tasks_where p db = filter p (map tk_task (agent_tasks db))"

definition list_agent_tasks_for_parent :: "string \<Rightarrow> task_db \<Rightarrow> agent_task_record list" where
  "list_agent_tasks_for_parent rid db =
     sort_key (\<lambda>t. (at_created_at_ms t, at_id t)) (tasks_where (\<lambda>t. at_parent_run_id t = rid) db)"

definition list_agent_tasks_for_session :: "string \<Rightarrow> task_db \<Rightarrow> agent_task_record list" where
  "list_agent_tasks_for_session sid db =
     sort_key (\<lambda>t. (at_created_at_ms t, at_id t)) (tasks_where (\<lambda>t. at_parent_session_id t = sid) db)"

definition list_nonterminal_agent_tasks :: "task_db \<Rightarrow> agent_task_record list" where
  "list_nonterminal_agent_tasks db = sort_key (\<lambda>t. (at_depth t, at_created_at_ms t, at_id t))
     (tasks_where (\<lambda>t. \<not> child_is_terminal (at_status t)) db)"

text \<open>The recursive query: the levels below a task, until one is empty; on a cycle it would not end.\<close>

definition child_rows :: "task_db \<Rightarrow> agent_task_record list \<Rightarrow> agent_task_record list" where
  "child_rows db parents = concat (map (\<lambda>p. tasks_where (\<lambda>t. at_parent_task_id t = Some (at_id p)) db) parents)"

partial_function (option) subtree_levels ::
    "task_db \<Rightarrow> agent_task_record list \<Rightarrow> agent_task_record list option" where
  "subtree_levels db level =
     (if level = [] then Some []
      else Option.bind (subtree_levels db (child_rows db level)) (\<lambda>below. Some (level @ below)))"

text \<open>\<open>ORDER BY depth DESC, created_at_ms DESC, id DESC\<close>.\<close>

definition list_agent_task_subtree :: "string \<Rightarrow> task_db \<Rightarrow> agent_task_record list option" where
  "list_agent_task_subtree tid db = map_option
     (\<lambda>ts. rev (sort_key (\<lambda>t. (at_depth t, at_created_at_ms t, at_id t)) ts))
     (subtree_levels db (tasks_where (\<lambda>t. at_id t = tid) db))"

section \<open>Creation\<close>

definition max_agent_depth :: nat where "max_agent_depth = 3"
definition max_children_per_parent :: nat where "max_children_per_parent = 16"
definition max_active_children_per_root :: nat where "max_active_children_per_root = 4"

definition child_is_active :: "agent_task_status \<Rightarrow> bool" where
  "child_is_active s \<longleftrightarrow> s \<in> {Child_Queued, Child_Running, Child_Waiting}"

definition active_in_root :: "string \<Rightarrow> task_db \<Rightarrow> nat" where
  "active_in_root rid db = count_where
     (\<lambda>r. at_root_run_id (tk_task r) = rid \<and> child_is_active (at_status (tk_task r))) (agent_tasks db)"

definition children_of_run :: "string \<Rightarrow> task_db \<Rightarrow> nat" where
  "children_of_run rid db = count_where (\<lambda>r. at_parent_run_id (tk_task r) = rid) (agent_tasks db)"

definition open_reservations :: "string \<Rightarrow> task_db \<Rightarrow> run_budget list" where
  "open_reservations rid db = map at_reserved_budget
     (tasks_where (\<lambda>t. at_parent_run_id t = rid \<and> \<not> child_is_terminal (at_status t)) db)"

definition validate_budget_reservation :: "string \<Rightarrow> run_budget \<Rightarrow> run_budget \<Rightarrow> task_db \<Rightarrow> bool" where
  "validate_budget_reservation rid parent requested db \<longleftrightarrow>
     \<not> (bg_max_model_requests requested = 0 \<or> bg_max_tool_calls requested = 0 \<or>
        bg_max_model_requests parent < bg_max_model_requests requested \<or>
        bg_max_tool_calls parent < bg_max_tool_calls requested \<or>
        bg_max_parallel_read_tools parent < bg_max_parallel_read_tools requested \<or>
        bg_model_timeout_ms parent < bg_model_timeout_ms requested \<or>
        bg_tool_timeout_ms parent < bg_tool_timeout_ms requested) \<and>
     fold (\<lambda>b n. sat_add_u32 n (bg_max_model_requests b)) (open_reservations rid db)
       (bg_max_model_requests requested) \<le> bg_max_model_requests parent \<and>
     fold (\<lambda>b n. sat_add_u32 n (bg_max_tool_calls b)) (open_reservations rid db)
       (bg_max_tool_calls requested) \<le> bg_max_tool_calls parent"

definition limit :: "bool \<Rightarrow> (store_error, unit) result" where
  "limit b = (if b then Inr () else Inl AgentTaskLimitExceeded)"

text \<open>The place of a task in its tree.\<close>

definition check_lineage :: "agent_task_record \<Rightarrow> task_db \<Rightarrow> (store_error, unit) result" where
  "check_lineage t db =
     (case at_parent_task_id t of
        Some pid \<Rightarrow>
          rbind (ok_or (AgentTaskNotFound pid) (get_agent_task pid db)) (\<lambda>p.
          limit (at_root_task_id p = at_root_task_id t \<and> at_root_run_id p = at_root_run_id t \<and>
            at_child_run_id p = at_parent_run_id t \<and> at_depth p + 1 = at_depth t))
      | None \<Rightarrow> limit (at_depth t = 1 \<and> at_root_task_id t = at_id t \<and> at_root_run_id t = at_parent_run_id t))"

text \<open>The constraints of the insertion; the title is stored trimmed.\<close>

definition new_task_row :: "agent_task_record \<Rightarrow> agent_task_row" where
  "new_task_row t = \<lparr>tk_task = t\<lparr>at_title := trim (at_title t)\<rparr>, tk_execution_generation = 0,
     tk_lease_owner = None, tk_lease_expires_at_ms = None, tk_last_reconciled_at_ms = None\<rparr>"

definition insert_agent_task :: "agent_task_record \<Rightarrow> unit ttx" where
  "insert_agent_task t db =
     (if get_agent_task (at_id t) db = None \<and> get_agent_task_by_child_run (at_child_run_id t) db = None \<and>
         run_exists (at_root_run_id t) (base db) \<and> run_exists (at_parent_run_id t) (base db) \<and>
         run_exists (at_child_run_id t) (base db) \<and> session_exists (at_parent_session_id t) (base db) \<and>
         session_exists (at_child_session_id t) (base db) \<and> 1 \<le> at_depth t \<and> at_depth t \<le> 3
      then Inr ((), db\<lparr>agent_tasks := agent_tasks db @ [new_task_row t]\<rparr>)
      else Inl Database)"

definition create_agent_task :: "task_codec \<Rightarrow> agent_task_record \<Rightarrow> agent_task_record ttx" where
  "create_agent_task codec t db =
     rbind (limit (at_status t = Child_Queued \<and> at_depth t \<noteq> 0 \<and> at_depth t \<le> max_agent_depth \<and>
       trim (at_title t) \<noteq> [] \<and> chars_count (at_title t) \<le> 200)) (\<lambda>_.
     rbind (limit (children_of_run (at_parent_run_id t) db < max_children_per_parent \<and>
       active_in_root (at_root_run_id t) db < max_active_children_per_root)) (\<lambda>_.
     rbind (ok_or (RunNotFound (at_parent_run_id t)) (get_run (at_parent_run_id t) (base db))) (\<lambda>parent.
     rbind (limit (rr_session_id parent = at_parent_session_id t)) (\<lambda>_.
     rbind (ok_or (Json ''run configuration'') (configuration_budget codec (rr_configuration parent))) (\<lambda>budget.
     rbind (limit (validate_budget_reservation (at_parent_run_id t) budget (at_reserved_budget t) db)) (\<lambda>_.
     rbind (check_lineage t db) (\<lambda>_.
     rbind (ok_or (RunNotFound (at_child_run_id t)) (get_run (at_child_run_id t) (base db))) (\<lambda>child.
     rbind (limit (rr_session_id child = at_child_session_id t)) (\<lambda>_.
     rbind (insert_agent_task t db) (\<lambda>(_, db). Inr (t, db)))))))))))"

section \<open>Leases\<close>

definition update_rows ::
    "(agent_task_row \<Rightarrow> bool) \<Rightarrow> (agent_task_row \<Rightarrow> agent_task_row) \<Rightarrow> task_db \<Rightarrow> task_db" where
  "update_rows p f db = db\<lparr>agent_tasks := update_where p f (agent_tasks db)\<rparr>"

record execution_claim =
  xc_task :: agent_task_record
  xc_execution_generation :: nat
  xc_lease_owner :: string
  xc_lease_expires_at_ms :: int

definition lease_open :: "int \<Rightarrow> agent_task_row \<Rightarrow> bool" where
  "lease_open now r \<longleftrightarrow> tk_lease_owner r = None \<or>
     (case tk_lease_expires_at_ms r of None \<Rightarrow> True | Some e \<Rightarrow> e \<le> now)"

definition claimable :: "string \<Rightarrow> int \<Rightarrow> agent_task_row \<Rightarrow> bool" where
  "claimable tid now r \<longleftrightarrow> at_id (tk_task r) = tid \<and> child_is_active (at_status (tk_task r)) \<and> lease_open now r"

definition touch :: "int \<Rightarrow> agent_task_record \<Rightarrow> agent_task_record" where
  "touch now t = t\<lparr>at_updated_at_ms := max (at_updated_at_ms t) now\<rparr>"

definition claim_agent_task_execution :: "string \<Rightarrow> string \<Rightarrow> int \<Rightarrow> int \<Rightarrow> execution_claim option ttx" where
  "claim_agent_task_execution tid owner now duration db =
     (if trim owner = [] \<or> duration \<le> 0 then Inl InvalidAgentTaskTransition
      else (let expires = sat_i64 (now + duration) in
        if \<not> list_ex (claimable tid now) (agent_tasks db) then Inr (None, db)
        else (let db = update_rows (claimable tid now) (\<lambda>r. r\<lparr>
                tk_execution_generation := tk_execution_generation r + 1, tk_lease_owner := Some owner,
                tk_lease_expires_at_ms := Some expires, tk_last_reconciled_at_ms := Some now,
                tk_task := touch now (tk_task r)\<rparr>) db in
          rbind (ok_or Database (find_row tid db)) (\<lambda>r.
          Inr (Some \<lparr>xc_task = tk_task r, xc_execution_generation = tk_execution_generation r,
            xc_lease_owner = owner, xc_lease_expires_at_ms = expires\<rparr>, db)))))"

definition holds_lease :: "string \<Rightarrow> nat \<Rightarrow> string \<Rightarrow> agent_task_row \<Rightarrow> bool" where
  "holds_lease tid generation owner r \<longleftrightarrow> at_id (tk_task r) = tid \<and>
     tk_execution_generation r = nat (i64_of_u64 generation) \<and> tk_lease_owner r = Some owner"

definition renew_agent_task_execution_lease :: "string \<Rightarrow> nat \<Rightarrow> string \<Rightarrow> int \<Rightarrow> int \<Rightarrow> bool ttx" where
  "renew_agent_task_execution_lease tid generation owner now duration db =
     (if duration \<le> 0 then Inr (False, db)
      else (let hit = (\<lambda>r. holds_lease tid generation owner r \<and> child_is_active (at_status (tk_task r))) in
        Inr (list_ex hit (agent_tasks db), update_rows hit (\<lambda>r. r\<lparr>
          tk_lease_expires_at_ms := Some (sat_i64 (now + duration)), tk_last_reconciled_at_ms := Some now\<rparr>) db)))"

definition release_agent_task_execution_lease :: "string \<Rightarrow> nat \<Rightarrow> string \<Rightarrow> int \<Rightarrow> bool ttx" where
  "release_agent_task_execution_lease tid generation owner now db =
     (let hit = holds_lease tid generation owner in
      Inr (list_ex hit (agent_tasks db), update_rows hit (\<lambda>r. r\<lparr>tk_lease_owner := None,
        tk_lease_expires_at_ms := None, tk_last_reconciled_at_ms := Some now, tk_task := touch now (tk_task r)\<rparr>) db))"

section \<open>Methods of several statements\<close>

text \<open>A method that issues its statements one by one keeps what it has written when a later one fails.\<close>

type_synonym 'a task_method = "task_db \<Rightarrow> (store_error, 'a) result \<times> task_db"

definition on_base :: "'a tx \<Rightarrow> 'a task_method" where
  "on_base m db = (case m (base db) of Inl e \<Rightarrow> (Inl e, db) | Inr (a, s) \<Rightarrow> (Inr a, db\<lparr>base := s\<rparr>))"

definition link_agent_task_transcript_item :: "task_codec \<Rightarrow> string \<Rightarrow> string \<Rightarrow> unit ttx" where
  "link_agent_task_transcript_item codec tid iid db =
     rbind (ok_or (InvalidPersistedValue ''collab transcript item'' iid)
       (find (\<lambda>i. ti_id i = iid \<and> ti_kind i = CollabToolCall_Item) (transcript_items (base db)))) (\<lambda>item.
     rbind (ok_or (Json ''item relations'') (relate_task codec tid (ti_relations item))) (\<lambda>relations.
     if get_agent_task tid db = None \<or> list_ex (\<lambda>(t, i). i = iid \<and> t \<noteq> tid) (task_items db) then Inl Database
     else Inr ((), db\<lparr>
       task_items := (if list_ex (\<lambda>(t, _). t = tid) (task_items db)
         then update_where (\<lambda>(t, _). t = tid) (\<lambda>(t, _). (t, iid)) (task_items db)
         else task_items db @ [(tid, iid)]),
       base := update_items (\<lambda>i. ti_id i = iid) (\<lambda>i. i\<lparr>ti_relations := relations\<rparr>) (base db)\<rparr>)))"

text \<open>The item that shows a task is written anew and announced as completed.\<close>

definition collab_of :: "string \<Rightarrow> string \<Rightarrow> agent_task_record \<Rightarrow> collab_call" where
  "collab_of tool parent t = \<lparr>cl_tool_name = tool, cl_agent_task_id = at_id t, cl_parent_run_id = parent,
     cl_child_run_id = at_child_run_id t, cl_title = at_title t,
     cl_status = agent_task_status_str (at_status t), cl_summary = at_result_summary t, cl_usage = at_usage t\<rparr>"

definition sync_item_tx :: "task_codec \<Rightarrow> agent_task_record \<Rightarrow> string \<Rightarrow> unit tx" where
  "sync_item_tx codec t iid =
     bind_tx (gets (\<lambda>s. find (\<lambda>i. ti_id i = iid) (transcript_items s))) (\<lambda>row.
     case row of None \<Rightarrow> ret ()
     | Some item \<Rightarrow>
         bind_tx (expect_tx (InvalidPersistedValue ''agent task transcript payload'' iid)
           (\<lambda>_. read_collab codec (ti_payload item))) (\<lambda>(tool, parent).
         bind_tx (expect_tx (Json ''item relations'') (\<lambda>_. relate_task codec (at_id t) (ti_relations item))) (\<lambda>relations.
         let item = item\<lparr>ti_payload := write_collab codec (collab_of tool parent t),
               ti_relations := relate_artifacts codec (at_artifact_ids t) relations\<rparr> in
         bind_tx (modify (update_items (\<lambda>i. ti_id i = iid)
           (\<lambda>i. i\<lparr>ti_payload := ti_payload item, ti_relations := ti_relations item\<rparr>))) (\<lambda>_.
         emit_typed_tx (ti_session_id item) (ti_run_id item) (ItemCompleted item) (at_updated_at_ms t)))))"

definition sync_agent_task_transcript_item :: "task_codec \<Rightarrow> agent_task_record \<Rightarrow> unit task_method" where
  "sync_agent_task_transcript_item codec t db =
     (case find (\<lambda>(tid, _). tid = at_id t) (task_items db) of
        None \<Rightarrow> (Inr (), db)
      | Some (_, iid) \<Rightarrow> on_base (sync_item_tx codec t iid) db)"

text \<open>The end of both methods: the task is read again and its item follows.\<close>

definition read_and_sync :: "task_codec \<Rightarrow> string \<Rightarrow> agent_task_record task_method" where
  "read_and_sync codec tid db =
     (case get_agent_task tid db of
        None \<Rightarrow> (Inl (AgentTaskNotFound tid), db)
      | Some t \<Rightarrow> (case sync_agent_task_transcript_item codec t db of
          (Inl e, db) \<Rightarrow> (Inl e, db) | (Inr _, db) \<Rightarrow> (Inr t, db)))"

definition or_else :: "'a option \<Rightarrow> 'a option \<Rightarrow> 'a option" where
  "or_else a b = (if a = None then b else a)"

definition drop_lease :: "agent_task_status \<Rightarrow> agent_task_row \<Rightarrow> agent_task_row" where
  "drop_lease status r = (if child_is_terminal status \<or> status = Child_NeedsAttention
     then r\<lparr>tk_lease_owner := None, tk_lease_expires_at_ms := None\<rparr> else r)"

section \<open>Transitions\<close>

text \<open>The update repeats the status that was read. \<open>meanwhile\<close> is what others commit between the
  reading and the update: when the status has changed, nothing is updated and no error is raised.\<close>

definition moved_task ::
    "agent_task_record \<Rightarrow> agent_task_status \<Rightarrow> string option \<Rightarrow> string option \<Rightarrow> int \<Rightarrow>
      agent_task_record \<Rightarrow> agent_task_record" where
  "moved_task current target summary code now t = t\<lparr>at_status := target,
     at_result_summary := or_else (map_option (take_chars 32000) summary) (at_result_summary t),
     at_error_code := code,
     at_started_at_ms := or_else (if target = Child_Running then Some now else None) (at_started_at_ms current),
     at_finished_at_ms := (if child_is_terminal target then Some now else None), at_updated_at_ms := now\<rparr>"

definition transition_write ::
    "task_codec \<Rightarrow> agent_task_record \<Rightarrow> agent_task_status \<Rightarrow> string option \<Rightarrow> string option \<Rightarrow> int \<Rightarrow>
      agent_task_record task_method" where
  "transition_write codec current target summary code now db = read_and_sync codec (at_id current) (update_rows
     (\<lambda>r. at_id (tk_task r) = at_id current \<and> at_status (tk_task r) = at_status current)
     (\<lambda>r. (drop_lease target r)\<lparr>tk_last_reconciled_at_ms := Some now,
        tk_task := moved_task current target summary code now (tk_task r)\<rparr>) db)"

definition transition_agent_task ::
    "task_codec \<Rightarrow> (task_db \<Rightarrow> task_db) \<Rightarrow> string \<Rightarrow> agent_task_status \<Rightarrow> string option \<Rightarrow> string option \<Rightarrow>
      int \<Rightarrow> agent_task_record task_method" where
  "transition_agent_task codec meanwhile tid target summary code now db =
     (case get_agent_task tid db of
        None \<Rightarrow> (Inl (AgentTaskNotFound tid), db)
      | Some current \<Rightarrow>
          if \<not> child_can_transition (at_status current) target then (Inl InvalidAgentTaskTransition, db)
          else transition_write codec current target summary code now (meanwhile db))"

section \<open>The projection of a run\<close>

fun projected_status :: "run_status \<Rightarrow> agent_task_status" where
  "projected_status Queued = Child_Queued"
| "projected_status Preparing = Child_Queued"
| "projected_status Running = Child_Running"
| "projected_status Recovering = Child_Running"
| "projected_status Cancelling = Child_Running"
| "projected_status WaitingApproval = Child_NeedsAttention"
| "projected_status WaitingUserInput = Child_NeedsAttention"
| "projected_status WaitingRecoveryDecision = Child_NeedsAttention"
| "projected_status Interrupted = Child_NeedsAttention"
| "projected_status Succeeded = Child_Succeeded"
| "projected_status Cancelled = Child_Cancelled"
| "projected_status Failed = Child_Failed"
| "projected_status TimedOut = Child_Failed"
| "projected_status Lost = Child_Failed"

definition latest_assistant_summary :: "task_codec \<Rightarrow> string \<Rightarrow> string \<Rightarrow> store \<Rightarrow> string option" where
  "latest_assistant_summary codec sid rid s =
     (case last_max ti_sequence (filter (\<lambda>i. ti_session_id i = sid \<and> ti_run_id i = Some rid \<and>
         ti_kind i \<in> {Assistant_Item, Plan_Item} \<and> ti_status i = ItemCompleted_Status) (transcript_items s)) of
        None \<Rightarrow> None
      | Some i \<Rightarrow> map_option (take_chars 32000) (payload_text codec (ti_payload i)))"

definition no_usage :: token_usage where
  "no_usage = \<lparr>tu_input_tokens = 0, tu_output_tokens = 0\<rparr>"

definition projected_task :: "task_codec \<Rightarrow> task_db \<Rightarrow> run_record \<Rightarrow> int \<Rightarrow> agent_task_record \<Rightarrow> agent_task_record" where
  "projected_task codec db run now t =
     (let target = projected_status (rr_status run) in
      t\<lparr>at_status := target,
        at_usage := (case map_of (billed_usage db) (rr_id run) of None \<Rightarrow> no_usage | Some u \<Rightarrow> u),
        at_artifact_ids := map fst (filter (\<lambda>(_, r). r = rr_id run) (run_artifacts db)),
        at_result_summary := or_else (latest_assistant_summary codec (at_child_session_id t) (rr_id run) (base db))
          (at_result_summary t),
        at_error_code := rr_failure_code run,
        at_started_at_ms := (if target = Child_Running then or_else (at_started_at_ms t) (Some now) else at_started_at_ms t),
        at_finished_at_ms := (if child_is_terminal target then or_else (at_finished_at_ms t) (Some now)
          else at_finished_at_ms t),
        at_updated_at_ms := now\<rparr>)"

text \<open>The update names the task only, not the status the projection was computed for; \<open>seen\<close> are the
  tables as they were read.\<close>

definition reconcile_write ::
    "task_codec \<Rightarrow> task_db \<Rightarrow> run_record \<Rightarrow> string \<Rightarrow> int \<Rightarrow> agent_task_record task_method" where
  "reconcile_write codec seen run tid now db = read_and_sync codec tid (update_rows
     (\<lambda>r. at_id (tk_task r) = tid)
     (\<lambda>r. (drop_lease (projected_status (rr_status run)) r)\<lparr>tk_last_reconciled_at_ms := Some now,
        tk_task := projected_task codec seen run now (tk_task r)\<rparr>) db)"

definition reconcile_agent_task_from_run ::
    "task_codec \<Rightarrow> (task_db \<Rightarrow> task_db) \<Rightarrow> string \<Rightarrow> int \<Rightarrow> agent_task_record task_method" where
  "reconcile_agent_task_from_run codec meanwhile tid now db =
     (case get_agent_task tid db of
        None \<Rightarrow> (Inl (AgentTaskNotFound tid), db)
      | Some t \<Rightarrow> (case get_run (at_child_run_id t) (base db) of
          None \<Rightarrow> (Inl (RunNotFound (at_child_run_id t)), db)
        | Some run \<Rightarrow> reconcile_write codec db run tid now (meanwhile db)))"

section \<open>Messages\<close>

definition append_agent_task_message :: "agent_task_message \<Rightarrow> agent_task_message ttx" where
  "append_agent_task_message m db =
     rbind (ok_or (AgentTaskNotFound (am_task_id m)) (get_agent_task (am_task_id m) db)) (\<lambda>t.
     if trim (am_content m) = [] \<or> 32000 < chars_count (am_content m) \<or>
        am_recipient_run_id m \<noteq> at_child_run_id t \<or> am_sender_run_id m \<noteq> at_parent_run_id t
     then Inl AgentTaskLimitExceeded
     else if am_id m \<in> am_id ` set (task_messages db) \<or> \<not> run_exists (am_sender_run_id m) (base db) \<or>
        \<not> run_exists (am_recipient_run_id m) (base db)
     then Inl Database
     else Inr (m, db\<lparr>task_messages := task_messages db @ [m\<lparr>am_content := trim (am_content m)\<rparr>]\<rparr>))"

record agent_task_collection =
  ac_tasks :: "agent_task_record list"
  ac_messages :: "agent_task_message list"

definition collect_agent_tasks :: "string \<Rightarrow> task_db \<Rightarrow> agent_task_collection" where
  "collect_agent_tasks rid db = \<lparr>ac_tasks = list_agent_tasks_for_parent rid db,
     ac_messages = sort_key (\<lambda>m. (am_created_at_ms m, am_id m)) (filter
       (\<lambda>m. case get_agent_task (am_task_id m) db of None \<Rightarrow> False | Some t \<Rightarrow> at_parent_run_id t = rid)
       (task_messages db))\<rparr>"

end
