(* ===== verification/Agent_Task_Steps.thy ===== *)
theory Agent_Task_Steps
  imports Agent_Tasks Store_Steps
begin

text \<open>
  The task tree as a transition system. A method that reads and later writes is two steps apart:
  the write is a step for whatever was read before. Other operations of the agent store come in
  between. The lineage of a task never changes and its tree stays well-formed.
\<close>

section \<open>Well-formed trees\<close>

text \<open>What a task is created with.\<close>

definition task_key :: "agent_task_record \<Rightarrow> agent_task_record" where
  "task_key t = t\<lparr>at_status := Child_Queued, at_usage := no_usage, at_artifact_ids := [],
     at_result_summary := None, at_error_code := None, at_started_at_ms := None,
     at_finished_at_ms := None, at_updated_at_ms := 0\<rparr>"

lemma task_key_fields [simp]:
  "at_id (task_key t) = at_id t" "at_root_task_id (task_key t) = at_root_task_id t"
  "at_root_run_id (task_key t) = at_root_run_id t" "at_parent_task_id (task_key t) = at_parent_task_id t"
  "at_parent_run_id (task_key t) = at_parent_run_id t" "at_child_run_id (task_key t) = at_child_run_id t"
  "at_depth (task_key t) = at_depth t" "at_reserved_budget (task_key t) = at_reserved_budget t"
  "at_parent_session_id (task_key t) = at_parent_session_id t"
  "at_child_session_id (task_key t) = at_child_session_id t"
  by (simp_all add: task_key_def)

lemma task_key_updates [simp]:
  "task_key (moved_task c st su co now t) = task_key t" "task_key (projected_task codec db run now t) = task_key t"
  "task_key (touch now t) = task_key t"
  by (simp_all add: task_key_def moved_task_def projected_task_def touch_def Let_def)

text \<open>\<open>p\<close> is the parent of \<open>t\<close>: the task whose run created it.\<close>

definition is_parent :: "agent_task_record \<Rightarrow> agent_task_record \<Rightarrow> bool" where
  "is_parent p t \<longleftrightarrow> at_parent_task_id t = Some (at_id p) \<and> at_root_task_id p = at_root_task_id t \<and>
     at_root_run_id p = at_root_run_id t \<and> at_child_run_id p = at_parent_run_id t \<and> at_depth t = at_depth p + 1"

definition lineage_ok :: "agent_task_record list \<Rightarrow> agent_task_record \<Rightarrow> bool" where
  "lineage_ok ts t \<longleftrightarrow> 1 \<le> at_depth t \<and> at_depth t \<le> max_agent_depth \<and>
     (if at_parent_task_id t = None
      then at_depth t = 1 \<and> at_root_task_id t = at_id t \<and> at_root_run_id t = at_parent_run_id t
      else \<exists>p \<in> set ts. is_parent p t)"

definition tree_ok :: "agent_task_record list \<Rightarrow> bool" where
  "tree_ok ts \<longleftrightarrow> distinct (map at_id ts) \<and> distinct (map at_child_run_id ts) \<and> (\<forall>t \<in> set ts. lineage_ok ts t)"

lemma is_parent_key [simp]: "is_parent (task_key p) (task_key t) = is_parent p t"
  by (simp add: is_parent_def)

lemma tree_ok_keys: "tree_ok (map task_key ts) = tree_ok ts"
  by (simp add: tree_ok_def lineage_ok_def comp_def)

text \<open>How a row may change, and the whole state.\<close>

definition row_le :: "agent_task_row \<Rightarrow> agent_task_row \<Rightarrow> bool" where
  "row_le r r' \<longleftrightarrow> task_key (tk_task r') = task_key (tk_task r) \<and>
     tk_execution_generation r \<le> tk_execution_generation r'"

interpretation task_row: row_order row_le
  by unfold_locales (auto simp: row_le_def)

definition row_ok :: "store \<Rightarrow> agent_task_row \<Rightarrow> bool" where
  "row_ok s r \<longleftrightarrow> run_exists (at_child_run_id (tk_task r)) s \<and> run_exists (at_parent_run_id (tk_task r)) s \<and>
     (tk_lease_owner r \<noteq> None \<longrightarrow> child_is_active (at_status (tk_task r)))"

definition tasks_ok :: "task_db \<Rightarrow> bool" where
  "tasks_ok db \<longleftrightarrow> store_ok (base db) \<and> tree_ok (map tk_task (agent_tasks db)) \<and>
     (\<forall>r \<in> set (agent_tasks db). row_ok (base db) r)"

definition tasks_le :: "task_db \<Rightarrow> task_db \<Rightarrow> bool" where
  "tasks_le db db' \<longleftrightarrow> evolves row_le (agent_tasks db) (agent_tasks db') \<and> store_le (base db) (base db')"

text \<open>A step keeps the invariant and the order.\<close>

definition task_advances :: "task_db \<Rightarrow> task_db \<Rightarrow> bool" where
  "task_advances db db' \<longleftrightarrow> (tasks_ok db \<longrightarrow> tasks_ok db' \<and> tasks_le db db')"

lemma tasks_le_refl: "tasks_le db db"
  by (simp add: tasks_le_def task_row.evolves_refl store_le_refl)

lemma tasks_le_trans: "tasks_le a b \<Longrightarrow> tasks_le b c \<Longrightarrow> tasks_le a c"
  by (auto simp: tasks_le_def intro: task_row.evolves_trans store_le_trans)

lemma task_advances_refl: "task_advances db db"
  by (simp add: task_advances_def tasks_le_refl)

lemma task_advances_trans: "task_advances a b \<Longrightarrow> task_advances b c \<Longrightarrow> task_advances a c"
  by (auto simp: task_advances_def intro: tasks_le_trans)

section \<open>Statements\<close>

lemma run_exists_later: "store_le s s' \<Longrightarrow> run_exists rid s \<Longrightarrow> run_exists rid s'"
proof -
  assume "store_le s s'" "run_exists rid s"
  then obtain r r' where r: "rr_id r = rid" "r' \<in> set (runs s')" "run_le r r'"
    unfolding run_exists_def store_le_def by (metis imageE run_row.evolves_row)
  then have "rr_id r' = rid" by (simp add: run_le_def)
  with r(2) show ?thesis unfolding run_exists_def by (metis image_eqI)
qed

lemma row_ok_later: "store_le s s' \<Longrightarrow> row_ok s r \<Longrightarrow> row_ok s' r"
  by (auto simp: row_ok_def intro: run_exists_later)

text \<open>Nothing but the agent store changes.\<close>

lemma advances_base:
  assumes "advances (base db) s" and "base db' = s" and "agent_tasks db' = agent_tasks db"
  shows "task_advances db db'"
  using assms
  by (auto simp: task_advances_def tasks_ok_def tasks_le_def advances_def task_row.evolves_refl intro: row_ok_later)

lemma advances_rows:
  assumes "\<And>r. r \<in> set (agent_tasks db) \<Longrightarrow> p r \<Longrightarrow> row_le r (f r)"
    and "\<And>r. r \<in> set (agent_tasks db) \<Longrightarrow> p r \<Longrightarrow> tk_lease_owner (f r) \<noteq> None \<Longrightarrow>
      (tk_lease_owner r \<noteq> None \<Longrightarrow> child_is_active (at_status (tk_task r))) \<Longrightarrow> child_is_active (at_status (tk_task (f r)))"
  shows "task_advances db (update_rows p f db)"
proof -
  have keys: "map (\<lambda>r. task_key (tk_task r)) (update_where p f (agent_tasks db)) =
      map (\<lambda>r. task_key (tk_task r)) (agent_tasks db)"
    using assms(1) by (intro map_update_where) (simp add: row_le_def)
  then have tree: "tree_ok (map tk_task (update_where p f (agent_tasks db))) = tree_ok (map tk_task (agent_tasks db))"
    by (metis (no_types, lifting) tree_ok_keys map_map comp_def map_cong)
  have row: "row_ok s (f r)" if "r \<in> set (agent_tasks db)" "p r" "row_ok s r" for r s
  proof -
    have "at_child_run_id (tk_task (f r)) = at_child_run_id (tk_task r)"
        "at_parent_run_id (tk_task (f r)) = at_parent_run_id (tk_task r)"
      using assms(1) [OF that(1,2)] unfolding row_le_def by (metis task_key_fields)+
    then show ?thesis using that assms(2) by (auto simp: row_ok_def)
  qed
  have "evolves row_le (agent_tasks db) (update_where p f (agent_tasks db))"
    using assms(1) by (rule task_row.evolves_update)
  then show ?thesis
    using tree row
    by (auto simp: task_advances_def tasks_ok_def tasks_le_def update_rows_def set_update_where store_le_refl)
qed

lemma sync_item_advances: "tx_rel advances s (sync_item_tx codec t iid)"
  unfolding sync_item_tx_def
proof (rule adv.rel_bind_gets)
  show "tx_rel advances s (case find (\<lambda>i. ti_id i = iid) (transcript_items s) of None \<Rightarrow> ret () | Some item \<Rightarrow>
      bind_tx (expect_tx (InvalidPersistedValue ''agent task transcript payload'' iid)
        (\<lambda>_. read_collab codec (ti_payload item))) (\<lambda>(tool, parent).
      bind_tx (expect_tx (Json ''item relations'') (\<lambda>_. relate_task codec (at_id t) (ti_relations item))) (\<lambda>relations.
      let item = item\<lparr>ti_payload := write_collab codec (collab_of tool parent t),
            ti_relations := relate_artifacts codec (at_artifact_ids t) relations\<rparr> in
      bind_tx (modify (update_items (\<lambda>i. ti_id i = iid)
        (\<lambda>i. i\<lparr>ti_payload := ti_payload item, ti_relations := ti_relations item\<rparr>))) (\<lambda>_.
      emit_typed_tx (ti_session_id item) (ti_run_id item) (ItemCompleted item) (at_updated_at_ms t)))))"
    unfolding Let_def
    by (cases "find (\<lambda>i. ti_id i = iid) (transcript_items s)")
      (auto intro!: adv.rel_ret adv.rel_bind adv.rel_expect adv.rel_modify adv_update_items adv_emit simp: item_le_def)
qed


text \<open>The other tables of the tasks are not part of the invariant.\<close>

lemma advances_frame:
  "base db' = base db \<Longrightarrow> agent_tasks db' = agent_tasks db \<Longrightarrow> task_advances db db'"
  by (rule advances_base [OF adv.refl]) simp_all

section \<open>Operations\<close>

lemma limit_Inr [simp]: "limit b = Inr u \<longleftrightarrow> b"
  by (simp add: limit_def)

lemma insert_agent_task_Inr:
  "insert_agent_task t db = Inr (u, db') \<longleftrightarrow> db' = db\<lparr>agent_tasks := agent_tasks db @ [new_task_row t]\<rparr> \<and>
     get_agent_task (at_id t) db = None \<and> get_agent_task_by_child_run (at_child_run_id t) db = None \<and>
     run_exists (at_root_run_id t) (base db) \<and> run_exists (at_parent_run_id t) (base db) \<and>
     run_exists (at_child_run_id t) (base db) \<and> session_exists (at_parent_session_id t) (base db) \<and>
     session_exists (at_child_session_id t) (base db) \<and> 1 \<le> at_depth t \<and> at_depth t \<le> 3"
  by (auto simp: insert_agent_task_def)

text \<open>What a successful creation has checked.\<close>

lemma create_Inr:
  assumes "create_agent_task codec t db = Inr (u, db')"
  obtains parent child budget where
    "insert_agent_task t db = Inr ((), db')" "u = t" "at_status t = Child_Queued"
    "at_depth t \<le> max_agent_depth"
    "children_of_run (at_parent_run_id t) db < max_children_per_parent"
    "active_in_root (at_root_run_id t) db < max_active_children_per_root"
    "get_run (at_parent_run_id t) (base db) = Some parent" "rr_session_id parent = at_parent_session_id t"
    "configuration_budget codec (rr_configuration parent) = Some budget"
    "validate_budget_reservation (at_parent_run_id t) budget (at_reserved_budget t) db"
    "check_lineage t db = Inr ()"
    "get_run (at_child_run_id t) (base db) = Some child" "rr_session_id child = at_child_session_id t"
  using assms unfolding create_agent_task_def rbind_Inr_iff split_paired_Ex old.unit.exhaust
  by (auto simp: case_prod_beta)

lemma find_row_Some: "find_row tid db = Some r \<Longrightarrow> r \<in> set (agent_tasks db) \<and> at_id (tk_task r) = tid"
  by (auto simp: find_row_def find_Some_iff)

lemma check_lineage_ok:
  assumes "check_lineage t db = Inr ()" "1 \<le> at_depth t" "at_depth t \<le> max_agent_depth"
  shows "lineage_ok (map tk_task (agent_tasks db)) t"
proof (cases "at_parent_task_id t")
  case None
  then show ?thesis using assms by (simp add: check_lineage_def lineage_ok_def)
next
  case (Some pid)
  then obtain p where p: "get_agent_task pid db = Some p" "at_root_task_id p = at_root_task_id t"
      "at_root_run_id p = at_root_run_id t" "at_child_run_id p = at_parent_run_id t" "at_depth p + 1 = at_depth t"
    using assms(1) by (auto simp: check_lineage_def rbind_Inr_iff)
  then obtain r where "find_row pid db = Some r" "tk_task r = p" by (auto simp: get_agent_task_def)
  then have "p \<in> set (map tk_task (agent_tasks db))" "at_id p = pid" by (auto dest: find_row_Some)
  moreover have "is_parent p t" using p Some \<open>at_id p = pid\<close> by (simp add: is_parent_def)
  ultimately show ?thesis using assms(2,3) Some unfolding lineage_ok_def by auto
qed

lemma lineage_ok_title [simp]: "lineage_ok ts (t\<lparr>at_title := x\<rparr>) = lineage_ok ts t"
  by (simp add: lineage_ok_def is_parent_def)

lemma create_advances:
  assumes "create_agent_task codec t db = Inr (u, db')"
  shows "task_advances db db'"
proof -
  from assms obtain ins: "insert_agent_task t db = Inr ((), db')" and lineage: "check_lineage t db = Inr ()"
    and depth: "at_depth t \<le> max_agent_depth" by (rule create_Inr)
  note ins = ins [unfolded insert_agent_task_Inr]
  have db': "agent_tasks db' = agent_tasks db @ [new_task_row t]" "base db' = base db" using ins by simp_all
  have new: "lineage_ok (map tk_task (agent_tasks db)) t" using check_lineage_ok [OF lineage] ins depth by simp
  have more: "lineage_ok (ts @ us) x" if "lineage_ok ts x" for ts us x
    using that by (auto simp: lineage_ok_def)
  have "at_id t \<notin> at_id ` tk_task ` set (agent_tasks db)"
      "at_child_run_id t \<notin> at_child_run_id ` tk_task ` set (agent_tasks db)"
    using ins by (auto simp: get_agent_task_def get_agent_task_by_child_run_def find_row_def find_None_iff)
  then have "tree_ok (map tk_task (agent_tasks db'))" if "tree_ok (map tk_task (agent_tasks db))"
    using that new by (auto simp: tree_ok_def db' new_task_row_def intro: more)
  moreover have "row_ok (base db) (new_task_row t)" using ins by (simp add: row_ok_def new_task_row_def)
  ultimately show ?thesis
    by (auto simp: task_advances_def tasks_ok_def tasks_le_def db' store_le_refl task_row.evolves_insert)
qed

lemma touch_status [simp]: "at_status (touch now t) = at_status t"
  by (simp add: touch_def)

lemma lease_advances:
  "claim_agent_task_execution tid owner now d db = Inr (c, db') \<Longrightarrow> task_advances db db'"
  "renew_agent_task_execution_lease tid g owner now d db = Inr (b, db') \<Longrightarrow> task_advances db db'"
  "release_agent_task_execution_lease tid g owner now db = Inr (b', db') \<Longrightarrow> task_advances db db'"
  by (auto simp: claim_agent_task_execution_def renew_agent_task_execution_lease_def rbind_def Let_def
      release_agent_task_execution_lease_def claimable_def row_le_def ok_or_def
      intro!: advances_rows task_advances_refl split: if_splits option.splits)

lemma drop_lease_fields [simp]:
  "tk_task (drop_lease st r) = tk_task r" "tk_execution_generation (drop_lease st r) = tk_execution_generation r"
  by (simp_all add: drop_lease_def)

lemma drop_lease_owner: "tk_lease_owner (drop_lease st r) \<noteq> None \<Longrightarrow> child_is_active st"
  by (cases st) (auto simp: drop_lease_def child_is_active_def child_is_terminal_def)

lemma on_base_advances:
  assumes "tx_rel advances (base db) m" and "on_base m db = (res, db')"
  shows "task_advances db db'"
proof (cases "m (base db)")
  case (Inl e)
  then show ?thesis using assms(2) by (simp add: on_base_def task_advances_refl)
next
  case (Inr q)
  then obtain a s where q: "m (base db) = Inr (a, s)" by (cases q) simp
  then have "advances (base db) s" using tx_relD [OF assms(1)] by blast
  then show ?thesis using assms(2) q by (intro advances_base) (auto simp: on_base_def)
qed

lemma sync_advances: "sync_agent_task_transcript_item codec t db = (res, db') \<Longrightarrow> task_advances db db'"
  by (auto simp: sync_agent_task_transcript_item_def task_advances_refl
      dest: on_base_advances [OF sync_item_advances] split: option.splits)

lemma read_and_sync_advances: "read_and_sync codec tid db = (res, db') \<Longrightarrow> task_advances db db'"
  by (auto simp: read_and_sync_def intro: task_advances_refl sync_advances split: option.splits prod.splits sum.splits)

lemma write_advances:
  assumes "read_and_sync codec tid (update_rows p (\<lambda>r. (drop_lease st r)\<lparr>tk_last_reconciled_at_ms := q,
      tk_task := g (tk_task r)\<rparr>) db) = (res, db')"
    and "\<And>t. task_key (g t) = task_key t" "\<And>t. at_status (g t) = st"
  shows "task_advances db db'"
proof -
  have "task_advances db (update_rows p (\<lambda>r. (drop_lease st r)\<lparr>tk_last_reconciled_at_ms := q,
      tk_task := g (tk_task r)\<rparr>) db)"
    using assms(2,3) by (intro advances_rows) (auto simp: row_le_def intro: drop_lease_owner)
  then show ?thesis using read_and_sync_advances [OF assms(1)] by (rule task_advances_trans)
qed

lemma transition_write_advances:
  "transition_write codec current target su co now db = (res, db') \<Longrightarrow> task_advances db db'"
  unfolding transition_write_def by (erule write_advances) (simp, simp add: moved_task_def)

lemma reconcile_write_advances:
  "reconcile_write codec seen run tid now db = (res, db') \<Longrightarrow> task_advances db db'"
  unfolding reconcile_write_def by (erule write_advances) (simp, simp add: projected_task_def Let_def)

lemma link_advances:
  assumes "link_agent_task_transcript_item codec tid iid db = Inr (u, db')"
  shows "task_advances db db'"
proof -
  from assms obtain relations where
    "base db' = update_items (\<lambda>i. ti_id i = iid) (\<lambda>i. i\<lparr>ti_relations := relations\<rparr>) (base db)"
    "agent_tasks db' = agent_tasks db"
    by (auto simp: link_agent_task_transcript_item_def rbind_Inr_iff split: if_splits)
  moreover have "advances (base db) (update_items (\<lambda>i. ti_id i = iid) (\<lambda>i. i\<lparr>ti_relations := relations\<rparr>) (base db))"
    by (rule adv_update_items) (simp add: item_le_def)
  ultimately show ?thesis by (intro advances_base) simp_all
qed

lemma message_advances: "append_agent_task_message m db = Inr (u, db') \<Longrightarrow> task_advances db db'"
  by (auto simp: append_agent_task_message_def rbind_def ok_or_def
      intro!: advances_frame split: option.splits if_splits)


section \<open>Steps\<close>

definition committed :: "'a ttx \<Rightarrow> task_db \<Rightarrow> task_db \<Rightarrow> bool" where
  "committed m db db' \<longleftrightarrow> (\<exists>a. m db = Inr (a, db'))"

text \<open>A write of \<open>transition_agent_task\<close> or \<open>reconcile_agent_task_from_run\<close> is a step for any record,
  tables and run read earlier.\<close>

inductive task_step :: "task_codec \<Rightarrow> task_db \<Rightarrow> task_db \<Rightarrow> bool" for codec where
  create: "committed (create_agent_task codec t) db db' \<Longrightarrow> task_step codec db db'"
| link: "committed (link_agent_task_transcript_item codec tid iid) db db' \<Longrightarrow> task_step codec db db'"
| claim: "committed (claim_agent_task_execution tid owner now d) db db' \<Longrightarrow> task_step codec db db'"
| renew: "committed (renew_agent_task_execution_lease tid g owner now d) db db' \<Longrightarrow> task_step codec db db'"
| release: "committed (release_agent_task_execution_lease tid g owner now) db db' \<Longrightarrow> task_step codec db db'"
| message: "committed (append_agent_task_message m) db db' \<Longrightarrow> task_step codec db db'"
| transition: "child_can_transition (at_status current) target \<Longrightarrow>
    transition_write codec current target su co now db = (res, db') \<Longrightarrow> task_step codec db db'"
| reconcile: "reconcile_write codec seen run tid now db = (res, db') \<Longrightarrow> task_step codec db db'"
| agents: "store_step (base db) s \<Longrightarrow> task_step codec db (db\<lparr>base := s\<rparr>)"
| others: "task_step codec db (db\<lparr>billed_usage := us, run_artifacts := as\<rparr>)"

definition empty_task_db :: task_db where
  "empty_task_db = \<lparr>base = empty_store, agent_tasks = [], task_messages = [], task_items = [],
     billed_usage = [], run_artifacts = []\<rparr>"

definition task_reachable :: "task_codec \<Rightarrow> task_db \<Rightarrow> bool" where
  "task_reachable codec = (task_step codec)\<^sup>*\<^sup>* empty_task_db"

lemma task_step_advances: "task_step codec db db' \<Longrightarrow> task_advances db db'"
proof (induction rule: task_step.induct)
  case (agents db s)
  then show ?case by (intro advances_base [OF step_advances]) simp_all
next
  case (others db us as)
  then show ?case by (intro advances_frame) simp_all
qed (auto simp: committed_def intro: create_advances link_advances lease_advances message_advances
    transition_write_advances reconcile_write_advances)

lemma task_steps_advance: "(task_step codec)\<^sup>*\<^sup>* db db' \<Longrightarrow> task_advances db db'"
  by (induction rule: rtranclp_induct)
    (auto intro: task_advances_refl task_advances_trans task_step_advances)

lemma empty_task_db_ok: "tasks_ok empty_task_db"
  by (simp add: tasks_ok_def empty_task_db_def empty_ok tree_ok_def)

lemma task_reachable_ok: "task_reachable codec db \<Longrightarrow> tasks_ok db"
  using task_steps_advance [of codec empty_task_db db] empty_task_db_ok
  by (simp add: task_reachable_def task_advances_def)

lemma task_reachable_steps: "task_reachable codec db \<Longrightarrow> (task_step codec)\<^sup>*\<^sup>* db db' \<Longrightarrow> task_reachable codec db'"
  by (simp add: task_reachable_def)

text \<open>The methods of several statements are compositions of steps, whatever happens in between.\<close>

lemma transition_agent_task_steps:
  assumes "(task_step codec)\<^sup>*\<^sup>* db (meanwhile db)"
  shows "(task_step codec)\<^sup>*\<^sup>* db (snd (transition_agent_task codec meanwhile tid target su co now db))"
proof (cases "get_agent_task tid db")
  case (Some t)
  show ?thesis
  proof (cases "child_can_transition (at_status t) target")
    case True
    then have "task_step codec (meanwhile db) (snd (transition_write codec t target su co now (meanwhile db)))"
      by (rule task_step.transition) (rule prod.collapse [symmetric])
    with assms show ?thesis using Some True
      by (simp add: transition_agent_task_def)
  qed (simp add: transition_agent_task_def Some)
qed (simp add: transition_agent_task_def)

lemma reconcile_agent_task_steps:
  assumes "(task_step codec)\<^sup>*\<^sup>* db (meanwhile db)"
  shows "(task_step codec)\<^sup>*\<^sup>* db (snd (reconcile_agent_task_from_run codec meanwhile tid now db))"
proof -
  have "task_step codec (meanwhile db) (snd (reconcile_write codec db run tid now (meanwhile db)))" for run
    by (rule task_step.reconcile) (rule prod.collapse [symmetric])
  then have "(task_step codec)\<^sup>*\<^sup>* db (snd (reconcile_write codec db run tid now (meanwhile db)))" for run
    using assms by (meson rtranclp.rtrancl_into_rtrancl)
  then show ?thesis by (simp add: reconcile_agent_task_from_run_def split: option.split)
qed

section \<open>Rows of a step\<close>

definition task_keys :: "task_db \<Rightarrow> agent_task_record list" where
  "task_keys db = map (\<lambda>r. task_key (tk_task r)) (agent_tasks db)"

lemma read_and_sync_tasks [simp]: "agent_tasks (snd (read_and_sync codec tid db)) = agent_tasks db"
  by (auto simp: read_and_sync_def sync_agent_task_transcript_item_def on_base_def
      split: option.splits prod.splits sum.splits)

lemma task_keys_update:
  "(\<And>r. task_key (tk_task (f r)) = task_key (tk_task r)) \<Longrightarrow> task_keys (update_rows p f db) = task_keys db"
  unfolding task_keys_def update_rows_def by (simp add: map_update_where)


lemma step_keys:
  assumes "task_step codec db db'"
  shows "task_keys db' = task_keys db \<or>
    (\<exists>t. create_agent_task codec t db = Inr (t, db') \<and> 
       task_keys db' = task_keys db @ [task_key (tk_task (new_task_row t))])"
  using assms
proof (induction rule: task_step.induct)
  case (create t db db')
  then obtain u where u: "create_agent_task codec t db = Inr (u, db')" by (auto simp: committed_def)
  then obtain "insert_agent_task t db = Inr ((), db')" "u = t" by (rule create_Inr)
  then show ?case using u by (auto simp: insert_agent_task_Inr task_keys_def)
next
  case (link tid iid db db')
  then have "agent_tasks db' = agent_tasks db"
    by (auto simp: committed_def link_agent_task_transcript_item_def rbind_Inr_iff split: if_splits)
  then show ?case by (simp add: task_keys_def)
next
  case (claim tid owner now d db db')
  then have "db' = db \<or> (\<exists>p f. db' = update_rows p f db \<and> (\<forall>r. task_key (tk_task (f r)) = task_key (tk_task r)))"
    by (fastforce simp: committed_def claim_agent_task_execution_def rbind_Inr_iff Let_def split: if_splits)
  then show ?case using task_keys_update by metis
next
  case (renew tid g owner now d db db')
  then have "db' = db \<or> (\<exists>p f. db' = update_rows p f db \<and> (\<forall>r. task_key (tk_task (f r)) = task_key (tk_task r)))"
    by (fastforce simp: committed_def renew_agent_task_execution_lease_def Let_def split: if_splits)
  then show ?case using task_keys_update by metis
next
  case (release tid g owner now db db')
  then show ?case
    by (auto simp: committed_def release_agent_task_execution_lease_def Let_def task_keys_update)
next
  case (message m db db')
  then show ?case
    by (auto simp: committed_def append_agent_task_message_def rbind_Inr_iff task_keys_def split: if_splits)
next
  case (transition current target su co now db res db')
  have "task_keys (snd (transition_write codec current target su co now db)) = task_keys db"
    using task_keys_update [of "\<lambda>r. (drop_lease target r)\<lparr>tk_last_reconciled_at_ms := Some now,
        tk_task := moved_task current target su co now (tk_task r)\<rparr>"]
    by (simp add: transition_write_def task_keys_def)
  then show ?case using transition by simp
next
  case (reconcile seen run tid now db res db')
  have "task_keys (snd (reconcile_write codec seen run tid now db)) = task_keys db"
    using task_keys_update [of "\<lambda>r. (drop_lease (projected_status (rr_status run)) r)\<lparr>
        tk_last_reconciled_at_ms := Some now, tk_task := projected_task codec seen run now (tk_task r)\<rparr>"]
    by (simp add: reconcile_write_def task_keys_def)
  then show ?case using reconcile by simp
qed (simp_all add: task_keys_def)

end
