(* ===== verification/Agent_Task_Lease.thy ===== *)
theory Agent_Task_Lease
  imports Agent_Task_Steps
begin

text \<open>
  The execution lease of a task as an abstract machine: a generation and, at most, one holder.
  Every step of the task tables acts on the lease of a task as one event of the machine or not at
  all, and the machine gives the fencing of old generations.
\<close>

section \<open>The abstract lease\<close>

record lease =
  ls_generation :: nat
  ls_holder :: "(string \<times> int option) option"

datatype lease_event = Acquire string int int | Renew string nat int | Release string nat | Drop

definition free_at :: "int \<Rightarrow> lease \<Rightarrow> bool" where
  "free_at now l \<longleftrightarrow> (case ls_holder l of Some (_, Some e) \<Rightarrow> e \<le> now | _ \<Rightarrow> True)"

definition held_by :: "string \<Rightarrow> nat \<Rightarrow> lease \<Rightarrow> bool" where
  "held_by owner g l \<longleftrightarrow> ls_generation l = g \<and> (\<exists>e. ls_holder l = Some (owner, e))"

fun lease_apply :: "lease_event \<Rightarrow> lease \<Rightarrow> lease option" where
  "lease_apply (Acquire owner now e) l =
     (if free_at now l then Some \<lparr>ls_generation = ls_generation l + 1, ls_holder = Some (owner, Some e)\<rparr> else None)"
| "lease_apply (Renew owner g e) l = (if held_by owner g l then Some (l\<lparr>ls_holder := Some (owner, Some e)\<rparr>) else None)"
| "lease_apply (Release owner g) l = (if held_by owner g l then Some (l\<lparr>ls_holder := None\<rparr>) else None)"
| "lease_apply Drop l = Some (l\<lparr>ls_holder := None\<rparr>)"

section \<open>The abstraction\<close>

definition lease_row :: "agent_task_row \<Rightarrow> lease" where
  "lease_row r = \<lparr>ls_generation = tk_execution_generation r,
     ls_holder = map_option (\<lambda>w. (w, tk_lease_expires_at_ms r)) (tk_lease_owner r)\<rparr>"

definition lease_of :: "string \<Rightarrow> task_db \<Rightarrow> lease option" where
  "lease_of tid db = map_option lease_row (find_row tid db)"

lemma lease_open_free: "lease_open now r = free_at now (lease_row r)"
  by (auto simp: lease_open_def free_at_def lease_row_def split: option.splits)

lemma find_row_update:
  assumes "\<And>r. p r \<Longrightarrow> at_id (tk_task (f r)) = at_id (tk_task r)"
  shows "find_row tid (update_rows p f db) = map_option (\<lambda>r. if p r then f r else r) (find_row tid db)"
  using assms by (simp add: find_row_def update_rows_def find_update_where)

lemma find_row_base: "agent_tasks db' = agent_tasks db \<Longrightarrow> find_row tid db' = find_row tid db"
  by (simp add: find_row_def)

lemma touch_id [simp]: "at_id (touch now t) = at_id t"
  by (simp add: touch_def)

lemma find_row_sync [simp]: "find_row tid (snd (read_and_sync codec t db)) = find_row tid db"
  by (rule find_row_base) simp

section \<open>Refinement\<close>

text \<open>What a step does to a lease.\<close>

definition lease_follows :: "lease option \<Rightarrow> lease option \<Rightarrow> bool" where
  "lease_follows l l' \<longleftrightarrow> (\<forall>x. l = Some x \<longrightarrow> l' = Some x \<or> (\<exists>ev. l' = lease_apply ev x \<and> l' \<noteq> None))"

lemma lease_follows_same: "find_row tid db' = find_row tid db \<Longrightarrow> lease_follows (lease_of tid db) (lease_of tid db')"
  by (simp add: lease_follows_def lease_of_def)

lemma lease_follows_update:
  assumes "\<And>r. p r \<Longrightarrow> at_id (tk_task (f r)) = at_id (tk_task r)"
    and "\<And>r. p r \<Longrightarrow> lease_row (f r) = lease_row r \<or> (\<exists>ev. Some (lease_row (f r)) = lease_apply ev (lease_row r))"
  shows "lease_follows (lease_of tid db) (lease_of tid (update_rows p f db))"
  using assms(2) by (fastforce simp: lease_follows_def lease_of_def find_row_update [OF assms(1)])

lemma claim_follows:
  assumes "claim_agent_task_execution t owner now d db = Inr (c, db')"
  shows "lease_follows (lease_of tid db) (lease_of tid db')"
proof -
  have ev: "Some (lease_row (r\<lparr>tk_execution_generation := tk_execution_generation r + 1, tk_lease_owner := Some owner,
        tk_lease_expires_at_ms := Some e, tk_last_reconciled_at_ms := Some now, tk_task := touch now (tk_task r)\<rparr>)) =
      lease_apply (Acquire owner now e) (lease_row r)" if "claimable t now r" for r e
    using that by (simp add: claimable_def lease_open_free) (simp add: lease_row_def)
  consider "db' = db" | e where "db' = update_rows (claimable t now) (\<lambda>r. r\<lparr>
      tk_execution_generation := tk_execution_generation r + 1, tk_lease_owner := Some owner,
      tk_lease_expires_at_ms := Some e, tk_last_reconciled_at_ms := Some now, tk_task := touch now (tk_task r)\<rparr>) db"
    using assms by (auto simp: claim_agent_task_execution_def Let_def rbind_Inr_iff split: if_splits)
  then show ?thesis
  proof cases
    case 2
    show ?thesis unfolding 2 by (rule lease_follows_update) (simp, use ev in blast)
  qed (simp add: lease_follows_same)
qed

lemma held_by_row: "holds_lease t g owner r \<Longrightarrow> held_by owner (tk_execution_generation r) (lease_row r)"
  by (simp add: holds_lease_def held_by_def lease_row_def)

lemma renew_follows:
  assumes "renew_agent_task_execution_lease t g owner now d db = Inr (b, db')"
  shows "lease_follows (lease_of tid db) (lease_of tid db')"
proof (cases "d \<le> 0")
  case True
  then show ?thesis using assms by (simp add: renew_agent_task_execution_lease_def lease_follows_same)
next
  case False
  have ev: "Some (lease_row (r\<lparr>tk_lease_expires_at_ms := Some e, tk_last_reconciled_at_ms := Some now\<rparr>)) =
      lease_apply (Renew owner (tk_execution_generation r) e) (lease_row r)" if "holds_lease t g owner r" for r e
    using held_by_row [OF that] that by (simp add: lease_row_def holds_lease_def)
  have db': "db' = update_rows (\<lambda>r. holds_lease t g owner r \<and> child_is_active (at_status (tk_task r)))
      (\<lambda>r. r\<lparr>tk_lease_expires_at_ms := Some (sat_i64 (now + d)), tk_last_reconciled_at_ms := Some now\<rparr>) db"
    using assms False by (simp add: renew_agent_task_execution_lease_def Let_def)
  show ?thesis unfolding db' by (rule lease_follows_update) (simp, use ev in blast)
qed

lemma release_follows:
  assumes "release_agent_task_execution_lease t g owner now db = Inr (b, db')"
  shows "lease_follows (lease_of tid db) (lease_of tid db')"
proof -
  have ev: "Some (lease_row (r\<lparr>tk_lease_owner := None, tk_lease_expires_at_ms := None,
        tk_last_reconciled_at_ms := Some now, tk_task := touch now (tk_task r)\<rparr>)) =
      lease_apply (Release owner (tk_execution_generation r)) (lease_row r)" if "holds_lease t g owner r" for r
    using held_by_row [OF that] by (simp add: lease_row_def)
  have db': "db' = update_rows (holds_lease t g owner) (\<lambda>r. r\<lparr>tk_lease_owner := None,
      tk_lease_expires_at_ms := None, tk_last_reconciled_at_ms := Some now, tk_task := touch now (tk_task r)\<rparr>) db"
    using assms by (simp add: release_agent_task_execution_lease_def Let_def)
  show ?thesis unfolding db' by (rule lease_follows_update) (simp, use ev in blast)
qed

lemma write_follows:
  assumes "read_and_sync codec t (update_rows p (\<lambda>r. (drop_lease st r)\<lparr>tk_last_reconciled_at_ms := q,
      tk_task := g (tk_task r)\<rparr>) db) = (res, db')" and "\<And>x. at_id (g x) = at_id x"
  shows "lease_follows (lease_of tid db) (lease_of tid db')"
proof -
  let ?f = "\<lambda>r. (drop_lease st r)\<lparr>tk_last_reconciled_at_ms := q, tk_task := g (tk_task r)\<rparr>"
  have "find_row tid db' = find_row tid (update_rows p ?f db)"
    using find_row_sync [of tid codec t "update_rows p ?f db"] assms(1) by simp
  moreover have "lease_row (?f r) = lease_row r \<or> Some (lease_row (?f r)) = lease_apply Drop (lease_row r)" for r
    by (simp add: drop_lease_def lease_row_def)
  then have "lease_follows (lease_of tid db) (lease_of tid (update_rows p ?f db))"
    using assms(2) by (intro lease_follows_update) (simp, blast)
  ultimately show ?thesis by (simp add: lease_of_def)
qed

lemma moved_ids [simp]: "at_id (moved_task c st su co now t) = at_id t" "at_id (projected_task codec db run now t) = at_id t"
  by (simp_all add: moved_task_def projected_task_def Let_def)

lemma step_follows: "task_step codec db db' \<Longrightarrow> lease_follows (lease_of tid db) (lease_of tid db')"
proof (induction rule: task_step.induct)
  case (create t db db')
  then obtain u where "create_agent_task codec t db = Inr (u, db')" by (auto simp: committed_def)
  then obtain "insert_agent_task t db = Inr ((), db')" by (rule create_Inr)
  then show ?case
    by (auto simp: insert_agent_task_Inr lease_follows_def lease_of_def find_row_def find_append split: option.splits)
next
  case (link t iid db db')
  then show ?case
    by (auto simp: committed_def link_agent_task_transcript_item_def rbind_Inr_iff
        intro!: lease_follows_same find_row_base split: if_splits)
next
  case (message m db db')
  then show ?case
    by (auto simp: committed_def append_agent_task_message_def rbind_Inr_iff
        intro!: lease_follows_same find_row_base split: if_splits)
next
  case (transition current target su co now db res db')
  then show ?case unfolding transition_write_def by (elim write_follows) simp
next
  case (reconcile seen run t now db res db')
  then show ?case unfolding reconcile_write_def by (elim write_follows) simp
next
  case (agents db s)
  show ?case by (rule lease_follows_same, rule find_row_base) simp
next
  case (others db us as)
  show ?case by (rule lease_follows_same, rule find_row_base) simp
qed (auto simp: committed_def intro: claim_follows renew_follows release_follows)

section \<open>Fencing\<close>

lemma lease_apply_generation: "lease_apply ev l = Some l' \<Longrightarrow> ls_generation l \<le> ls_generation l'"
  by (cases ev) (auto split: if_splits)

lemma generation_mono:
  assumes "(task_step codec)\<^sup>*\<^sup>* db db'" and "lease_of tid db = Some l"
  shows "\<exists>l'. lease_of tid db' = Some l' \<and> ls_generation l \<le> ls_generation l'"
  using assms
proof (induction rule: rtranclp_induct)
  case (step a b)
  then obtain x where x: "lease_of tid a = Some x" "ls_generation l \<le> ls_generation x" by blast
  then have "lease_of tid b = Some x \<or> (\<exists>ev. lease_of tid b = lease_apply ev x \<and> lease_of tid b \<noteq> None)"
    using step_follows [OF step.hyps(2), of tid] by (simp add: lease_follows_def)
  then show ?case using x(2) lease_apply_generation by (metis option.exhaust order_trans)
qed simp

lemma row_of_task:
  assumes "tasks_ok db" and "r \<in> set (agent_tasks db)" and "at_id (tk_task r) = tid"
  shows "find_row tid db = Some r"
proof -
  have "distinct (map (\<lambda>r. at_id (tk_task r)) (agent_tasks db))"
    using assms(1) by (simp add: tasks_ok_def tree_ok_def comp_def)
  then show ?thesis using find_key assms(2,3) unfolding find_row_def by fastforce
qed

lemma claim_generation:
  assumes "tasks_ok db" and "claim_agent_task_execution tid owner now d db = Inr (Some c, db')"
  obtains l where "lease_of tid db = Some l" "free_at now l" "xc_execution_generation c = ls_generation l + 1"
    "lease_of tid db' = Some \<lparr>ls_generation = ls_generation l + 1, ls_holder = Some (owner, Some (sat_i64 (now + d)))\<rparr>"
proof -
  from assms(2) obtain r where r: "r \<in> set (agent_tasks db)" "claimable tid now r"
    by (auto simp: claim_agent_task_execution_def Let_def list_ex_iff split: if_splits)
  then have row: "find_row tid db = Some r" using row_of_task [OF assms(1)] by (simp add: claimable_def)
  have "list_ex (claimable tid now) (agent_tasks db)" using r by (auto simp: list_ex_iff)
  then have "db' = update_rows (claimable tid now) (\<lambda>r. r\<lparr>
      tk_execution_generation := tk_execution_generation r + 1, tk_lease_owner := Some owner,
      tk_lease_expires_at_ms := Some (sat_i64 (now + d)), tk_last_reconciled_at_ms := Some now,
      tk_task := touch now (tk_task r)\<rparr>) db" and c: "rbind (ok_or Database (find_row tid db'))
      (\<lambda>r. Inr (xc_execution_generation c = tk_execution_generation r)) = Inr True"
    using assms(2) by (auto simp: claim_agent_task_execution_def Let_def rbind_Inr_iff split: if_splits)
  then have "find_row tid db' = Some (r\<lparr>
      tk_execution_generation := tk_execution_generation r + 1, tk_lease_owner := Some owner,
      tk_lease_expires_at_ms := Some (sat_i64 (now + d)), tk_last_reconciled_at_ms := Some now,
      tk_task := touch now (tk_task r)\<rparr>)"
    using row r(2) by (simp add: find_row_update)
  then show ?thesis
    using that [of "lease_row r"] row r(2) c
    by (simp add: lease_of_def lease_row_def [of r] claimable_def lease_open_free) (simp add: lease_row_def)
qed

lemma stale_holds_nothing:
  assumes "tasks_ok db" "lease_of tid db = Some l" "g < ls_generation l" "ls_generation l < 2 ^ 63"
  shows "\<forall>r \<in> set (agent_tasks db). \<not> holds_lease tid g owner r"
proof
  fix r assume r: "r \<in> set (agent_tasks db)"
  show "\<not> holds_lease tid g owner r"
  proof
    assume h: "holds_lease tid g owner r"
    then have "find_row tid db = Some r" using row_of_task [OF assms(1) r] by (simp add: holds_lease_def)
    then have "tk_execution_generation r = ls_generation l" using assms(2) by (auto simp: lease_of_def lease_row_def)
    moreover have "nat (i64_of_u64 g) = g" using assms(3,4) by (simp add: i64_of_u64_def i64_max_def)
    ultimately show False using h assms(3) by (simp add: holds_lease_def)
  qed
qed

lemma update_rows_none: "\<forall>r \<in> set (agent_tasks db). \<not> p r \<Longrightarrow> update_rows p f db = db"
  by (simp add: update_rows_def update_where_def cong: map_cong)

end
