(* ===== verification/Agent_Task_Demo.thy ===== *)
theory Agent_Task_Demo
  imports Agent_Task_Lease Store_Demo
begin

text \<open>
  Executions of the task tables on concrete data, for the witnesses: children of the demonstration
  run, their leases and their statuses.
\<close>

definition demo_child_run :: "string \<Rightarrow> run_record" where
  "demo_child_run k = demo_run\<lparr>rr_id := k\<rparr>"

definition with_run :: "string \<Rightarrow> store \<Rightarrow> store" where
  "with_run k = after (create_run_idempotent ''p'' k (demo_child_run k))"

definition demo_session_only :: store where
  "demo_session_only = after (create_session demo_session) empty_store"

definition demo_runs_a :: store where
  "demo_runs_a = with_run ''a'' demo_session_only"

definition demo_runs_b :: store where
  "demo_runs_b = with_run ''b'' demo_runs_a"

definition demo_runs_c :: store where
  "demo_runs_c = with_run ''c'' demo_runs_b"

definition demo_runs_d :: store where
  "demo_runs_d = with_run ''d'' demo_runs_c"

definition demo_runs :: store where
  "demo_runs = with_run ''e'' demo_runs_d"

lemma demo_runs_run: "store_run empty_store demo_runs"
proof -
  have "store_run s0 (with_run k s)" if "store_run s0 s" for s0 s k
    using that unfolding with_run_def by (rule after_run) (rule store_step.run)
  moreover have "store_run empty_store demo_session_only"
    unfolding demo_session_only_def by (rule after_run [OF store_run.start]) (rule store_step.session)
  ultimately show ?thesis by (simp add: demo_runs_def demo_runs_d_def demo_runs_c_def demo_runs_b_def demo_runs_a_def)
qed

declare demo_ops [simp] with_run_def [simp] demo_child_run_def [simp] idempotency_key_def [simp]

lemmas demo_session_only_nf = demo_session_only_def [simplified]
lemmas demo_runs_a_nf = demo_runs_a_def [unfolded demo_session_only_nf, simplified]
lemmas demo_runs_b_nf = demo_runs_b_def [unfolded demo_runs_a_nf, simplified]
lemmas demo_runs_c_nf = demo_runs_c_def [unfolded demo_runs_b_nf, simplified]
lemmas demo_runs_d_nf = demo_runs_d_def [unfolded demo_runs_c_nf, simplified]
lemmas demo_runs_nf = demo_runs_def [unfolded demo_runs_d_nf, simplified]

declare demo_ops [simp del] with_run_def [simp del] demo_child_run_def [simp del] idempotency_key_def [simp del]

lemma demo_runs_facts:
  "get_run ''a'' demo_runs = Some (demo_child_run ''a'')" "get_run ''b'' demo_runs = Some (demo_child_run ''b'')"
  "get_run ''c'' demo_runs = Some (demo_child_run ''c'')" "get_run ''d'' demo_runs = Some (demo_child_run ''d'')"
  "get_run ''e'' demo_runs = Some (demo_child_run ''e'')"
  "run_exists ''a'' demo_runs" "run_exists ''b'' demo_runs" "run_exists ''c'' demo_runs"
  "run_exists ''d'' demo_runs" "run_exists ''e'' demo_runs"
  "session_exists ''s'' demo_runs" "transcript_items demo_runs = []"
  by (simp_all add: demo_runs_nf demo_child_run_def demo_run_def get_run_def run_exists_def session_exists_def)

lemma demo_runs_agree: "rr_session_id (demo_child_run k) = ''s''" "rr_configuration demo_run = []"
    "rr_session_id demo_run = ''s''" "rr_status (demo_child_run k) = Queued" "rr_id (demo_child_run k) = k"
    "rr_failure_code (demo_child_run k) = None"
  by (simp_all add: demo_child_run_def demo_run_def)

definition demo_budget :: "nat \<Rightarrow> run_budget" where
  "demo_budget n = \<lparr>bg_max_model_requests = n, bg_max_tool_calls = n, bg_max_parallel_read_tools = 1,
     bg_model_timeout_ms = 1000, bg_tool_timeout_ms = 1000\<rparr>"

definition demo_codec :: task_codec where
  "demo_codec = \<lparr>configuration_budget = \<lambda>_. Some (demo_budget 10), read_collab = \<lambda>_. None,
     write_collab = undefined, relate_task = \<lambda>_ _. None, relate_artifacts = \<lambda>_ r. r, payload_text = \<lambda>_. None\<rparr>"

definition demo_child :: "string \<Rightarrow> agent_task_record" where
  "demo_child k = \<lparr>at_id = k, at_root_task_id = k, at_root_run_id = ''a'', at_parent_task_id = None,
     at_parent_session_id = ''s'', at_parent_run_id = ''a'', at_child_session_id = ''s'', at_child_run_id = k,
     at_title = ''x'', at_depth = 1, at_status = Child_Queued, at_reserved_budget = demo_budget 2,
     at_usage = no_usage, at_artifact_ids = [], at_result_summary = None, at_error_code = None,
     at_created_at_ms = 5, at_started_at_ms = None, at_finished_at_ms = None, at_updated_at_ms = 5\<rparr>"

definition tasks_after :: "'a ttx \<Rightarrow> task_db \<Rightarrow> task_db" where
  "tasks_after m db = (case m db of Inl _ \<Rightarrow> db | Inr (_, db') \<Rightarrow> db')"

definition spawn :: "string \<Rightarrow> task_db \<Rightarrow> task_db" where
  "spawn k = tasks_after (create_agent_task demo_codec (demo_child k))"

definition move :: "string \<Rightarrow> agent_task_status \<Rightarrow> task_db \<Rightarrow> task_db" where
  "move k st db = snd (transition_agent_task demo_codec id k st None None 6 db)"

definition demo_tables :: task_db where
  "demo_tables = empty_task_db\<lparr>base := demo_runs\<rparr>"

definition demo_one :: task_db where
  "demo_one = spawn ''a'' demo_tables"

definition demo_four :: task_db where
  "demo_four = fold spawn [''b'', ''c'', ''d''] demo_one"

definition demo_waiting_one :: task_db where
  "demo_waiting_one = move ''a'' Child_NeedsAttention demo_four"

definition demo_and_e :: task_db where
  "demo_and_e = spawn ''e'' demo_waiting_one"

definition demo_five :: task_db where
  "demo_five = move ''a'' Child_Running demo_and_e"

definition demo_cancelled_task :: task_db where
  "demo_cancelled_task = move ''a'' Child_Cancelled demo_one"

lemma base_steps: "store_run s s' \<Longrightarrow> (task_step codec)\<^sup>*\<^sup>* (db\<lparr>base := s\<rparr>) (db\<lparr>base := s'\<rparr>)"
proof (induction rule: store_run.induct)
  case (more s s' s'')
  then show ?case
    using task_step.agents [of "db\<lparr>base := s'\<rparr>" s'' codec] by (auto intro: rtranclp.rtrancl_into_rtrancl)
qed simp

lemma tasks_after_steps:
  "(\<And>db'. committed m db db' \<Longrightarrow> task_step codec db db') \<Longrightarrow> (task_step codec)\<^sup>*\<^sup>* db (tasks_after m db)"
  by (auto simp: tasks_after_def committed_def split: sum.split)

lemma spawn_steps: "(task_step demo_codec)\<^sup>*\<^sup>* db (spawn k db)"
  unfolding spawn_def by (rule tasks_after_steps) (rule task_step.create)

lemma move_steps: "(task_step demo_codec)\<^sup>*\<^sup>* db (move k st db)"
  unfolding move_def by (rule transition_agent_task_steps) simp

lemma demo_tables_reachable: "task_reachable demo_codec demo_tables"
proof -
  show ?thesis
    using base_steps [OF demo_runs_run, of demo_codec empty_task_db]
    by (simp add: task_reachable_def demo_tables_def) (simp add: empty_task_db_def)
qed

lemma demo_tasks_reachable:
  "task_reachable demo_codec demo_one" "task_reachable demo_codec demo_four"
  "task_reachable demo_codec demo_five" "task_reachable demo_codec demo_cancelled_task"
proof -
  note r = task_reachable_steps [OF _ spawn_steps] task_reachable_steps [OF _ move_steps]
  show one: "task_reachable demo_codec demo_one"
    unfolding demo_one_def by (intro r demo_tables_reachable)
  show four: "task_reachable demo_codec demo_four"
    unfolding demo_four_def by (simp, intro r one)
  show "task_reachable demo_codec demo_five" "task_reachable demo_codec demo_cancelled_task"
    unfolding demo_five_def demo_and_e_def demo_waiting_one_def demo_cancelled_task_def by (intro r four one)+
qed

section \<open>Evaluation\<close>

lemmas task_eval = spawn_def move_def tasks_after_def create_agent_task_def insert_agent_task_def limit_def
  new_task_row_def demo_child_def demo_codec_def demo_budget_def validate_budget_reservation_def
  open_reservations_def tasks_where_def children_of_run_def active_in_root_def check_lineage_def
  get_agent_task_def get_agent_task_by_child_run_def find_row_def 
  demo_runs_facts demo_runs_agree child_is_active_def child_is_terminal_def child_can_transition_def
  max_agent_depth_def max_children_per_parent_def max_active_children_per_root_def sat_add_u32_def u32_max_def
  transition_agent_task_def transition_write_def read_and_sync_def sync_agent_task_transcript_item_def
  update_rows_def moved_task_def drop_lease_def or_else_def chars_count_def

lemma trim_x [simp]: "trim ''x'' = ''x''"
  by code_simp

lemma demo_one_nf: "demo_one = demo_tables\<lparr>agent_tasks := [new_task_row (demo_child ''a'')]\<rparr>"
  by (simp add: demo_one_def demo_tables_def empty_task_db_def task_eval)

text \<open>Without a transcript item nothing but the row changes.\<close>

lemma move_eq:
  assumes "find_row k db = Some r" "task_items db = []" "child_can_transition (at_status (tk_task r)) st"
  shows "move k st db = update_rows (\<lambda>x. at_id (tk_task x) = k \<and> at_status (tk_task x) = at_status (tk_task r))
    (\<lambda>x. (drop_lease st x)\<lparr>tk_last_reconciled_at_ms := Some 6,
       tk_task := moved_task (tk_task r) st None None 6 (tk_task x)\<rparr>) db"
proof -
  have "at_id (tk_task r) = k" using find_row_Some [OF assms(1)] by simp
  moreover have "task_items (update_rows p f db) = []" for p f using assms(2) by (simp add: update_rows_def)
  ultimately show ?thesis
    using assms find_row_update [of "\<lambda>x. at_id (tk_task x) = k \<and> at_status (tk_task x) = at_status (tk_task r)"
        "\<lambda>x. (drop_lease st x)\<lparr>tk_last_reconciled_at_ms := Some 6,
          tk_task := moved_task (tk_task r) st None None 6 (tk_task x)\<rparr>" k db]
    by (simp add: move_def transition_agent_task_def transition_write_def get_agent_task_def read_and_sync_def
        sync_agent_task_transcript_item_def)
qed

lemma demo_child_row [simp]:
  "tk_task (new_task_row (demo_child k)) = demo_child k" "at_id (demo_child k) = k"
  "at_status (demo_child k) = Child_Queued" "at_root_run_id (demo_child k) = ''a''"
  "at_parent_run_id (demo_child k) = ''a''" "at_child_run_id (demo_child k) = k"
  "at_reserved_budget (demo_child k) = demo_budget 2" "at_parent_task_id (demo_child k) = None"
  "at_root_task_id (demo_child k) = k" "at_depth (demo_child k) = 1" "at_title (demo_child k) = ''x''"
  "at_parent_session_id (demo_child k) = ''s''" "at_child_session_id (demo_child k) = ''s''"
  by (simp_all add: new_task_row_def demo_child_def)

lemma demo_codec_budget [simp]: "configuration_budget demo_codec c = Some (demo_budget 10)"
  by (simp add: demo_codec_def)

lemma drop_lease_new [simp]: "drop_lease st (new_task_row t) = new_task_row t"
  by (simp add: drop_lease_def new_task_row_def)

text \<open>The rows are kept folded: these are the facts an operation reads of them.\<close>

lemma spawn_eq:
  assumes "find_row k db = None" "get_agent_task_by_child_run k db = None" "get_run k demo_runs = Some (demo_child_run k)"
    "run_exists k demo_runs" "base db = demo_runs"
    "children_of_run ''a'' db < 16" "active_in_root ''a'' db < 4" "set (open_reservations ''a'' db) \<subseteq> {demo_budget 2}"
    "length (open_reservations ''a'' db) < 5"
  shows "spawn k db = db\<lparr>agent_tasks := agent_tasks db @ [new_task_row (demo_child k)]\<rparr>"
proof -
  have *: "set bs \<subseteq> {demo_budget 2} \<Longrightarrow> fold (\<lambda>b n. sat_add_u32 n (f b)) bs n = fold (\<lambda>_ n. sat_add_u32 n (f (demo_budget 2))) bs n"
    for f bs n by (induction bs arbitrary: n) auto
  have **: "fold (\<lambda>_ n. sat_add_u32 n 2) bs n \<le> n + 2 * length bs" for bs :: "run_budget list" and n
  proof (induction bs arbitrary: n)
    case (Cons b bs)
    have "sat_add_u32 n 2 \<le> n + 2" by (simp add: sat_add_u32_def)
    then show ?case using Cons.IH [of "sat_add_u32 n 2"] by simp
  qed simp
  have budget: "validate_budget_reservation ''a'' (demo_budget 10) (demo_budget 2) db"
    using * [OF assms(8), of bg_max_model_requests] * [OF assms(8), of bg_max_tool_calls]
      assms(9) ** [of "open_reservations ''a'' db" 2]
    by (simp add: validate_budget_reservation_def) (simp add: demo_budget_def)
  have ins: "insert_agent_task (demo_child k) db = Inr ((), db\<lparr>agent_tasks := agent_tasks db @ [new_task_row (demo_child k)]\<rparr>)"
    using assms(1-5) by (simp add: insert_agent_task_Inr get_agent_task_def demo_runs_facts)
  have "check_lineage (demo_child k) db = Inr ()" by (simp add: check_lineage_def)
  moreover have "limit (at_status (demo_child k) = Child_Queued \<and> at_depth (demo_child k) \<noteq> 0 \<and>
      at_depth (demo_child k) \<le> max_agent_depth \<and> trim (at_title (demo_child k)) \<noteq> [] \<and>
      chars_count (at_title (demo_child k)) \<le> 200) = Inr ()"
    by (simp add: max_agent_depth_def chars_count_def)
  moreover have "limit (children_of_run ''a'' db < max_children_per_parent \<and>
      active_in_root ''a'' db < max_active_children_per_root) = Inr ()"
    using assms(6,7) by (simp add: max_children_per_parent_def max_active_children_per_root_def)
  ultimately have "create_agent_task demo_codec (demo_child k) db =
      Inr (demo_child k, db\<lparr>agent_tasks := agent_tasks db @ [new_task_row (demo_child k)]\<rparr>)"
    using assms(3,5) budget unfolding create_agent_task_def
    by (simp add: ins demo_runs_facts demo_runs_agree limit_def)
  then show ?thesis by (simp add: spawn_def tasks_after_def)
qed


definition demo_attention :: agent_task_row where
  "demo_attention = (new_task_row (demo_child ''a''))\<lparr>tk_last_reconciled_at_ms := Some 6,
     tk_task := moved_task (demo_child ''a'') Child_NeedsAttention None None 6 (demo_child ''a'')\<rparr>"

lemma demo_attention_row [simp]:
  "at_id (tk_task demo_attention) = ''a''" "at_status (tk_task demo_attention) = Child_NeedsAttention"
  "at_root_run_id (tk_task demo_attention) = ''a''" "at_parent_run_id (tk_task demo_attention) = ''a''"
  "at_child_run_id (tk_task demo_attention) = ''a''" "at_reserved_budget (tk_task demo_attention) = demo_budget 2"
  by (simp_all add: demo_attention_def moved_task_def)

lemma demo_tables_simps [simp]: "base demo_tables = demo_runs" "task_items demo_tables = []" "agent_tasks demo_tables = []"
  by (simp_all add: demo_tables_def empty_task_db_def)

lemmas row_eval = find_row_def get_agent_task_by_child_run_def demo_runs_facts children_of_run_def
  active_in_root_def child_is_active_def open_reservations_def tasks_where_def child_is_terminal_def

lemma demo_four_nf: "demo_four = demo_tables\<lparr>agent_tasks := map (\<lambda>k. new_task_row (demo_child k)) [''a'', ''b'', ''c'', ''d'']\<rparr>"
  by (simp add: demo_four_def demo_one_nf spawn_eq row_eval)

lemma demo_waiting_one_nf:
  "demo_waiting_one = demo_tables\<lparr>agent_tasks := demo_attention # map (\<lambda>k. new_task_row (demo_child k)) [''b'', ''c'', ''d'']\<rparr>"
  by (simp add: demo_waiting_one_def demo_four_nf move_eq [where r = "new_task_row (demo_child ''a'')"] row_eval
      child_can_transition_def update_rows_def demo_attention_def)

lemma demo_and_e_nf: "demo_and_e = demo_tables\<lparr>agent_tasks := demo_attention #
    map (\<lambda>k. new_task_row (demo_child k)) [''b'', ''c'', ''d'', ''e'']\<rparr>"
  by (simp add: demo_and_e_def demo_waiting_one_nf spawn_eq row_eval)

lemma demo_five_active: "active_in_root ''a'' demo_five = 5"
  by (simp add: demo_five_def demo_and_e_nf move_eq [where r = demo_attention] row_eval
      child_can_transition_def update_rows_def moved_task_def)

lemma demo_cancelled_task_nf:
  "demo_cancelled_task = demo_tables\<lparr>agent_tasks := [(new_task_row (demo_child ''a''))\<lparr>tk_last_reconciled_at_ms := Some 6,
     tk_task := moved_task (demo_child ''a'') Child_Cancelled None None 6 (demo_child ''a'')\<rparr>]\<rparr>"
  by (simp add: demo_cancelled_task_def demo_one_nf move_eq [where r = "new_task_row (demo_child ''a'')"] row_eval
      child_can_transition_def update_rows_def)


lemma demo_cancelled_status: "map_option at_status (get_agent_task ''a'' demo_cancelled_task) = Some Child_Cancelled"
  by (simp add: demo_cancelled_task_nf get_agent_task_def find_row_def moved_task_def)

lemma demo_create_one: "create_agent_task demo_codec (demo_child ''a'') demo_tables = Inr (demo_child ''a'', demo_one)"
  unfolding demo_one_nf by (simp add: demo_tables_def empty_task_db_def task_eval)

lemma demo_revived:
  "map_option (\<lambda>t. (at_status t, at_finished_at_ms t))
     (get_agent_task ''a'' (snd (reconcile_agent_task_from_run demo_codec id ''a'' 9 demo_cancelled_task))) =
   Some (Child_Queued, Some 6)"
  by (simp add: demo_cancelled_task_nf reconcile_agent_task_from_run_def get_agent_task_def find_row_def
      reconcile_write_def read_and_sync_def sync_agent_task_transcript_item_def update_rows_def demo_runs_facts
      demo_runs_agree projected_task_def moved_task_def child_is_terminal_def latest_assistant_summary_def or_else_def)

section \<open>Leases\<close>

definition demo_lease_row :: "nat \<Rightarrow> int \<Rightarrow> agent_task_row" where
  "demo_lease_row g now = (new_task_row (demo_child ''a''))\<lparr>tk_execution_generation := g, tk_lease_owner := Some ''o'',
     tk_lease_expires_at_ms := Some (now + 5), tk_last_reconciled_at_ms := Some now,
     tk_task := touch now (demo_child ''a'')\<rparr>"

definition demo_leased :: task_db where
  "demo_leased = demo_tables\<lparr>agent_tasks := [demo_lease_row 1 10]\<rparr>"

definition demo_leased_again :: task_db where
  "demo_leased_again = demo_tables\<lparr>agent_tasks := [(demo_lease_row 2 20)\<lparr>tk_task := touch 20 (touch 10 (demo_child ''a''))\<rparr>]\<rparr>"

lemma trim_o [simp]: "trim ''o'' = ''o''"
  by code_simp

lemma demo_lease_claim:
  "claim_agent_task_execution ''a'' ''o'' 10 5 demo_one = Inr (Some \<lparr>xc_task = touch 10 (demo_child ''a''),
     xc_execution_generation = 1, xc_lease_owner = ''o'', xc_lease_expires_at_ms = 15\<rparr>, demo_leased)"
  "claim_agent_task_execution ''a'' ''o'' 20 5 demo_leased = Inr (Some \<lparr>xc_task = touch 20 (touch 10 (demo_child ''a'')),
     xc_execution_generation = 2, xc_lease_owner = ''o'', xc_lease_expires_at_ms = 25\<rparr>, demo_leased_again)"
  by (simp_all add: claim_agent_task_execution_def demo_one_nf demo_leased_def demo_leased_again_def demo_lease_row_def
      claimable_def lease_open_def child_is_active_def update_rows_def find_row_def rust_simps Let_def)
    (simp_all add: new_task_row_def)

lemma demo_lease_step: "task_step demo_codec demo_one demo_leased"
  using demo_lease_claim(1) by (auto simp: committed_def intro!: task_step.claim)

lemma demo_lease_before: "lease_of ''a'' demo_one = Some \<lparr>ls_generation = 0, ls_holder = None\<rparr>"
  by (simp add: lease_of_def find_row_def demo_one_nf lease_row_def) (simp add: new_task_row_def)

lemma demo_lease_after: "lease_of ''a'' demo_leased_again = Some \<lparr>ls_generation = 2, ls_holder = Some (''o'', Some 25)\<rparr>"
  by (simp add: lease_of_def find_row_def demo_leased_again_def lease_row_def demo_lease_row_def)

end
