(* ===== verification/Agent_Task_Props.thy ===== *)
theory Agent_Task_Props
  imports Agent_Task_Demo
begin

text \<open>
  What the task tree promises: its shape and limits, the query for a subtree, the lease as an
  abstract machine with its fencing, and the status of a settled task.
\<close>

section \<open>The tree\<close>

lemma children_of_run_keys:
  "children_of_run rid db = count_where (\<lambda>t. at_parent_run_id t = rid) (task_keys db)"
  by (simp add: children_of_run_def task_keys_def count_where_def filter_map comp_def)

lemma children_step:
  assumes "task_step codec db db'" and "\<forall>rid. children_of_run rid db \<le> max_children_per_parent"
  shows "children_of_run rid db' \<le> max_children_per_parent"
  using step_keys [OF assms(1)]
proof
  assume "task_keys db' = task_keys db"
  then show ?thesis using assms(2) by (simp add: children_of_run_keys)
next
  assume "\<exists>t. create_agent_task codec t db = Inr (t, db') \<and>
    task_keys db' = task_keys db @ [task_key (tk_task (new_task_row t))]"
  then obtain t where t: "create_agent_task codec t db = Inr (t, db')"
    "task_keys db' = task_keys db @ [task_key (tk_task (new_task_row t))]" by blast
  have "children_of_run (at_parent_run_id t) db < max_children_per_parent"
    using t(1) by (rule create_Inr)
  then show ?thesis using assms(2)
    by (auto simp: children_of_run_keys t(2) new_task_row_def)
qed

lemma children_bounded: "task_reachable codec db \<Longrightarrow> children_of_run rid db \<le> max_children_per_parent"
  unfolding task_reachable_def
proof (induction arbitrary: rid rule: rtranclp_induct)
  case (step db db')
  then show ?case using children_step by blast
qed (simp add: children_of_run_def empty_task_db_def)

text \<open>C16: In every reachable state the tasks form a forest of depth at most three: identifiers and child
  runs are unique, a root task is its own root and was created by its root run, any other task has
  a parent one level above it with the same root whose run created it; no run has more than
  sixteen children, and only a queued, running or waiting task is leased.\<close>

theorem task_tree_invariant:
  assumes "task_reachable codec db"
  shows "tree_ok (map tk_task (agent_tasks db)) \<and> children_of_run rid db \<le> 16 \<and>
    (\<forall>r \<in> set (agent_tasks db). tk_lease_owner r \<noteq> None \<longrightarrow> child_is_active (at_status (tk_task r)))"
  using task_reachable_ok [OF assms] children_bounded [OF assms, of rid]
  by (auto simp: tasks_ok_def row_ok_def max_children_per_parent_def)

theorem task_tree_invariant_witness:
  "children_of_run ''a'' demo_five \<le> 16 \<and> tree_ok (map tk_task (agent_tasks demo_five))"
  using task_tree_invariant [OF demo_tasks_reachable(3), of "''a''"] by simp


section \<open>Subtrees\<close>

inductive below :: "agent_task_record list \<Rightarrow> string \<Rightarrow> agent_task_record \<Rightarrow> bool" for ts tid where
  self: "t \<in> set ts \<Longrightarrow> at_id t = tid \<Longrightarrow> below ts tid t"
| child: "below ts tid p \<Longrightarrow> t \<in> set ts \<Longrightarrow> at_parent_task_id t = Some (at_id p) \<Longrightarrow> below ts tid t"

lemma below_in: "below ts tid t \<Longrightarrow> t \<in> set ts"
  by (induction rule: below.induct) auto

lemma below_trans: "below ts (at_id b) t \<Longrightarrow> below ts tid b \<Longrightarrow> tree_ok ts \<Longrightarrow> below ts tid t"
proof (induction rule: below.induct)
  case (self t)
  then show ?case by (metis below_in key_unique tree_ok_def)
qed (auto intro: below.child)

lemma parent_depth:
  assumes "tree_ok ts" "t \<in> set ts" "p \<in> set ts" "at_parent_task_id t = Some (at_id p)"
  shows "at_depth t = at_depth p + 1" and "at_depth t \<le> max_agent_depth"
proof -
  have l: "lineage_ok ts t" "distinct (map at_id ts)" using assms(1,2) by (auto simp: tree_ok_def)
  then obtain q where "q \<in> set ts" "is_parent q t" using assms(4) by (auto simp: lineage_ok_def)
  then have "q = p" using assms(3,4) l(2) by (auto simp: is_parent_def intro: key_unique)
  then show "at_depth t = at_depth p + 1" using \<open>is_parent q t\<close> by (simp add: is_parent_def)
  show "at_depth t \<le> max_agent_depth" using l(1) by (simp add: lineage_ok_def)
qed

lemma set_child_rows:
  "set (child_rows db level) =
     {t \<in> set (map tk_task (agent_tasks db)). \<exists>p \<in> set level. at_parent_task_id t = Some (at_id p)}"
  by (auto simp: child_rows_def tasks_where_def)

lemma distinct_tree: "tree_ok ts \<Longrightarrow> distinct ts" "tree_ok ts \<Longrightarrow> distinct (map at_id ts)"
  by (auto simp: tree_ok_def distinct_map)

lemma distinct_child_rows:
  assumes "distinct (map tk_task (agent_tasks db))" and "distinct (map at_id level)"
  shows "distinct (child_rows db level)"
  using assms(2)
proof (induction level)
  case (Cons p level)
  have "at_id q \<noteq> at_id p" if "q \<in> set level" for q
    using Cons.prems that by (metis distinct.simps(2) image_eqI list.set_map list.simps(9))
  then have "set (filter (\<lambda>t. at_parent_task_id t = Some (at_id p)) (map tk_task (agent_tasks db))) \<inter>
      set (child_rows db level) = {}"
    unfolding set_child_rows by (auto dest!: sym [of "at_id p"])
  then show ?case using Cons assms(1) by (simp add: child_rows_def tasks_where_def)
qed (simp add: child_rows_def)

lemma distinct_ids: "distinct (map at_id ts) \<Longrightarrow> set level \<subseteq> set ts \<Longrightarrow> distinct level \<Longrightarrow> distinct (map at_id level)"
  by (auto simp: distinct_map inj_on_def)

lemma below_level:
  assumes "tree_ok ts" "set level \<subseteq> set ts" "ts = map tk_task (agent_tasks db)"
  shows "{t. \<exists>a \<in> set level. below ts (at_id a) t} =
    set level \<union> {t. \<exists>a \<in> set (child_rows db level). below ts (at_id a) t}" (is "?l = ?r")
proof
  have "t \<in> set level"
    if a: "a \<in> set level" and "below ts (at_id a) t" "\<not> (\<exists>b \<in> set (child_rows db level). below ts (at_id b) t)"
    for a t
    using that(2,3)
  proof (induction rule: below.induct)
      case (self t)
      then have "t = a" using a assms(2) distinct_tree(2) [OF assms(1)] by (metis key_unique subset_iff)
      then show ?case using a by simp
    next
      case (child p t)
      show ?case
      proof (cases "\<exists>b \<in> set (child_rows db level). below ts (at_id b) p")
        case True
        then show ?thesis using child by (meson below.child)
      next
        case False
        then have "t \<in> set (child_rows db level)" using child by (auto simp: set_child_rows assms(3))
        then show ?thesis using child.prems child.hyps(2) by (meson below.self)
      qed
  qed
  then show "?l \<subseteq> ?r" by blast
  show "?r \<subseteq> ?l"
  proof
    fix t assume "t \<in> ?r"
    then consider "t \<in> set level" | b p where "below ts (at_id b) t" "p \<in> set level" "b \<in> set ts"
        "at_parent_task_id b = Some (at_id p)"
      by (auto simp: set_child_rows assms(3))
    then show "t \<in> ?l"
    proof cases
      case 1
      then show ?thesis using assms(2) by (auto intro: below.self)
    next
      case 2
      then have "below ts (at_id p) b" using assms(2) by (metis below.child below.self subset_iff)
      then show ?thesis using 2 below_trans [OF 2(1) _ assms(1)] by blast
    qed
  qed
qed

lemma subtree_levels_exact:
  assumes tree: "tree_ok ts" and ts: "ts = map tk_task (agent_tasks db)"
    and "set level \<subseteq> set ts" "distinct level" "\<forall>t \<in> set level. at_depth t = d"
  shows "\<exists>res. subtree_levels db level = Some res \<and> distinct res \<and> (\<forall>t \<in> set res. d \<le> at_depth t) \<and>
    set res = {t. \<exists>a \<in> set level. below ts (at_id a) t}"
  using assms(3-)
proof (induction "max_agent_depth + 1 - d" arbitrary: level d rule: less_induct)
  case less
  show ?case
  proof (cases level)
    case Nil
    then show ?thesis by (subst subtree_levels.simps) simp
  next
    case (Cons t0 rest)
    let ?next = "child_rows db level"
    have depth: "at_depth t = d + 1" if t: "t \<in> set ?next" for t
    proof -
      obtain p where p: "p \<in> set level" "at_parent_task_id t = Some (at_id p)" "t \<in> set ts"
        using t by (auto simp: set_child_rows ts)
      then have "at_depth t = at_depth p + 1" using parent_depth(1) [OF tree] less.prems(1) by blast
      then show ?thesis using p(1) less.prems(3) by simp
    qed
    have "d \<le> max_agent_depth"
      using Cons less.prems(1,3) tree by (auto simp: tree_ok_def lineage_ok_def)
    moreover have "set ?next \<subseteq> set ts" by (auto simp: set_child_rows ts)
    moreover have "distinct ?next"
      using distinct_tree [OF tree] less.prems(1,2) distinct_ids ts by (intro distinct_child_rows) blast+
    ultimately have "\<exists>res. subtree_levels db ?next = Some res \<and> distinct res \<and>
        (\<forall>t \<in> set res. d + 1 \<le> at_depth t) \<and> set res = {t. \<exists>a \<in> set ?next. below ts (at_id a) t}"
      using depth by (intro less.hyps) auto
    then obtain res where res: "subtree_levels db ?next = Some res" "distinct res"
        "\<forall>t \<in> set res. d + 1 \<le> at_depth t" "set res = {t. \<exists>a \<in> set ?next. below ts (at_id a) t}"
      by blast
    have "subtree_levels db level = Some (level @ res)"
      by (subst subtree_levels.simps) (simp add: Cons [symmetric] res(1), simp add: Cons)
    moreover have "set level \<inter> set res = {}" using less.prems(3) res(3) by fastforce
    ultimately show ?thesis
      using less.prems(2,3) res(2,3) below_level [OF tree less.prems(1) ts] res(4) by auto
  qed
qed

lemma subtree_query:
  assumes "task_reachable codec db"
  shows "\<exists>res. list_agent_task_subtree tid db = Some res \<and> distinct res \<and>
    set res = {t. below (map tk_task (agent_tasks db)) tid t} \<and>
    sorted_wrt (\<lambda>a b. at_depth b \<le> at_depth a) res"
proof -
  let ?ts = "map tk_task (agent_tasks db)" and ?k = "\<lambda>t. (at_depth t, at_created_at_ms t, at_id t)"
  let ?level = "tasks_where (\<lambda>t. at_id t = tid) db"
  have tree: "tree_ok ?ts" using task_reachable_ok [OF assms] by (simp add: tasks_ok_def)
  have level: "set ?level = {t \<in> set ?ts. at_id t = tid}" "distinct ?level"
    using distinct_tree(1) [OF tree] by (auto simp: tasks_where_def)
  have "t = u" if "t \<in> set ?level" "u \<in> set ?level" for t u
    using that key_unique [OF distinct_tree(2) [OF tree]] unfolding level(1) by blast
  then obtain d where "\<forall>t \<in> set ?level. at_depth t = d" by metis
  then obtain res where res: "subtree_levels db ?level = Some res" "distinct res"
      "set res = {t. \<exists>a \<in> set ?level. below ?ts (at_id a) t}"
    using subtree_levels_exact [OF tree refl, of ?level d] level by auto
  have "{t. \<exists>a \<in> set ?level. below ?ts (at_id a) t} = {t. below ?ts tid t}"
  proof -
    have "\<exists>a \<in> set ?level. at_id a = tid" if "below ?ts tid t" for t
      using that by (induction rule: below.induct) (auto simp: level(1))
    then show ?thesis using level(1) by auto
  qed
  moreover have "sorted_wrt (\<lambda>a b. at_depth b \<le> at_depth a) (rev (sort_key ?k res))"
    unfolding sorted_wrt_rev
    using sorted_sort_key [of ?k res] unfolding sorted_map
    by (rule sorted_wrt_mono_rel [rotated]) auto
  ultimately show ?thesis
    using res by (simp add: list_agent_task_subtree_def)
qed

text \<open>C21: The recursive query for a subtree ends in every reachable state. It gives the task and its
  descendants, each once, and nothing else, deeper ones first, so that a task comes after all its
  children.\<close>

theorem subtree_exact:
  assumes "task_reachable codec db"
  shows "\<exists>res. list_agent_task_subtree tid db = Some res \<and> distinct res \<and>
    set res = {t. below (map tk_task (agent_tasks db)) tid t} \<and>
    sorted_wrt (\<lambda>a b. at_depth b \<le> at_depth a) res"
  using assms by (rule subtree_query)

theorem subtree_exact_witness:
  "\<exists>res. list_agent_task_subtree ''a'' demo_cancelled_task = Some res \<and>
    set res = {t. below (map tk_task (agent_tasks demo_cancelled_task)) ''a'' t}"
  using subtree_exact [OF demo_tasks_reachable(4), of "''a''"] by blast


section \<open>Budgets\<close>

lemma fold_sat_add_u32:
  "r \<le> u32_max \<Longrightarrow> fold (\<lambda>b n. sat_add_u32 n (f b)) bs r = min u32_max (r + sum_list (map f bs))"
  by (induction bs arbitrary: r) (auto simp: sat_add_u32_def)

lemma fold_sat_budget:
  assumes "n < u32_max" "\<not> n < r" "fold (\<lambda>b n. sat_add_u32 n (f b)) bs r \<le> n"
  shows "r + sum_list (map f bs) \<le> n"
  using assms fold_sat_add_u32 [of r f bs] by simp

lemma open_reservations_create:
  assumes "insert_agent_task t db = Inr ((), db')" and "at_status t = Child_Queued"
  shows "open_reservations (at_parent_run_id t) db' =
    open_reservations (at_parent_run_id t) db @ [at_reserved_budget t]"
  using assms
  by (simp add: insert_agent_task_Inr open_reservations_def tasks_where_def new_task_row_def child_is_terminal_def)

text \<open>C22: Creation never reserves more than the parent run has: the unfinished children of a run,
  the new one included, together hold at most the model requests and tool calls of the run's own
  configuration. The sums saturate, so this needs a configured budget below \<open>u32::MAX\<close>.\<close>

theorem reservation_within_budget:
  assumes "create_agent_task codec t db = Inr (u, db')"
    and "get_run (at_parent_run_id t) (base db) = Some parent"
    and "configuration_budget codec (rr_configuration parent) = Some budget"
    and "bg_max_model_requests budget < u32_max" "bg_max_tool_calls budget < u32_max"
  shows "sum_list (map bg_max_model_requests (open_reservations (at_parent_run_id t) db')) \<le> bg_max_model_requests budget \<and>
    sum_list (map bg_max_tool_calls (open_reservations (at_parent_run_id t) db')) \<le> bg_max_tool_calls budget"
proof -
  obtain q b where q: "insert_agent_task t db = Inr ((), db')" "at_status t = Child_Queued"
      "get_run (at_parent_run_id t) (base db) = Some q" "configuration_budget codec (rr_configuration q) = Some b"
      "validate_budget_reservation (at_parent_run_id t) b (at_reserved_budget t) db"
    using assms(1) by (rule create_Inr)
  then have "validate_budget_reservation (at_parent_run_id t) budget (at_reserved_budget t) db"
    using assms(2,3) by simp
  then show ?thesis
    using fold_sat_budget [OF assms(4), of "bg_max_model_requests (at_reserved_budget t)" bg_max_model_requests
        "open_reservations (at_parent_run_id t) db"]
      fold_sat_budget [OF assms(5), of "bg_max_tool_calls (at_reserved_budget t)" bg_max_tool_calls
        "open_reservations (at_parent_run_id t) db"]
    by (simp add: validate_budget_reservation_def open_reservations_create [OF q(1,2)] add.commute)
qed

theorem reservation_within_budget_witness:
  "sum_list (map bg_max_model_requests (open_reservations ''a'' demo_one)) \<le> 10"
proof -
  have "create_agent_task demo_codec (demo_child ''a'') demo_tables = Inr (demo_child ''a'', demo_one)"
    by (rule demo_create_one)
  moreover have "get_run (at_parent_run_id (demo_child ''a'')) (base demo_tables) = Some (demo_child_run ''a'')"
    by (simp add: demo_runs_facts)
  ultimately show ?thesis
    using reservation_within_budget [of demo_codec "demo_child ''a''" demo_tables _ demo_one "demo_child_run ''a''" "demo_budget 10"]
    by (simp add: demo_budget_def u32_max_def)
qed

section \<open>Leases\<close>



text \<open>C18: A claim fences every earlier one: once a task has been claimed again, the generation of the
  earlier claim is smaller, and with it neither renewal nor release touches anything ever after, for
  any owner and time, while the generation fits an \<open>i64\<close>. The first lease had expired or been given
  up at the time of the second claim.\<close>

theorem lease_fences:
  assumes "task_reachable codec db"
    and "claim_agent_task_execution tid owner now d db = Inr (Some c, db1)"
    and "(task_step codec)\<^sup>*\<^sup>* db1 db2"
    and "claim_agent_task_execution tid owner' now' d' db2 = Inr (Some c', db3)"
    and "(task_step codec)\<^sup>*\<^sup>* db3 db4"
    and "lease_of tid db4 = Some l" and "ls_generation l < 2 ^ 63"
  shows "xc_execution_generation c < xc_execution_generation c' \<and>
    (\<exists>l2. lease_of tid db2 = Some l2 \<and> free_at now' l2) \<and>
    renew_agent_task_execution_lease tid (xc_execution_generation c) owner'' now'' d'' db4 = Inr (False, db4) \<and>
    release_agent_task_execution_lease tid (xc_execution_generation c) owner'' now'' db4 = Inr (False, db4)"
proof -
  have step: "task_step codec db db1" "task_step codec db2 db3"
    using assms(2,4) by (auto simp: committed_def intro!: task_step.claim)
  then have reach: "task_reachable codec db2" "task_reachable codec db4"
    using assms(1,3,5) unfolding task_reachable_def
    by (meson converse_rtranclp_into_rtranclp rtranclp_trans)+
  obtain l1 where l1: "lease_of tid db1 = Some l1" "ls_generation l1 = xc_execution_generation c"
    using claim_generation [OF task_reachable_ok [OF assms(1)] assms(2)] by (metis lease.select_convs(1))
  obtain l2 where l2: "lease_of tid db2 = Some l2" "ls_generation l1 \<le> ls_generation l2"
    using generation_mono [OF assms(3) l1(1)] by blast
  obtain l3 where l3: "free_at now' l2" "xc_execution_generation c' = ls_generation l2 + 1"
      "lease_of tid db3 = Some l3" "ls_generation l3 = ls_generation l2 + 1"
    using claim_generation [OF task_reachable_ok [OF reach(1)] assms(4)] l2(1) by fastforce
  have "ls_generation l3 \<le> ls_generation l" using generation_mono [OF assms(5) l3(3)] assms(6) by simp
  then have "xc_execution_generation c < ls_generation l" using l1(2) l2(2) l3(4) by simp
  then have stale: "\<forall>r \<in> set (agent_tasks db4). \<not> holds_lease tid (xc_execution_generation c) owner'' r"
    by (rule stale_holds_nothing [OF task_reachable_ok [OF reach(2)] assms(6) _ assms(7)])
  then have "renew_agent_task_execution_lease tid (xc_execution_generation c) owner'' now'' d'' db4 = Inr (False, db4)"
      "release_agent_task_execution_lease tid (xc_execution_generation c) owner'' now'' db4 = Inr (False, db4)"
    by (auto simp: renew_agent_task_execution_lease_def release_agent_task_execution_lease_def Let_def
        update_rows_none list_ex_iff)
  then show ?thesis using l1(2) l2 l3(1,2) by simp
qed

theorem lease_fences_witness:
  "renew_agent_task_execution_lease ''a'' 1 ''o'' 21 5 demo_leased_again = Inr (False, demo_leased_again)"
  using lease_fences [OF demo_tasks_reachable(1) demo_lease_claim(1) rtranclp.rtrancl_refl demo_lease_claim(2)
      rtranclp.rtrancl_refl demo_lease_after, of "''o''" 21 5] by simp

section \<open>Settled tasks\<close>

lemma terminal_stays: "child_is_terminal s \<Longrightarrow> child_can_transition s s' \<longleftrightarrow> s' = s"
  by (cases s) (auto simp: child_is_terminal_def child_can_transition_def)

text \<open>C19: A transition never changes the status of a settled task, whatever the transition has read
  before and whatever has happened since: the update is conditional on the status that was read.\<close>

theorem transition_keeps_settled:
  assumes "child_can_transition (at_status current) target"
    and "get_agent_task tid db = Some t" and "child_is_terminal (at_status t)"
  shows "map_option at_status (get_agent_task tid (snd (transition_write codec current target su co now db))) =
    Some (at_status t)"
proof -
  obtain r where r: "find_row tid db = Some r" "tk_task r = t" using assms(2) by (auto simp: get_agent_task_def)
  have "at_status t = target" if "at_status t = at_status current"
    using assms(1,3) that terminal_stays by metis
  then show ?thesis using r
    by (simp add: get_agent_task_def transition_write_def find_row_update) (simp add: moved_task_def)
qed

theorem transition_keeps_settled_witness:
  "map_option at_status (get_agent_task ''a'' (snd (transition_write demo_codec (demo_child ''a'') Child_Running
     None None 7 demo_cancelled_task))) = Some Child_Cancelled"
proof -
  obtain t where t: "get_agent_task ''a'' demo_cancelled_task = Some t" "at_status t = Child_Cancelled"
    using demo_cancelled_status by auto
  have "child_can_transition (at_status (demo_child ''a'')) Child_Running" by (simp add: child_can_transition_def)
  from transition_keeps_settled [OF this t(1), of demo_codec None None 7] show ?thesis
    using t(2) by (simp add: child_is_terminal_def)
qed

text \<open>C20: The projection of a run is not protected in the same way: its update names the task only. In a
  reachable state a cancelled task whose run has not been stopped is put back in the queue by the
  next reconciliation, with its time of completion still set.\<close>

theorem reconcile_revives_settled:
  "\<exists>db t t'. task_reachable demo_codec db \<and> get_agent_task ''a'' db = Some t \<and> child_is_terminal (at_status t) \<and>
    get_agent_task ''a'' (snd (reconcile_agent_task_from_run demo_codec id ''a'' 9 db)) = Some t' \<and>
    at_status t' = Child_Queued \<and> at_finished_at_ms t' = Some 6"
proof -
  obtain t where t: "get_agent_task ''a'' demo_cancelled_task = Some t" "child_is_terminal (at_status t)"
    using demo_cancelled_status by (auto simp: child_is_terminal_def)
  obtain t' where "get_agent_task ''a'' (snd (reconcile_agent_task_from_run demo_codec id ''a'' 9 demo_cancelled_task)) = Some t'"
      "at_status t' = Child_Queued" "at_finished_at_ms t' = Some 6"
    using demo_revived by auto
  then show ?thesis using t demo_tasks_reachable(4) by blast
qed

text \<open>The limit of four active children below a root is a limit on creation only. A task that needs
  attention does not count; five tasks of one root are active in a reachable state, after one of
  them has returned from needing attention.\<close>

theorem active_limit_exceeded:
  "\<exists>db. task_reachable demo_codec db \<and> max_active_children_per_root < active_in_root ''a'' db"
proof (intro exI conjI)
  show "task_reachable demo_codec demo_five" by (rule demo_tasks_reachable)
  show "max_active_children_per_root < active_in_root ''a'' demo_five"
    by (simp add: demo_five_active max_active_children_per_root_def)
qed

end
