(* ===== verification/Session_Lanes.thy ===== *)
theory Session_Lanes
  imports Prelude
begin

text \<open>
  The lanes of the agent runtime (\<open>hachimi-agent/src/session_lane.rs\<close>): one run of a session at a
  time, fenced by a generation that \<open>reset\<close> advances, and the drain of all lanes at shutdown. The
  waits of \<open>enter\<close>, of the drop of a permit and of \<open>wait_drained\<close> are cut into the stretches between
  which other tasks run; every access to an atomic, a lock or the notifier is a step of its own.
\<close>

section \<open>State\<close>

record lane_marker =
  lm_session_id :: string
  lm_generation :: nat

datatype lane_error = Lane_Cancelled | Lane_StaleGeneration

text \<open>A cancellation token is a number; \<open>ln_gate\<close> is the task that owns the asynchronous mutex.\<close>

record lane =
  ln_gate :: "nat option"
  ln_generation :: nat
  ln_token :: nat
  ln_active :: nat

text \<open>Where a call of \<open>enter\<close> stands: waiting for the gate or its cancellation, with the gate before
  the generation is compared, before the permit is counted, with the permit, and the stretches of
  dropping it: the count is taken back, the waiters are notified, and the guard goes last.\<close>

datatype phase = Waiting | Locked | Checked | Holding | Uncounted | Announced

record call =
  cl_session :: string
  cl_generation :: nat
  cl_token :: nat
  cl_phase :: phase

text \<open>Where \<open>wait_drained\<close> stands with the lane at the head of its list: about to load the counter, to
  try the gate, to create the notification, or waiting for it. \<open>Drained\<close> and \<open>Timed_Out\<close> are its
  results.\<close>

datatype drain_phase = Loading | Trying | Subscribing | Parked

datatype drain = Draining "string list" drain_phase | Drained | Timed_Out

record lanes_state =
  lanes :: "string \<rightharpoonup> lane"
  cancelled_tokens :: "nat set"
  fresh_token :: nat
  calls :: "nat \<rightharpoonup> call"
  drains :: "nat \<rightharpoonup> drain"

definition no_lanes :: lanes_state where
  "no_lanes = \<lparr>lanes = Map.empty, cancelled_tokens = {}, fresh_token = 0, calls = Map.empty, drains = Map.empty\<rparr>"

section \<open>Operations\<close>

text \<open>\<open>SessionLanes::state\<close>: the lane of a session, created on first use.\<close>

definition lane_of :: "string \<Rightarrow> lanes_state \<Rightarrow> lane \<times> lanes_state" where
  "lane_of sid s = (case lanes s sid of
     Some l \<Rightarrow> (l, s)
   | None \<Rightarrow> (let l = \<lparr>ln_gate = None, ln_generation = 1, ln_token = fresh_token s, ln_active = 0\<rparr> in
       (l, s\<lparr>lanes := (lanes s)(sid \<mapsto> l), fresh_token := fresh_token s + 1\<rparr>)))"

definition marker :: "string \<Rightarrow> lanes_state \<Rightarrow> lane_marker \<times> lanes_state" where
  "marker sid s = (let (l, s) = lane_of sid s in (\<lparr>lm_session_id = sid, lm_generation = ln_generation l\<rparr>, s))"

definition is_current :: "lane_marker \<Rightarrow> lanes_state \<Rightarrow> bool \<times> lanes_state" where
  "is_current m s = (let (l, s) = lane_of (lm_session_id m) s in (ln_generation l = lm_generation m, s))"

text \<open>\<open>notify_waiters\<close> wakes exactly the notifications that exist: those of parked drains.\<close>

fun woken :: "string \<Rightarrow> drain \<Rightarrow> drain" where
  "woken sid (Draining (l # ls) Parked) = Draining (l # ls) (if l = sid then Loading else Parked)"
| "woken sid d = d"

definition notify_waiters :: "string \<Rightarrow> lanes_state \<Rightarrow> lanes_state" where
  "notify_waiters sid s = s\<lparr>drains := map_option (woken sid) \<circ> drains s\<rparr>"

definition reset :: "string \<Rightarrow> lanes_state \<Rightarrow> lane_marker \<times> lanes_state" where
  "reset sid s = (let (l, s) = lane_of sid s; g = sat_add_u64 (ln_generation l) 1 in
     (\<lparr>lm_session_id = sid, lm_generation = g\<rparr>,
      notify_waiters sid (s\<lparr>cancelled_tokens := insert (ln_token l) (cancelled_tokens s),
        lanes := (lanes s)(sid \<mapsto> l\<lparr>ln_generation := g, ln_token := fresh_token s\<rparr>),
        fresh_token := fresh_token s + 1\<rparr>)))"

definition set_phase :: "nat \<Rightarrow> phase \<Rightarrow> lanes_state \<Rightarrow> lanes_state" where
  "set_phase i p s = s\<lparr>calls := (calls s)(i := map_option (\<lambda>c. c\<lparr>cl_phase := p\<rparr>) (calls s i))\<rparr>"

definition end_call :: "nat \<Rightarrow> lanes_state \<Rightarrow> lanes_state" where
  "end_call i s = s\<lparr>calls := (calls s)(i := None)\<rparr>"

definition set_lane :: "string \<Rightarrow> (lane \<Rightarrow> lane) \<Rightarrow> lanes_state \<Rightarrow> lanes_state" where
  "set_lane sid f s = s\<lparr>lanes := (lanes s)(sid := map_option f (lanes s sid))\<rparr>"

section \<open>Steps\<close>

text \<open>Who moves: the program calls an operation, a call of \<open>enter\<close> goes on, a drain goes on.\<close>

datatype mover = Program | Call nat | Drain nat

definition at_phase :: "lanes_state \<Rightarrow> nat \<Rightarrow> phase \<Rightarrow> call \<Rightarrow> lane \<Rightarrow> bool" where
  "at_phase s i p c l \<longleftrightarrow> calls s i = Some c \<and> cl_phase c = p \<and> lanes s (cl_session c) = Some l"

inductive lane_step :: "mover \<Rightarrow> lanes_state \<Rightarrow> lanes_state \<Rightarrow> bool" where
  look: "lane_step Program s (snd (lane_of sid s))"
| reset: "lane_step Program s (snd (reset sid s))"
| enter: "calls s i = None \<Longrightarrow> lane_of sid s = (l, s') \<Longrightarrow> lane_step Program s (s'\<lparr>calls := (calls s')(i \<mapsto>
    \<lparr>cl_session = sid, cl_generation = ln_generation l, cl_token = ln_token l, cl_phase = Waiting\<rparr>)\<rparr>)"
| cancelled: "at_phase s i Waiting c l \<Longrightarrow> cl_token c \<in> cancelled_tokens s \<Longrightarrow> lane_step (Call i) s (end_call i s)"
| lock: "at_phase s i Waiting c l \<Longrightarrow> ln_gate l = None \<Longrightarrow>
    lane_step (Call i) s (set_phase i Locked (set_lane (cl_session c) (\<lambda>l. l\<lparr>ln_gate := Some i\<rparr>) s))"
| stale: "at_phase s i Locked c l \<Longrightarrow> ln_generation l \<noteq> cl_generation c \<Longrightarrow>
    lane_step (Call i) s (end_call i (set_lane (cl_session c) (\<lambda>l. l\<lparr>ln_gate := None\<rparr>) s))"
| check: "at_phase s i Locked c l \<Longrightarrow> ln_generation l = cl_generation c \<Longrightarrow> lane_step (Call i) s (set_phase i Checked s)"
| count: "at_phase s i Checked c l \<Longrightarrow>
    lane_step (Call i) s (set_phase i Holding (set_lane (cl_session c) (\<lambda>l. l\<lparr>ln_active := ln_active l + 1\<rparr>) s))"
| uncount: "at_phase s i Holding c l \<Longrightarrow>
    lane_step (Call i) s (set_phase i Uncounted (set_lane (cl_session c) (\<lambda>l. l\<lparr>ln_active := ln_active l - 1\<rparr>) s))"
| announce: "at_phase s i Uncounted c l \<Longrightarrow>
    lane_step (Call i) s (set_phase i Announced (notify_waiters (cl_session c) s))"
| unlock: "at_phase s i Announced c l \<Longrightarrow>
    lane_step (Call i) s (end_call i (set_lane (cl_session c) (\<lambda>l. l\<lparr>ln_gate := None\<rparr>) s))"
| wait_drained: "drains s j = None \<Longrightarrow> distinct sids \<Longrightarrow> set sids = dom (lanes s) \<Longrightarrow>
    lane_step Program s (s\<lparr>drains := (drains s)(j \<mapsto> Draining sids Loading)\<rparr>)"
| drained: "drains s j = Some (Draining [] p) \<Longrightarrow> lane_step (Drain j) s (s\<lparr>drains := (drains s)(j \<mapsto> Drained)\<rparr>)"
| load: "drains s j = Some (Draining (sid # sids) Loading) \<Longrightarrow> lanes s sid = Some l \<Longrightarrow> lane_step (Drain j) s
    (s\<lparr>drains := (drains s)(j \<mapsto> Draining (sid # sids) (if ln_active l \<noteq> 0 then Subscribing else Trying))\<rparr>)"
| try_gate: "drains s j = Some (Draining (sid # sids) Trying) \<Longrightarrow> lanes s sid = Some l \<Longrightarrow> lane_step (Drain j) s
    (s\<lparr>drains := (drains s)(j \<mapsto>
      (if ln_gate l = None then Draining sids Loading else Draining (sid # sids) Subscribing))\<rparr>)"
| subscribe: "drains s j = Some (Draining (sid # sids) Subscribing) \<Longrightarrow>
    lane_step (Drain j) s (s\<lparr>drains := (drains s)(j \<mapsto> Draining (sid # sids) Parked)\<rparr>)"
| timeout: "drains s j = Some (Draining sids p) \<Longrightarrow> lane_step Program s (s\<lparr>drains := (drains s)(j \<mapsto> Timed_Out)\<rparr>)"

definition lane_next :: "lanes_state \<Rightarrow> lanes_state \<Rightarrow> bool" where
  "lane_next s s' \<longleftrightarrow> (\<exists>m. lane_step m s s')"

definition lanes_reachable :: "lanes_state \<Rightarrow> bool" where
  "lanes_reachable = lane_next\<^sup>*\<^sup>* no_lanes"

section \<open>The invariant\<close>

text \<open>The calls that own the gate of a lane, and those that are counted.\<close>

definition owns_gate :: "phase \<Rightarrow> bool" where
  "owns_gate p \<longleftrightarrow> p \<noteq> Waiting"

definition counted :: "string \<Rightarrow> lanes_state \<Rightarrow> bool" where
  "counted sid s \<longleftrightarrow> (\<exists>i c. calls s i = Some c \<and> cl_session c = sid \<and> cl_phase c = Holding)"

text \<open>A lane agrees with the calls on it: the gate is owned by exactly the call past the waiting, the
  counter is one when this call holds its permit and zero otherwise, and a call has either the lane's
  own generation and token or a cancelled token.\<close>

definition call_ok :: "lanes_state \<Rightarrow> nat \<Rightarrow> call \<Rightarrow> bool" where
  "call_ok s i c \<longleftrightarrow> (\<exists>l. lanes s (cl_session c) = Some l \<and> (owns_gate (cl_phase c) \<longrightarrow> ln_gate l = Some i) \<and>
     (cl_token c \<in> cancelled_tokens s \<or> cl_token c = ln_token l \<and> cl_generation c = ln_generation l))"

definition lane_ok :: "lanes_state \<Rightarrow> string \<Rightarrow> lane \<Rightarrow> bool" where
  "lane_ok s sid l \<longleftrightarrow> (\<forall>i. ln_gate l = Some i \<longrightarrow>
       (\<exists>c. calls s i = Some c \<and> cl_session c = sid \<and> owns_gate (cl_phase c))) \<and>
     ln_active l = (if counted sid s then 1 else 0) \<and>
     ln_token l < fresh_token s \<and> ln_token l \<notin> cancelled_tokens s"

definition own_tokens :: "(string \<rightharpoonup> lane) \<Rightarrow> bool" where
  "own_tokens f \<longleftrightarrow> (\<forall>a b l m. f a = Some l \<longrightarrow> f b = Some m \<longrightarrow> ln_token l = ln_token m \<longrightarrow> a = b)"

definition lanes_ok :: "lanes_state \<Rightarrow> bool" where
  "lanes_ok s \<longleftrightarrow> (\<forall>i c. calls s i = Some c \<longrightarrow> call_ok s i c) \<and> (\<forall>sid l. lanes s sid = Some l \<longrightarrow> lane_ok s sid l) \<and>
     own_tokens (lanes s) \<and>
     (\<forall>t \<in> cancelled_tokens s. t < fresh_token s)"


lemma ok_drains [simp]: "lanes_ok (s\<lparr>drains := d\<rparr>) = lanes_ok s"
  by (simp add: lanes_ok_def call_ok_def lane_ok_def counted_def)

lemma ok_notify [simp]: "lanes_ok (notify_waiters sid s) = lanes_ok s"
  by (simp add: notify_waiters_def)

lemma counted_simps [simp]:
  "counted sid (s\<lparr>lanes := f\<rparr>) = counted sid s" "counted sid (s\<lparr>cancelled_tokens := t\<rparr>) = counted sid s"
  "counted sid (s\<lparr>fresh_token := n\<rparr>) = counted sid s" "counted sid (s\<lparr>drains := d\<rparr>) = counted sid s"
  by (simp_all add: counted_def)

lemma lanes_okI:
  assumes "\<And>i c. calls s i = Some c \<Longrightarrow> call_ok s i c"
    and "\<And>sid l. lanes s sid = Some l \<Longrightarrow> lane_ok s sid l"
    and "own_tokens (lanes s)"
    and "\<And>t. t \<in> cancelled_tokens s \<Longrightarrow> t < fresh_token s"
  shows "lanes_ok s"
  using assms unfolding lanes_ok_def by blast

lemma lanes_okD:
  assumes "lanes_ok s"
  shows "calls s i = Some c \<Longrightarrow> call_ok s i c" "lanes s sid = Some l \<Longrightarrow> lane_ok s sid l"
    "own_tokens (lanes s)"
    "t \<in> cancelled_tokens s \<Longrightarrow> t < fresh_token s"
  using assms unfolding lanes_ok_def by blast+

lemma own_tokens_update:
  assumes "own_tokens f" and "\<And>b m. b \<noteq> sid \<Longrightarrow> f b = Some m \<Longrightarrow> ln_token m \<noteq> ln_token l"
  shows "own_tokens (f(sid \<mapsto> l))"
  unfolding own_tokens_def
proof (intro allI impI)
  fix a b x y
  assume "(f(sid \<mapsto> l)) a = Some x" "(f(sid \<mapsto> l)) b = Some y" "ln_token x = ln_token y"
  then show "a = b" using assms unfolding own_tokens_def
    by (cases "a = sid"; cases "b = sid") (simp_all, metis+)
qed

lemma lane_token:
  "lanes_ok s \<Longrightarrow> lanes s sid = Some l \<Longrightarrow> ln_token l < fresh_token s \<and> ln_token l \<notin> cancelled_tokens s"
  by (simp add: lanes_ok_def lane_ok_def)

lemma ok_lane_of:
  assumes ok: "lanes_ok s" and "lane_of sid s = (l, s')"
  shows "lanes_ok s' \<and> lanes s' sid = Some l \<and> calls s' = calls s"
proof (cases "lanes s sid")
  case None
  then have s': "s' = s\<lparr>lanes := (lanes s)(sid \<mapsto> l), fresh_token := fresh_token s + 1\<rparr>"
    and l: "l = \<lparr>ln_gate = None, ln_generation = 1, ln_token = fresh_token s, ln_active = 0\<rparr>"
    using assms(2) by (auto simp: lane_of_def Let_def)
  have none: "cl_session c \<noteq> sid" if "calls s i = Some c" for i c
    using lanes_okD(1) [OF ok that] None by (auto simp: call_ok_def)
  then have none': "\<not> counted sid s" by (auto simp: counted_def)
  have "lanes_ok s'"
  proof (rule lanes_okI)
    fix i c assume "calls s' i = Some c"
    then show "call_ok s' i c" using lanes_okD(1) [OF ok, of i c] none [of i c] by (simp add: s' call_ok_def)
  next
    fix sid' l' assume "lanes s' sid' = Some l'"
    then show "lane_ok s' sid' l'"
      using lanes_okD(2) [OF ok, of sid' l'] none' lanes_okD(4) [OF ok, of "fresh_token s"]
      by (cases "sid' = sid") (auto simp: s' l lane_ok_def)
  next
    have "ln_token m \<noteq> fresh_token s" if "lanes s b = Some m" for b m
      using lane_token [OF ok that] by simp
    then show "own_tokens (lanes s')"
      by (simp add: s' l) (rule own_tokens_update [OF lanes_okD(3) [OF ok]], simp)
  next
    fix t assume "t \<in> cancelled_tokens s'"
    then show "t < fresh_token s'" using lanes_okD(4) [OF ok, of t] by (simp add: s')
  qed
  then show ?thesis by (simp add: s')
next
  case (Some m)
  then show ?thesis using assms by (simp add: lane_of_def)
qed

lemma ok_reset: "lanes_ok s \<Longrightarrow> lanes_ok (snd (reset sid s))"
proof -
  assume "lanes_ok s"
  obtain l t where lt: "lane_of sid s = (l, t)" by (cases "lane_of sid s")
  from ok_lane_of [OF \<open>lanes_ok s\<close> lt] have ok: "lanes_ok t" and l: "lanes t sid = Some l" by auto
  define u where "u = t\<lparr>cancelled_tokens := insert (ln_token l) (cancelled_tokens t),
    lanes := (lanes t)(sid \<mapsto> l\<lparr>ln_generation := sat_add_u64 (ln_generation l) 1, ln_token := fresh_token t\<rparr>),
    fresh_token := fresh_token t + 1\<rparr>"
  have fresh: "ln_token l < fresh_token t" using lanes_okD(2) [OF ok l] by (simp add: lane_ok_def)
  have "lanes_ok u"
  proof (rule lanes_okI)
    fix i c assume "calls u i = Some c"
    then show "call_ok u i c" using lanes_okD(1) [OF ok, of i c] l by (auto simp: u_def call_ok_def)
  next
    fix sid' l' assume "lanes u sid' = Some l'"
    then show "lane_ok u sid' l'"
      using lanes_okD(2) [OF ok, of sid' l'] lanes_okD(2) [OF ok l] lanes_okD(4) [OF ok, of "fresh_token t"]
        lanes_okD(3) [OF ok, unfolded own_tokens_def, rule_format, OF l, of sid' l'] fresh
      by (cases "sid' = sid") (auto simp: u_def lane_ok_def)
  next
    have "ln_token m \<noteq> fresh_token t" if "lanes t b = Some m" for b m
      using lane_token [OF ok that] by simp
    then show "own_tokens (lanes u)"
      by (simp add: u_def) (rule own_tokens_update [OF lanes_okD(3) [OF ok]], simp)
  next
    fix k assume "k \<in> cancelled_tokens u"
    then show "k < fresh_token u" using lanes_okD(4) [OF ok, of k] fresh by (auto simp: u_def)
  qed
  then show "lanes_ok (snd (reset sid s))" by (simp add: reset_def lt u_def Let_def)
qed

text \<open>A call goes on: its lane changes with it.\<close>

lemma ok_call:
  assumes ok: "lanes_ok s" and at: "at_phase s i p c l"
    and gate: "ln_gate l' = (if owns_gate q then Some i else if owns_gate p then None else ln_gate l)"
    and free: "owns_gate q \<Longrightarrow> \<not> owns_gate p \<Longrightarrow> ln_gate l = None"
    and same: "ln_generation l' = ln_generation l" "ln_token l' = ln_token l"
    and active: "ln_active l' = (if q = Holding then 1 else if p = Holding then 0 else ln_active l)"
    and s': "lanes s' = (lanes s)(cl_session c \<mapsto> l')" "fresh_token s' = fresh_token s"
      "cancelled_tokens s' = cancelled_tokens s"
      "calls s' = (calls s)(i := (if gone then None else Some (c\<lparr>cl_phase := q\<rparr>)))" "gone \<Longrightarrow> q = Waiting"
  shows "lanes_ok s'"
proof (rule lanes_okI)
  note c = at [unfolded at_phase_def]
  have owner: "k = i" if "calls s k = Some d" "cl_session d = cl_session c" "owns_gate (cl_phase d)"
      "owns_gate p \<or> owns_gate q" for k d
    using lanes_okD(1) [OF ok, of k d] lanes_okD(1) [OF ok, of i c] that c free by (auto simp: call_ok_def)
  {
    fix k d assume d: "calls s' k = Some d"
    show "call_ok s' k d"
    proof (cases "k = i")
      case True
      then show ?thesis using d lanes_okD(1) [OF ok, of i c] c same gate
        by (auto simp: s' call_ok_def split: if_splits)
    next
      case False
      then have "calls s k = Some d" using d by (simp add: s')
      then show ?thesis using lanes_okD(1) [OF ok, of k d] owner [of k d] c same gate False
        by (auto simp: s' call_ok_def split: if_splits)
    qed
  next
    fix sid m assume m: "lanes s' sid = Some m"
    show "lane_ok s' sid m"
    proof (cases "sid = cl_session c")
      case True
      have old: "lane_ok s sid l" using lanes_okD(2) [OF ok] c True by blast
      have counted': "counted sid s' = (if q = Holding \<and> \<not> gone then True else if p = Holding then False else counted sid s)"
      proof -
        have rest: "(\<exists>k d. k \<noteq> i \<and> calls s k = Some d \<and> cl_session d = sid \<and> cl_phase d = Holding) =
            (p \<noteq> Holding \<and> counted sid s)" if "\<not> (q = Holding \<and> \<not> gone)"
          using owner c True unfolding counted_def owns_gate_def by (metis option.inject phase.distinct(5))
        have "counted sid s' = ((q = Holding \<and> \<not> gone) \<or>
            (\<exists>k d. k \<noteq> i \<and> calls s k = Some d \<and> cl_session d = sid \<and> cl_phase d = Holding))"
          unfolding counted_def s'(4) using True by auto
        then show ?thesis using rest by auto
      qed
      show ?thesis using m True old gate active same counted' s'(5) c
        by (auto simp: s' lane_ok_def owns_gate_def split: if_splits)
    next
      case False
      then have "(\<exists>k d. k \<noteq> i \<and> calls s k = Some d \<and> cl_session d = sid \<and> cl_phase d = Holding) = counted sid s"
        using c unfolding counted_def by (metis option.inject)
      moreover have "counted sid s' = (\<exists>k d. k \<noteq> i \<and> calls s k = Some d \<and> cl_session d = sid \<and> cl_phase d = Holding)"
        unfolding counted_def s'(4) using False by auto
      ultimately have "counted sid s' = counted sid s" by simp
      then show ?thesis using m False lanes_okD(2) [OF ok, of sid m] c
        by (fastforce simp: s' lane_ok_def)
    qed
  next
    show "own_tokens (lanes s')" unfolding s'
      using lanes_okD(3) [OF ok] c same by (intro own_tokens_update) (auto simp: own_tokens_def)
  next
    fix t assume "t \<in> cancelled_tokens s'"
    then show "t < fresh_token s'" using lanes_okD(4) [OF ok, of t] by (simp add: s')
  }
qed


text \<open>The call past the waiting is the only one, so the counter follows its phase.\<close>

lemma active_at:
  assumes ok: "lanes_ok s" and at: "at_phase s i p c l" and p: "owns_gate p"
  shows "ln_active l = (if p = Holding then 1 else 0)" "ln_gate l = Some i"
proof -
  note c = at [unfolded at_phase_def]
  show gate: "ln_gate l = Some i" using lanes_okD(1) [OF ok, of i c] c p by (auto simp: call_ok_def)
  have "counted (cl_session c) s \<longleftrightarrow> p = Holding"
  proof
    assume "counted (cl_session c) s"
    then obtain k d where d: "calls s k = Some d" "cl_session d = cl_session c" "cl_phase d = Holding"
      by (auto simp: counted_def)
    then have "k = i" using lanes_okD(1) [OF ok d(1)] c gate by (simp add: call_ok_def owns_gate_def)
    then show "p = Holding" using c d by simp
  qed (use c in \<open>auto simp: counted_def\<close>)
  then show "ln_active l = (if p = Holding then 1 else 0)"
    using lanes_okD(2) [OF ok, of "cl_session c" l] c by (simp add: lane_ok_def)
qed

lemma set_lane_eq: "lanes s sid = Some l \<Longrightarrow> set_lane sid f s = s\<lparr>lanes := (lanes s)(sid \<mapsto> f l)\<rparr>"
  by (simp add: set_lane_def)

lemma ok_step:
  assumes "lane_step m s s'" and ok: "lanes_ok s"
  shows "lanes_ok s'"
  using assms(1)
proof cases
  case (look sid)
  then show ?thesis using ok_lane_of [OF ok, of sid] by (metis prod.collapse)
next
  case (reset sid)
  then show ?thesis using ok_reset [OF ok] by simp
next
  case (enter i sid l t)
  note t = ok_lane_of [OF ok enter(4)]
  then have okt: "lanes_ok t" and l: "lanes t sid = Some l" and none: "calls t i = None" using enter(3) by simp_all
  have counted: "counted x s' = counted x t" for x
    using none unfolding enter(2) counted_def by (auto split: if_splits) (metis option.distinct(1))
  show ?thesis
  proof (rule lanes_okI)
    fix k d assume "calls s' k = Some d"
    then show "call_ok s' k d"
      using lanes_okD(1) [OF okt, of k d] l by (auto simp: enter(2) call_ok_def owns_gate_def split: if_splits)
  next
    fix x m assume "lanes s' x = Some m"
    then show "lane_ok s' x m"
      using lanes_okD(2) [OF okt, of x m] counted none by (fastforce simp: enter(2) lane_ok_def)
  qed (use lanes_okD(3,4) [OF okt] in \<open>auto simp: enter(2)\<close>)
next
  case (cancelled i c l)
  show ?thesis using cancelled(3)
    by (intro ok_call [OF ok cancelled(3), where l' = l and q = Waiting and gone = True])
      (auto simp: cancelled(2) end_call_def at_phase_def owns_gate_def fun_upd_idem)
next
  case (lock i c l)
  show ?thesis using lock(3,4)
    by (intro ok_call [OF ok lock(3), where l' = "l\<lparr>ln_gate := Some i\<rparr>" and q = Locked and gone = False])
      (auto simp: lock(2) set_phase_def set_lane_eq at_phase_def owns_gate_def)
next
  case (stale i c l)
  show ?thesis using stale(3) active_at [OF ok stale(3)]
    by (intro ok_call [OF ok stale(3), where l' = "l\<lparr>ln_gate := None\<rparr>" and q = Waiting and gone = True])
      (auto simp: stale(2) end_call_def set_lane_eq at_phase_def owns_gate_def)
next
  case (check i c l)
  show ?thesis using check(3) active_at [OF ok check(3)]
    by (intro ok_call [OF ok check(3), where l' = l and q = Checked and gone = False])
      (auto simp: check(2) set_phase_def at_phase_def owns_gate_def fun_upd_idem)
next
  case (count i c l)
  show ?thesis using count(3) active_at [OF ok count(3)]
    by (intro ok_call [OF ok count(3), where l' = "l\<lparr>ln_active := ln_active l + 1\<rparr>" and q = Holding and gone = False])
      (auto simp: count(2) set_phase_def set_lane_eq at_phase_def owns_gate_def)
next
  case (uncount i c l)
  show ?thesis using uncount(3) active_at [OF ok uncount(3)]
    by (intro ok_call [OF ok uncount(3), where l' = "l\<lparr>ln_active := ln_active l - 1\<rparr>" and q = Uncounted and gone = False])
      (auto simp: uncount(2) set_phase_def set_lane_eq at_phase_def owns_gate_def)
next
  case (announce i c l)
  show ?thesis using announce(3) active_at [OF ok announce(3)]
    by (intro ok_call [OF ok announce(3), where l' = l and q = Announced and gone = False])
      (auto simp: announce(2) set_phase_def notify_waiters_def at_phase_def owns_gate_def fun_upd_idem)
next
  case (unlock i c l)
  show ?thesis using unlock(3) active_at [OF ok unlock(3)]
    by (intro ok_call [OF ok unlock(3), where l' = "l\<lparr>ln_gate := None\<rparr>" and q = Waiting and gone = True])
      (auto simp: unlock(2) end_call_def set_lane_eq at_phase_def owns_gate_def)
qed (use ok in simp_all)

lemma lanes_reachable_ok: "lanes_reachable s \<Longrightarrow> lanes_ok s"
  unfolding lanes_reachable_def
proof (induction rule: rtranclp_induct)
  case (step s t)
  then show ?case using ok_step by (auto simp: lane_next_def)
qed (simp add: lanes_ok_def own_tokens_def no_lanes_def)


section \<open>An execution\<close>

text \<open>One session, at most one call and one drain.\<close>

definition lane_demo :: "nat option \<Rightarrow> nat \<Rightarrow> phase option \<Rightarrow> drain option \<Rightarrow> lanes_state" where
  "lane_demo gate active ph dr = \<lparr>
     lanes = [''s'' \<mapsto> \<lparr>ln_gate = gate, ln_generation = 1, ln_token = 0, ln_active = active\<rparr>],
     cancelled_tokens = {}, fresh_token = 1,
     calls = (\<lambda>i. if i = 0 then map_option (\<lambda>p. \<lparr>cl_session = ''s'', cl_generation = 1, cl_token = 0, cl_phase = p\<rparr>) ph else None),
     drains = (\<lambda>j. if j = 0 then dr else None)\<rparr>"

lemma demo_at: "at_phase (lane_demo gate active (Some p) dr) 0 p
    \<lparr>cl_session = ''s'', cl_generation = 1, cl_token = 0, cl_phase = p\<rparr>
    \<lparr>ln_gate = gate, ln_generation = 1, ln_token = 0, ln_active = active\<rparr>"
  by (simp add: at_phase_def lane_demo_def)

lemmas lane_eval = lane_demo_def set_phase_def set_lane_def end_call_def notify_waiters_def lane_of_def
  no_lanes_def Let_def fun_eq_iff

lemma nextI: "lane_step m s t \<Longrightarrow> t = t' \<Longrightarrow> lane_next s t'"
  unfolding lane_next_def by blast

lemma demo_enter: "lane_next no_lanes (lane_demo None 0 (Some Waiting) None)"
  by (rule nextI, rule lane_step.enter [of no_lanes 0 "''s''", OF _ prod.collapse [symmetric]])
    (simp_all add: lane_eval)

lemma demo_lock: "lane_next (lane_demo None 0 (Some Waiting) dr) (lane_demo (Some 0) 0 (Some Locked) dr)"
  by (rule nextI, rule lane_step.lock [OF demo_at]) (simp_all add: lane_eval)

lemma demo_check: "lane_next (lane_demo (Some 0) 0 (Some Locked) dr) (lane_demo (Some 0) 0 (Some Checked) dr)"
  by (rule nextI, rule lane_step.check [OF demo_at]) (simp_all add: lane_eval)

lemma demo_count: "lane_next (lane_demo (Some 0) 0 (Some Checked) dr) (lane_demo (Some 0) 1 (Some Holding) dr)"
  by (rule nextI, rule lane_step.count [OF demo_at]) (simp_all add: lane_eval)

lemma demo_uncount: "lane_next (lane_demo (Some 0) 1 (Some Holding) dr) (lane_demo (Some 0) 0 (Some Uncounted) dr)"
  by (rule nextI, rule lane_step.uncount [OF demo_at]) (simp_all add: lane_eval)

lemma demo_announce: "lane_next (lane_demo (Some 0) 0 (Some Uncounted) (Some (Draining [''s''] Parked)))
    (lane_demo (Some 0) 0 (Some Announced) (Some (Draining [''s''] Loading)))"
  by (rule nextI, rule lane_step.announce [OF demo_at]) (simp_all add: lane_eval)

lemma demo_unlock: "lane_next (lane_demo (Some 0) 0 (Some Announced) dr) (lane_demo None 0 None dr)"
  by (rule nextI, rule lane_step.unlock [OF demo_at]) (simp_all add: lane_eval)

lemma demo_drain: "lane_next (lane_demo g n ph None) (lane_demo g n ph (Some (Draining [''s''] Loading)))"
  by (rule nextI, rule lane_step.wait_drained [of _ 0 "[''s'']"]) (simp_all add: lane_eval)

lemma demo_load: "lane_next (lane_demo g n ph (Some (Draining [''s''] Loading)))
    (lane_demo g n ph (Some (Draining [''s''] (if n \<noteq> 0 then Subscribing else Trying))))"
  by (rule nextI, rule lane_step.load [where j = 0 and sid = "''s''" and sids = "[]" and
      l = "\<lparr>ln_gate = g, ln_generation = 1, ln_token = 0, ln_active = n\<rparr>"]) (simp_all add: lane_eval)

lemma demo_try: "lane_next (lane_demo (Some i) n ph (Some (Draining [''s''] Trying)))
    (lane_demo (Some i) n ph (Some (Draining [''s''] Subscribing)))"
  by (rule nextI, rule lane_step.try_gate [where j = 0 and sid = "''s''" and sids = "[]" and
      l = "\<lparr>ln_gate = Some i, ln_generation = 1, ln_token = 0, ln_active = n\<rparr>"]) (simp_all add: lane_eval)

lemma demo_subscribe: "lane_next (lane_demo g n ph (Some (Draining [''s''] Subscribing)))
    (lane_demo g n ph (Some (Draining [''s''] Parked)))"
  by (rule nextI, rule lane_step.subscribe [of _ 0 "''s''" "[]"]) (simp_all add: lane_eval)

text \<open>The permit is dropped while a drain waits: the drain wakes between the notification and the
  release of the guard, finds the gate taken and subscribes for a notification that has passed.\<close>

lemma demo_held: "lanes_reachable (lane_demo (Some 0) 1 (Some Holding) None)"
proof -
  note t = rtranclp.rtrancl_into_rtrancl [of lane_next no_lanes]
  show ?thesis unfolding lanes_reachable_def
    by (intro t [OF _ demo_count] t [OF _ demo_check] t [OF _ demo_lock] t [OF _ demo_enter]) simp
qed

lemma demo_parked: "lanes_reachable (lane_demo None 0 None (Some (Draining [''s''] Parked)))"
  unfolding lanes_reachable_def
proof -
  note t = rtranclp.rtrancl_into_rtrancl [of lane_next no_lanes]
  from demo_held [unfolded lanes_reachable_def] have "lane_next\<^sup>*\<^sup>* no_lanes (lane_demo (Some 0) 1 (Some Holding) (Some (Draining [''s''] Subscribing)))"
    using t [OF t [OF _ demo_drain] demo_load, of "Some 0" 1 "Some Holding"] by simp
  then have "lane_next\<^sup>*\<^sup>* no_lanes (lane_demo (Some 0) 0 (Some Announced) (Some (Draining [''s''] Loading)))"
    by (intro t [OF _ demo_announce] t [OF _ demo_uncount] t [OF _ demo_subscribe])
  then have "lane_next\<^sup>*\<^sup>* no_lanes (lane_demo (Some 0) 0 (Some Announced) (Some (Draining [''s''] Trying)))"
    using t [OF _ demo_load, of "Some 0" 0] by simp
  then show "lane_next\<^sup>*\<^sup>* no_lanes (lane_demo None 0 None (Some (Draining [''s''] Parked)))"
    by (intro t [OF _ demo_unlock] t [OF _ demo_subscribe] t [OF _ demo_try])
qed

section \<open>Properties\<close>

text \<open>C30: A lane is serial: at any time at most one call of a session is past the wait for the gate, in
  particular holds a permit, and the counter of the lane is one exactly while a permit is out.\<close>

theorem lane_serial:
  assumes "lanes_reachable s" and "calls s i = Some c" and "calls s j = Some d" and "cl_session c = cl_session d"
    and "cl_phase c \<noteq> Waiting" and "cl_phase d \<noteq> Waiting"
  shows "i = j \<and> (\<exists>l. lanes s (cl_session c) = Some l \<and> ln_active l = (if cl_phase c = Holding then 1 else 0))"
proof -
  note ok = lanes_reachable_ok [OF assms(1)]
  obtain l where l: "lanes s (cl_session c) = Some l" "ln_gate l = Some i" "ln_gate l = Some j"
    using lanes_okD(1) [OF ok assms(2)] lanes_okD(1) [OF ok assms(3)] assms(4-6)
    by (auto simp: call_ok_def owns_gate_def)
  have "at_phase s i (cl_phase c) c l" using assms(2) l(1) by (simp add: at_phase_def)
  then show ?thesis using active_at(1) [OF ok] l assms(5) by (simp add: owns_gate_def)
qed

theorem lane_serial_witness:
  "\<exists>l. lanes (lane_demo (Some 0) 1 (Some Holding) None) ''s'' = Some l \<and> ln_active l = 1"
  using lane_serial [OF demo_held, of 0 "\<lparr>cl_session = ''s'', cl_generation = 1, cl_token = 0, cl_phase = Holding\<rparr>" 0]
  by (simp add: lane_demo_def)

text \<open>C31: A reset fences every earlier call of the session: whoever still holds a permit or waits with an
  older generation has a cancelled token, even one whose generation was compared just before the
  reset, and a call that waits with a live token has the current generation.\<close>

theorem lane_fence:
  assumes "lanes_reachable s" and "calls s i = Some c" and "lanes s (cl_session c) = Some l"
    and "cl_token c \<notin> cancelled_tokens s"
  shows "cl_generation c = ln_generation l \<and>
    (\<forall>sid. cl_token c \<in> cancelled_tokens (snd (reset sid s)) \<longleftrightarrow> sid = cl_session c)"
proof -
  note ok = lanes_reachable_ok [OF assms(1)]
  have c: "cl_token c = ln_token l" "cl_generation c = ln_generation l"
    using lanes_okD(1) [OF ok assms(2)] assms(3,4) by (auto simp: call_ok_def)
  have "cl_token c \<in> cancelled_tokens (snd (reset sid s)) \<longleftrightarrow> sid = cl_session c" for sid
  proof (cases "lanes s sid")
    case None
    then have "sid \<noteq> cl_session c" using assms(3) by auto
    moreover have "ln_token l \<noteq> fresh_token s" using lane_token [OF ok assms(3)] by simp
    ultimately show ?thesis using None assms(4) c
      by (simp add: reset_def lane_of_def notify_waiters_def Let_def)
  next
    case (Some m)
    have "ln_token l = ln_token m \<longleftrightarrow> sid = cl_session c"
      using lanes_okD(3) [OF ok] Some assms(3) unfolding own_tokens_def by (metis option.inject)
    then show ?thesis using Some assms(4) c by (simp add: reset_def lane_of_def notify_waiters_def Let_def)
  qed
  then show ?thesis using c by simp
qed

theorem lane_fence_witness:
  "0 \<in> cancelled_tokens (snd (reset ''s'' (lane_demo (Some 0) 1 (Some Holding) None)))"
  using lane_fence [OF demo_held, of 0 "\<lparr>cl_session = ''s'', cl_generation = 1, cl_token = 0, cl_phase = Holding\<rparr>"]
  by (simp add: lane_demo_def)

text \<open>C32: The drain can miss its wake-up. In a reachable state every permit has been dropped, the counter is
  zero and the gate is free, and yet the drain is parked and neither it nor any call can move: the drop
  notifies before it releases the guard, so only its timeout ends the drain, which then reports that
  the lanes are not drained.\<close>

theorem drain_misses_wakeup:
  "\<exists>s. lanes_reachable s \<and> calls s = Map.empty \<and>
    map_option (\<lambda>l. (ln_active l, ln_gate l)) (lanes s ''s'') = Some (0, None) \<and>
    drains s 0 = Some (Draining [''s''] Parked) \<and> {m. \<exists>s'. lane_step m s s'} \<subseteq> {Program}"
proof (intro exI conjI)
  let ?s = "lane_demo None 0 None (Some (Draining [''s''] Parked))"
  show "lanes_reachable ?s" by (rule demo_parked)
  show "{m. \<exists>s'. lane_step m ?s s'} \<subseteq> {Program}"
    by (auto simp: at_phase_def lane_demo_def elim!: lane_step.cases split: if_splits)
qed (simp_all add: lane_demo_def fun_eq_iff)

end
