(* ===== verification/Context_Budget.thy ===== *)
theory Context_Budget
  imports Model_Messages Store_Types
begin

text \<open>
  The token budget of a request and its transient compaction (\<open>hachimi-agent/src/context_budget.rs\<close>):
  tool results and their calls are paired, the images of earlier turns are dropped, and tool results
  before the last two rounds are shortened. The token counter of the model and \<open>serde_json\<close> are
  parameters. A slice out of bounds panics; the panic is a value.
\<close>

section \<open>Characters\<close>

text \<open>\<open>chars().skip(n)\<close> and the last \<open>n\<close> characters, \<open>chars().rev().take(n)\<close> turned around again.\<close>

definition drop_chars :: "nat \<Rightarrow> string \<Rightarrow> string" where
  "drop_chars n s = drop (length (take_chars n s)) s"

definition last_chars :: "nat \<Rightarrow> string \<Rightarrow> string" where
  "last_chars n s = drop_chars (chars_count s - n) s"

lemma take_drop_chars [simp]: "take_chars n s @ drop_chars n s = s"
proof -
  have "\<exists>t. s = take_chars n s @ t"
    by (induction n s rule: take_chars.induct) (auto split: nat.splits)
  then show ?thesis unfolding drop_chars_def by (metis append_eq_conv_conj)
qed

lemma chars_count_append [simp]: "chars_count (s @ t) = chars_count s + chars_count t"
  by (simp add: chars_count_def)

lemma chars_count_drop_chars: "chars_count (drop_chars n s) = chars_count s - n"
proof -
  have "chars_count s = chars_count (take_chars n s) + chars_count (drop_chars n s)"
    by (metis chars_count_append take_drop_chars)
  then show ?thesis by (simp add: chars_count_take_chars)
qed

lemma chars_count_last_chars: "chars_count (last_chars n s) = min n (chars_count s)"
  by (simp add: last_chars_def chars_count_drop_chars)

section \<open>The budget\<close>

definition default_summary_reserve :: nat where "default_summary_reserve = 4096"
definition max_summary_reserve :: nat where "max_summary_reserve = 20000"
definition estimated_tool_growth :: nat where "estimated_tool_growth = 15000"
definition microcompact_edge_chars :: nat where "microcompact_edge_chars = 1024"

record context_window_budget =
  cb_context_window :: nat
  cb_summary_reserve :: nat
  cb_predictive_buffer :: nat
  cb_auto_threshold :: nat

text \<open>The capabilities give the context window and the limit of the output.\<close>

definition context_budget :: "nat option \<Rightarrow> nat option \<Rightarrow> context_window_budget option" where
  "context_budget window max_output = Option.bind window (\<lambda>w.
     let output = (case max_output of None \<Rightarrow> default_summary_reserve | Some n \<Rightarrow> n);
         reserve = min (min output max_summary_reserve) (w div 4);
         tier = (if 800000 \<le> w then 50000 else if 400000 \<le> w then 30000 else 13000);
         growth = sat_add_u64 (min output max_summary_reserve) estimated_tool_growth;
         buffer = min (max tier growth) (max (w div 4) 2048);
         threshold = w - reserve - buffer
     in if 0 < threshold then Some \<lparr>cb_context_window = w, cb_summary_reserve = reserve,
          cb_predictive_buffer = buffer, cb_auto_threshold = threshold\<rparr> else None)"

section \<open>Shortening a tool result\<close>

datatype panic = Slice_Panic

text \<open>\<open>serde_json::from_str\<close> and \<open>serde_json::to_string\<close>.\<close>

record json_env =
  from_str :: "string \<Rightarrow> json option"
  to_str :: "json \<Rightarrow> string"

definition nl :: string where "nl = [CHR 0x0A]"

definition microcompact_marker :: string where
  "microcompact_marker = nl @ ''[... older tool result elided by Microcompact ...]'' @ nl"

definition bounded_tool_result :: "string \<Rightarrow> string" where
  "bounded_tool_result value = (if chars_count value \<le> microcompact_edge_chars * 2 then value
     else take_chars microcompact_edge_chars value @ microcompact_marker @ last_chars microcompact_edge_chars value)"

definition find_char :: "char \<Rightarrow> string \<Rightarrow> nat option" where
  "find_char c s = (if c \<in> set s then Some (length (takeWhile (\<lambda>d. d \<noteq> c) s)) else None)"

definition rfind_char :: "char \<Rightarrow> string \<Rightarrow> nat option" where
  "rfind_char c s = map_option (\<lambda>i. length s - 1 - i) (find_char c (rev s))"

text \<open>\<open>&value[start..=end]\<close>: a start beyond the end plus one panics.\<close>

definition slice_inclusive :: "nat \<Rightarrow> nat \<Rightarrow> string \<Rightarrow> (panic, string) result" where
  "slice_inclusive start stop s =
     (if stop + 1 < start \<or> length s < stop + 1 then Inl Slice_Panic else Inr (take (stop + 1 - start) (drop start s)))"

definition retained_metadata_keys :: "string list" where
  "retained_metadata_keys = [''status'', ''resultcode'', ''artifactid'', ''mimetype'', ''mediatype'', ''contenthash'',
     ''hash'', ''revision'', ''beforerevision'', ''afterrevision'', ''changedparts'', ''path'', ''displayname'',
     ''exitcode'', ''durationms'', ''truncated'', ''bytecount'', ''bytesize'', ''target'', ''url'', ''query'', ''matchcount'']"

definition is_retained_metadata_key :: "string \<Rightarrow> bool" where
  "is_retained_metadata_key key \<longleftrightarrow> key \<in> set retained_metadata_keys"

definition normalized_key :: "string \<Rightarrow> string" where
  "normalized_key key = filter (\<lambda>c. c \<noteq> CHR ''_'' \<and> c \<noteq> CHR ''-'') (to_ascii_lowercase key)"

text \<open>\<open>take(32).filter_map(bounded_metadata_value)\<close>\<close>

fun bounded_metadata_value :: "json \<Rightarrow> json option"
  and bounded_values :: "nat \<Rightarrow> json list \<Rightarrow> json list" where
  "bounded_metadata_value JNull = Some JNull"
| "bounded_metadata_value (JBool b) = Some (JBool b)"
| "bounded_metadata_value (JNum n) = Some (JNum n)"
| "bounded_metadata_value (JStr s) = Some (JStr (take_chars 512 s))"
| "bounded_metadata_value (JArr vs) = Some (JArr (bounded_values 32 vs))"
| "bounded_metadata_value (JObj _) = None"
| "bounded_values 0 vs = []"
| "bounded_values (Suc n) [] = []"
| "bounded_values (Suc n) (v # vs) =
     (case bounded_metadata_value v of None \<Rightarrow> bounded_values n vs | Some b \<Rightarrow> b # bounded_values n vs)"

text \<open>The map is kept in the order of its keys; \<open>entry(key).or_insert(value)\<close>.\<close>

definition or_insert :: "string \<Rightarrow> json \<Rightarrow> (string \<times> json) list \<Rightarrow> (string \<times> json) list" where
  "or_insert k v m = (if k \<in> fst ` set m then m else insort_key fst (k, v) m)"

fun collect_retained_metadata :: "json \<Rightarrow> (string \<times> json) list \<Rightarrow> (string \<times> json) list"
  and collect_fields :: "(string \<times> json) list \<Rightarrow> (string \<times> json) list \<Rightarrow> (string \<times> json) list"
  and collect_items :: "nat \<Rightarrow> json list \<Rightarrow> (string \<times> json) list \<Rightarrow> (string \<times> json) list" where
  "collect_retained_metadata (JObj fs) m = (if 32 \<le> length m then m else collect_fields fs m)"
| "collect_retained_metadata (JArr vs) m = (if 32 \<le> length m then m else collect_items 32 vs m)"
| "collect_retained_metadata _ m = m"
| "collect_fields [] m = m"
| "collect_fields ((k, v) # fs) m =
     (let m = (if is_retained_metadata_key (normalized_key k)
               then (case bounded_metadata_value v of None \<Rightarrow> m | Some b \<Rightarrow> or_insert k b m) else m);
          m = collect_retained_metadata v m
      in if 32 \<le> length m then m else collect_fields fs m)"
| "collect_items 0 vs m = m"
| "collect_items (Suc n) [] m = m"
| "collect_items (Suc n) (v # vs) m = collect_items n vs (collect_retained_metadata v m)"

definition retained_metadata :: "json_env \<Rightarrow> string \<Rightarrow> (panic, string option) result" where
  "retained_metadata env value =
     (case (find_char CHR ''{'' value, rfind_char CHR ''}'' value) of
        (Some start, Some stop) \<Rightarrow> rbind (slice_inclusive start stop value) (\<lambda>text.
          Inr (Option.bind (from_str env text) (\<lambda>parsed.
            let retained = collect_retained_metadata parsed [] in
            if retained = [] then None else Some (to_str env (JObj retained)))))
      | _ \<Rightarrow> Inr None)"

definition binary_tool :: "string \<Rightarrow> bool" where
  "binary_tool name \<longleftrightarrow> list_ex (\<lambda>n. contains n name)
     [''browser'', ''computer'', ''screenshot'', ''capture'', ''image'', ''office'', ''pdf'']"

definition evidence_tool :: "string \<Rightarrow> bool" where
  "evidence_tool name \<longleftrightarrow> list_ex (\<lambda>n. contains n name)
     [''read'', ''search'', ''exec'', ''command'', ''shell'', ''git'', ''diff'', ''artifact'']"

definition retained_tool_result :: "json_env \<Rightarrow> string option \<Rightarrow> string \<Rightarrow> (panic, string) result" where
  "retained_tool_result env name value =
     (let name = to_ascii_lowercase (case name of None \<Rightarrow> ''unknown'' | Some n \<Rightarrow> n) in
      rbind (retained_metadata env value) (\<lambda>metadata. Inr (
        if binary_tool name then ''[bounded binary reference retained; payload removed; tool='' @ name @
          ''; metadata='' @ (case metadata of None \<Rightarrow> ''{}'' | Some m \<Rightarrow> m) @ '']''
        else (case metadata of
            Some m \<Rightarrow> if evidence_tool name then ''[retained tool evidence; tool='' @ name @ ''; metadata='' @ m @ '']'' @
              nl @ bounded_tool_result value else bounded_tool_result value
          | None \<Rightarrow> bounded_tool_result value))))"

section \<open>Pairs of calls and results\<close>

definition result_count :: "model_message list \<Rightarrow> string \<Rightarrow> nat" where
  "result_count ms cid = length (filter (\<lambda>m. mm_role m = Tool_Role \<and> mm_tool_call_id m = Some cid) ms)"

definition omitted_note :: string where
  "omitted_note = nl @ ''[tool call omitted from transient model view: result missing or duplicated]''"

definition orphan_note :: string where
  "orphan_note = ''[orphan or duplicate tool result repaired in transient model view; untrusted data]'' @ nl"

definition keep_call :: "model_message list \<Rightarrow> model_tool_call \<Rightarrow> bool" where
  "keep_call ms c \<longleftrightarrow> result_count ms (tc_id c) = 1"

definition has_calls :: "model_message \<Rightarrow> bool" where
  "has_calls m \<longleftrightarrow> mm_role m = Assistant_Role \<and> mm_tool_calls m \<noteq> []"

definition repair_calls :: "model_message list \<Rightarrow> model_message \<Rightarrow> model_message" where
  "repair_calls ms m =
     (if \<not> has_calls m then m
      else (let calls = filter (keep_call ms) (mm_tool_calls m) in
        m\<lparr>mm_tool_calls := calls, mm_content := (if calls = [] then mm_content m @ omitted_note else mm_content m)\<rparr>))"

definition valid_calls :: "model_message list \<Rightarrow> string set" where
  "valid_calls ms = {tc_id c | c m. m \<in> set ms \<and> has_calls m \<and> c \<in> set (mm_tool_calls m) \<and> keep_call ms c}"

definition is_orphan :: "string set \<Rightarrow> model_message \<Rightarrow> bool" where
  "is_orphan valid m \<longleftrightarrow> mm_role m = Tool_Role \<and> (case mm_tool_call_id m of None \<Rightarrow> True | Some i \<Rightarrow> i \<notin> valid)"

definition repair_result :: "string set \<Rightarrow> model_message \<Rightarrow> model_message" where
  "repair_result valid m = (if \<not> is_orphan valid m then m
     else m\<lparr>mm_role := User_Role, mm_name := None, mm_tool_call_id := None,
       mm_content := orphan_note @ bounded_tool_result (mm_content m)\<rparr>)"

definition saturated :: "nat \<Rightarrow> nat" where
  "saturated n = min u32_max n"

definition dropped_calls :: "model_message list \<Rightarrow> nat" where
  "dropped_calls ms = sum_list (map (\<lambda>m. if has_calls m
     then length (filter (\<lambda>c. \<not> keep_call ms c) (mm_tool_calls m)) else 0) ms)"

definition repair_tool_pairs :: "model_message list \<Rightarrow> model_message list \<times> nat" where
  "repair_tool_pairs ms =
     (let valid = valid_calls ms; ms' = map (repair_calls ms) ms in
      (map (repair_result valid) ms', saturated (dropped_calls ms + length (filter (is_orphan valid) ms'))))"

section \<open>Compaction of a request\<close>

datatype token_count_source = Provider_Count | Tokenizer_Count | Conservative_Count

fun preferred_count_source :: "token_count_source \<Rightarrow> token_count_source \<Rightarrow> token_count_source" where
  "preferred_count_source Provider_Count Provider_Count = Provider_Count"
| "preferred_count_source Conservative_Count _ = Conservative_Count"
| "preferred_count_source _ Conservative_Count = Conservative_Count"
| "preferred_count_source _ _ = Tokenizer_Count"

record microcompact_stats =
  ms_compacted_items :: nat
  ms_repaired_items :: nat
  ms_removed_images :: nat
  ms_tokens_before :: nat
  ms_tokens_after :: nat
  ms_source :: token_count_source

text \<open>The index of the assistant message that opens the \<open>rounds\<close> last round with calls.\<close>

fun round_from_end :: "nat \<Rightarrow> (nat \<times> model_message) list \<Rightarrow> nat" where
  "round_from_end remaining [] = 0"
| "round_from_end remaining ((i, m) # rest) =
     (if has_calls m then (if remaining - 1 = 0 then i else round_from_end (remaining - 1) rest)
      else round_from_end remaining rest)"

definition protected_round_boundary :: "model_message list \<Rightarrow> nat \<Rightarrow> nat" where
  "protected_round_boundary ms rounds = round_from_end rounds (rev (enumerate 0 ms))"

definition latest_user :: "model_message list \<Rightarrow> nat" where
  "latest_user ms = (case find (\<lambda>(i, m). mm_role m = User_Role) (rev (enumerate 0 ms)) of
     None \<Rightarrow> length ms | Some (i, _) \<Rightarrow> i)"

definition drop_images :: "nat \<Rightarrow> nat \<Rightarrow> model_message \<Rightarrow> model_message" where
  "drop_images latest i m = (if i < latest \<and> mm_input_images m \<noteq> []
     then m\<lparr>mm_input_images := [], mm_content := mm_content m @ nl @
       ''[bounded image references retained after binary removal: '' @
       join '', '' (map (\<lambda>im. mi_media_type im @ '':'' @ mi_source_label im) (mm_input_images m)) @ '']''\<rparr>
     else m)"

definition compactable :: "nat \<Rightarrow> nat \<Rightarrow> model_message \<Rightarrow> bool" where
  "compactable boundary i m \<longleftrightarrow> \<not> (boundary \<le> i \<or> mm_role m \<noteq> Tool_Role) \<and>
     \<not> (starts_with ''[tool '' (mm_content m) \<and> \<not> starts_with ''[tool status=succeeded '' (mm_content m))"

text \<open>One message of the loop, with the number of items it has compacted.\<close>

definition compact_message :: "json_env \<Rightarrow> nat \<Rightarrow> nat \<Rightarrow> nat \<Rightarrow> model_message \<Rightarrow> (panic, model_message \<times> nat) result" where
  "compact_message env boundary latest i m =
     (let m = drop_images latest i m in
      if \<not> compactable boundary i m then Inr (m, 0)
      else rbind (retained_tool_result env (mm_name m) (mm_content m)) (\<lambda>compacted.
        if compacted \<noteq> mm_content m then Inr (m\<lparr>mm_content := compacted\<rparr>, 1) else Inr (m, 0)))"

fun compact_loop :: "json_env \<Rightarrow> nat \<Rightarrow> nat \<Rightarrow> (nat \<times> model_message) list \<Rightarrow>
    (panic, model_message list \<times> nat) result" where
  "compact_loop env boundary latest [] = Inr ([], 0)"
| "compact_loop env boundary latest ((i, m) # rest) =
     rbind (compact_message env boundary latest i m) (\<lambda>(m, n).
     rbind (compact_loop env boundary latest rest) (\<lambda>(ms, k). Inr (m # ms, n + k)))"

definition removed_images :: "nat \<Rightarrow> model_message list \<Rightarrow> nat" where
  "removed_images latest ms = sum_list (map (\<lambda>m. length (mm_input_images m)) (take latest ms))"

definition microcompact_request ::
    "json_env \<Rightarrow> (model_message list \<Rightarrow> nat \<times> token_count_source) \<Rightarrow> model_message list \<Rightarrow>
      (panic, model_message list \<times> microcompact_stats) result" where
  "microcompact_request env count_tokens ms =
     (let (before, source) = count_tokens ms; (ms, repaired) = repair_tool_pairs ms;
          boundary = protected_round_boundary ms 2; latest = latest_user ms in
      rbind (compact_loop env boundary latest (enumerate 0 ms)) (\<lambda>(compacted, n).
      let (tokens_after, after_source) = count_tokens compacted in
      Inr (compacted, \<lparr>ms_compacted_items = saturated n, ms_repaired_items = repaired,
        ms_removed_images = saturated (removed_images latest ms), ms_tokens_before = before,
        ms_tokens_after = tokens_after, ms_source = preferred_count_source source after_source\<rparr>)))"

end
