(* ===== verification/Context_Props.thy ===== *)
theory Context_Props
  imports Model_View
begin

text \<open>
  What the context assembly promises: the budget of a request, the pairing of calls and results, what
  the transient compaction leaves alone and where it panics, and the bounded view of the transcript.
\<close>

section \<open>The budget\<close>

text \<open>A budget splits the context window exactly into the threshold, the reserve of the summary and
  the buffer for the next turn; every window of at least 8192 tokens has one, and its threshold is at
  least half of the window, whatever the provider says of its output.\<close>

theorem context_budget_split:
  assumes "8192 \<le> w"
  shows "\<exists>b. context_budget (Some w) out = Some b \<and> cb_auto_threshold b + cb_summary_reserve b + cb_predictive_buffer b = w \<and>
    w div 2 \<le> cb_auto_threshold b"
proof -
  define reserve where "reserve = min (min (case out of None \<Rightarrow> default_summary_reserve | Some n \<Rightarrow> n) max_summary_reserve) (w div 4)"
  define buffer where "buffer = min (max (if 800000 \<le> w then 50000 else if 400000 \<le> w then 30000 else 13000)
    (sat_add_u64 (min (case out of None \<Rightarrow> default_summary_reserve | Some n \<Rightarrow> n) max_summary_reserve) estimated_tool_growth))
    (max (w div 4) 2048)"
  have "reserve \<le> w div 4" "buffer \<le> w div 4" using assms by (simp_all add: reserve_def buffer_def)
  moreover have "2 * (w div 4) \<le> w div 2" by simp
  ultimately have *: "w div 2 \<le> w - reserve - buffer" "reserve + buffer \<le> w" by linarith+
  have pos: "0 < w - reserve - buffer" using *(1) assms by linarith
  have "context_budget (Some w) out = Some \<lparr>cb_context_window = w, cb_summary_reserve = reserve,
      cb_predictive_buffer = buffer, cb_auto_threshold = w - reserve - buffer\<rparr>"
    unfolding context_budget_def Let_def Option.bind.simps reserve_def [symmetric] buffer_def [symmetric] if_P [OF pos] ..
  then show ?thesis using * by simp
qed

theorem context_budget_split_witness:
  "\<exists>b. context_budget (Some 200000) (Some 8000) = Some b \<and> 100000 \<le> cb_auto_threshold b"
  using context_budget_split [of 200000 "Some 8000"] by auto

section \<open>Pairs\<close>

definition called :: "model_message list \<Rightarrow> string set" where
  "called ms = {tc_id c | c m. m \<in> set ms \<and> has_calls m \<and> c \<in> set (mm_tool_calls m)}"

definition paired :: "model_message list \<Rightarrow> bool" where
  "paired ms \<longleftrightarrow> (\<forall>i \<in> called ms. result_count ms i = 1) \<and>
     (\<forall>m \<in> set ms. mm_role m = Tool_Role \<longrightarrow> (\<exists>i \<in> called ms. mm_tool_call_id m = Some i))"

lemma called_set: "called ms = set (map tc_id (concat (map mm_tool_calls (filter has_calls ms))))"
  by (auto simp: called_def)

lemma repair_calls_simps [simp]:
  "mm_role (repair_calls ms m) = mm_role m" "mm_tool_call_id (repair_calls ms m) = mm_tool_call_id m"
  by (simp_all add: repair_calls_def Let_def)

lemma repair_result_keeps:
  "i \<in> valid \<Longrightarrow> mm_role (repair_result valid m) = Tool_Role \<and> mm_tool_call_id (repair_result valid m) = Some i \<longleftrightarrow>
     mm_role m = Tool_Role \<and> mm_tool_call_id m = Some i"
  by (auto simp: repair_result_def is_orphan_def split: option.splits)

lemma repair_result_calls: "has_calls (repair_result valid m) = has_calls m"
  "mm_tool_calls (repair_result valid m) = mm_tool_calls m"
  by (auto simp: repair_result_def has_calls_def is_orphan_def)

lemma repaired_count:
  assumes "i \<in> valid"
  shows "result_count (map (repair_result valid) (map (repair_calls ms) ns)) i = result_count ns i"
  using repair_result_keeps [OF assms] unfolding result_count_def
  by (simp add: filter_map comp_def)

lemma has_calls_repaired: "has_calls (repair_calls ms m) \<longleftrightarrow> has_calls m \<and> filter (keep_call ms) (mm_tool_calls m) \<noteq> []"
  by (auto simp: repair_calls_def has_calls_def Let_def)

lemma calls_repaired: "has_calls m \<Longrightarrow> mm_tool_calls (repair_calls ms m) = filter (keep_call ms) (mm_tool_calls m)"
  by (simp add: repair_calls_def Let_def)

lemma called_repaired: "called (fst (repair_tool_pairs ms)) = valid_calls ms"
proof -
  have "called (fst (repair_tool_pairs ms)) = {tc_id c | c m. m \<in> set ms \<and> has_calls (repair_calls ms m) \<and>
      c \<in> set (mm_tool_calls (repair_calls ms m))}"
    unfolding called_def repair_tool_pairs_def Let_def by (auto simp: repair_result_calls)
  also have "\<dots> = valid_calls ms"
  proof -
    have "has_calls (repair_calls ms m) \<and> c \<in> set (mm_tool_calls (repair_calls ms m)) \<longleftrightarrow>
        has_calls m \<and> c \<in> set (mm_tool_calls m) \<and> keep_call ms c" for c m
      by (cases "has_calls m") (auto simp: has_calls_repaired calls_repaired filter_empty_conv)
    then show ?thesis unfolding valid_calls_def by blast
  qed
  finally show ?thesis .
qed

lemma paired_fixed:
  assumes "paired ms"
  shows "repair_tool_pairs ms = (ms, 0)"
proof -
  have keep: "keep_call ms c" if "m \<in> set ms" "has_calls m" "c \<in> set (mm_tool_calls m)" for m c
    using assms that by (auto simp: paired_def called_def keep_call_def)
  then have calls: "repair_calls ms m = m" if "m \<in> set ms" for m
    using that by (cases "has_calls m") (auto simp: repair_calls_def has_calls_def Let_def)
  have "valid_calls ms = called ms" using keep by (auto simp: valid_calls_def called_def)
  then have orphan: "\<not> is_orphan (valid_calls ms) m" if "m \<in> set ms" for m
    using assms that by (auto simp: paired_def is_orphan_def)
  have "map (repair_calls ms) ms = ms" using calls by (simp add: map_idI)
  moreover have "map (repair_result (valid_calls ms)) ms = ms" using orphan by (simp add: map_idI repair_result_def)
  moreover have "dropped_calls ms = 0" using keep by (auto simp: dropped_calls_def filter_empty_conv)
  moreover have "filter (is_orphan (valid_calls ms)) ms = []" using orphan by (simp add: filter_empty_conv)
  ultimately show ?thesis by (simp add: repair_tool_pairs_def Let_def saturated_def)
qed

text \<open>C33: After the repair every tool call that an assistant message still makes has exactly one result,
  and every tool result belongs to such a call: what a provider demands of a request. A request that
  already has this form is left as it is, so the repair is idempotent.\<close>

theorem repair_pairs:
  "paired (fst (repair_tool_pairs ms)) \<and> repair_tool_pairs (fst (repair_tool_pairs ms)) = (fst (repair_tool_pairs ms), 0)"
proof -
  let ?out = "fst (repair_tool_pairs ms)"
  have "result_count ?out i = 1" if "i \<in> valid_calls ms" for i
    using that repaired_count [OF that] by (auto simp: repair_tool_pairs_def Let_def valid_calls_def keep_call_def)
  moreover have "\<exists>i \<in> valid_calls ms. mm_tool_call_id m = Some i" if "m \<in> set ?out" "mm_role m = Tool_Role" for m
    using that by (auto simp: repair_tool_pairs_def Let_def repair_result_def is_orphan_def split: if_splits option.splits)
  ultimately have "paired ?out" unfolding paired_def called_repaired by blast
  then show ?thesis using paired_fixed by simp
qed


section \<open>The transient compaction\<close>

lemma content_self: "\<exists>text. m = m\<lparr>mm_content := text\<rparr>"
  by (rule exI [of _ "mm_content m"]) simp

lemma compact_message_Inr:
  assumes "compact_message env boundary latest i m = Inr (m', n)"
  shows "\<not> compactable boundary i (drop_images latest i m) \<Longrightarrow> m' = drop_images latest i m"
    and "\<exists>text. m' = (drop_images latest i m)\<lparr>mm_content := text\<rparr>"
  using assms by (auto simp: compact_message_def Let_def rbind_Inr_iff split: if_splits intro: content_self)

lemma compact_loop_Inr:
  "compact_loop env boundary latest ims = Inr (out, n) \<Longrightarrow> length out = length ims \<and>
    (\<forall>k < length ims. \<exists>c. compact_message env boundary latest (fst (ims ! k)) (snd (ims ! k)) = Inr (out ! k, c))"
proof (induction ims arbitrary: out n)
  case (Cons im ims)
  obtain i m where im: "im = (i, m)" by (cases im)
  from Cons.prems obtain m' c ms k where "compact_message env boundary latest i m = Inr (m', c)"
      "compact_loop env boundary latest ims = Inr (ms, k)" "out = m' # ms"
    by (auto simp: im rbind_Inr_iff)
  then show ?case using Cons.IH by (auto simp: im nth_Cons split: nat.split)
qed simp

text \<open>C34: The compaction of a request touches old tool results and images only. After the repair of the
  pairs, every message keeps its place, role and calls; a message of the last two rounds or one that
  is not a tool result is changed only when it carries images and is older than the latest user
  message, and then by replacing them with their references.\<close>

theorem microcompact_frame:
  assumes "microcompact_request env count_tokens ms = Inr (out, stats)"
  shows "length out = length ms \<and> (\<forall>i < length ms.
    let repaired = fst (repair_tool_pairs ms); m = drop_images (latest_user repaired) i (repaired ! i) in
    (protected_round_boundary repaired 2 \<le> i \<or> mm_role m \<noteq> Tool_Role \<longrightarrow> out ! i = m) \<and>
    (\<exists>text. out ! i = m\<lparr>mm_content := text\<rparr>))"
proof -
  let ?r = "fst (repair_tool_pairs ms)"
  have len: "length ?r = length ms" by (simp add: repair_tool_pairs_def Let_def)
  obtain n where loop: "compact_loop env (protected_round_boundary ?r 2) (latest_user ?r) (enumerate 0 ?r) = Inr (out, n)"
    using assms by (auto simp: microcompact_request_def Let_def rbind_Inr_iff case_prod_beta)
  note l = compact_loop_Inr [OF loop]
  show ?thesis
  proof (intro conjI allI impI)
    show "length out = length ms" using l len by simp
    fix i assume i: "i < length ms"
    then obtain c where c: "compact_message env (protected_round_boundary ?r 2) (latest_user ?r) i (?r ! i) = Inr (out ! i, c)"
      using l len by (auto simp: nth_enumerate_eq)
    show "let repaired = ?r; m = drop_images (latest_user repaired) i (repaired ! i) in
      (protected_round_boundary repaired 2 \<le> i \<or> mm_role m \<noteq> Tool_Role \<longrightarrow> out ! i = m) \<and>
      (\<exists>text. out ! i = m\<lparr>mm_content := text\<rparr>)"
      using compact_message_Inr [OF c] by (simp add: Let_def compactable_def)
  qed
qed

section \<open>Panics\<close>

lemma rfind_char_bound: "rfind_char c s = Some i \<Longrightarrow> i < length s"
  by (cases s) (auto simp: rfind_char_def find_char_def)

definition slice_panics :: "string \<Rightarrow> bool" where
  "slice_panics value \<longleftrightarrow> (case (find_char CHR ''{'' value, rfind_char CHR ''}'' value) of
     (Some start, Some stop) \<Rightarrow> stop + 1 < start | _ \<Rightarrow> False)"

lemma retained_tool_result_panics: "retained_tool_result env name value = Inl e \<longleftrightarrow> slice_panics value"
  by (cases e) (auto simp: retained_tool_result_def retained_metadata_def slice_panics_def slice_inclusive_def Let_def
      rbind_def split: option.splits sum.splits dest: rfind_char_bound)

lemma compact_loop_panics:
  "(\<exists>e. compact_loop env boundary latest ims = Inl e) \<longleftrightarrow>
    (\<exists>(i, m) \<in> set ims. compactable boundary i (drop_images latest i m) \<and> slice_panics (mm_content (drop_images latest i m)))"
proof (induction ims)
  case (Cons im ims)
  obtain i m where im: "im = (i, m)" by (cases im)
  have one: "(\<exists>e. compact_message env boundary latest i m = Inl e) \<longleftrightarrow>
      compactable boundary i (drop_images latest i m) \<and> slice_panics (mm_content (drop_images latest i m))"
    using retained_tool_result_panics [of env "mm_name (drop_images latest i m)" "mm_content (drop_images latest i m)"]
    by (auto simp: compact_message_def Let_def rbind_def split: sum.splits)
  show ?case
  proof (cases "compact_message env boundary latest i m")
    case (Inl e)
    then show ?thesis using one by (auto simp: im)
  next
    case (Inr a)
    then show ?thesis using one Cons.IH by (cases a) (auto simp: im rbind_def split: sum.splits prod.splits)
  qed
qed simp

lemma microcompact_panics_iff:
  "(\<exists>e. microcompact_request env count_tokens ms = Inl e) \<longleftrightarrow>
    (let repaired = fst (repair_tool_pairs ms); latest = latest_user repaired in
     \<exists>i < length ms. compactable (protected_round_boundary repaired 2) i (drop_images latest i (repaired ! i)) \<and>
       slice_panics (mm_content (drop_images latest i (repaired ! i))))"
proof -
  let ?r = "fst (repair_tool_pairs ms)"
  have len: "length ?r = length ms" by (simp add: repair_tool_pairs_def Let_def)
  have "(\<exists>e. microcompact_request env count_tokens ms = Inl e) \<longleftrightarrow>
      (\<exists>e. compact_loop env (protected_round_boundary ?r 2) (latest_user ?r) (enumerate 0 ?r) = Inl e)"
    by (auto simp: microcompact_request_def Let_def rbind_def case_prod_beta split: sum.splits)
  also have "\<dots> \<longleftrightarrow> (\<exists>i < length ms. compactable (protected_round_boundary ?r 2) i (drop_images (latest_user ?r) i (?r ! i)) \<and>
      slice_panics (mm_content (drop_images (latest_user ?r) i (?r ! i))))"
    unfolding compact_loop_panics using len by (auto simp: in_set_enumerate_eq) 
  finally show ?thesis by (simp add: Let_def)
qed


text \<open>A shell command three rounds ago.\<close>

definition shell_call :: "string \<Rightarrow> model_tool_call" where
  "shell_call i = \<lparr>tc_id = i, tc_name = ''shell'', tc_arguments = []\<rparr>"

definition shell_conversation :: "string \<Rightarrow> model_message list" where
  "shell_conversation printed = [assistant_message [] [shell_call ''1''],
     tool_message (shell_call ''1'') (''[tool status=succeeded name=shell]'' @ nl @ printed),
     assistant_message [] [shell_call ''2''], tool_message (shell_call ''2'') [],
     assistant_message [] [shell_call ''3''], tool_message (shell_call ''3'') []]"



section \<open>Retained metadata\<close>

fun flat_value :: "json \<Rightarrow> bool" where
  "flat_value (JStr s) \<longleftrightarrow> chars_count s \<le> 512"
| "flat_value (JArr vs) \<longleftrightarrow> length vs \<le> 32 \<and> (\<forall>v \<in> set vs. flat_value v)"
| "flat_value (JObj _) \<longleftrightarrow> False"
| "flat_value _ \<longleftrightarrow> True"

lemma bounded_flat:
  "bounded_metadata_value v = Some b \<Longrightarrow> flat_value b"
  "length (bounded_values n vs) \<le> n \<and> (\<forall>b \<in> set (bounded_values n vs). flat_value b)"
proof (induction v and n vs arbitrary: b rule: bounded_metadata_value_bounded_values.induct)
  case (5 vs)
  then show ?case by auto
qed (auto simp: chars_count_take_chars split: option.splits)

definition metadata_ok :: "(string \<times> json) list \<Rightarrow> bool" where
  "metadata_ok m \<longleftrightarrow> length m \<le> 32 \<and> distinct (map fst m) \<and>
     (\<forall>(k, v) \<in> set m. is_retained_metadata_key (normalized_key k) \<and> flat_value v)"

lemma metadata_ok_insert:
  "metadata_ok m \<Longrightarrow> length m < 32 \<Longrightarrow> is_retained_metadata_key (normalized_key k) \<Longrightarrow> flat_value v \<Longrightarrow>
    metadata_ok (or_insert k v m)"
  by (auto simp: metadata_ok_def or_insert_def set_insort_key distinct_map inj_on_def distinct_insort image_iff)

lemma collect_fields_step:
  assumes "metadata_ok m" "length m < 32"
    and "\<And>m'. m' = (if is_retained_metadata_key (normalized_key k)
        then (case bounded_metadata_value v of None \<Rightarrow> m | Some b \<Rightarrow> or_insert k b m) else m) \<Longrightarrow>
      metadata_ok m' \<Longrightarrow> metadata_ok (collect_retained_metadata v m')"
    and "\<And>m' m''. m' = (if is_retained_metadata_key (normalized_key k)
        then (case bounded_metadata_value v of None \<Rightarrow> m | Some b \<Rightarrow> or_insert k b m) else m) \<Longrightarrow>
      m'' = collect_retained_metadata v m' \<Longrightarrow> \<not> 32 \<le> length m'' \<Longrightarrow> metadata_ok m'' \<Longrightarrow> metadata_ok (collect_fields fs m'')"
  shows "metadata_ok (collect_fields ((k, v) # fs) m)"
proof -
  define m1 where "m1 = (if is_retained_metadata_key (normalized_key k)
    then (case bounded_metadata_value v of None \<Rightarrow> m | Some b \<Rightarrow> or_insert k b m) else m)"
  have "metadata_ok m1" using assms(1,2) bounded_flat(1) by (auto simp: m1_def metadata_ok_insert split: option.splits)
  then show ?thesis using assms(3,4) [folded m1_def] by (simp add: m1_def [symmetric] Let_def)
qed

lemma collect_ok:
  "metadata_ok m \<Longrightarrow> metadata_ok (collect_retained_metadata v m)"
  "metadata_ok m \<Longrightarrow> length m < 32 \<Longrightarrow> metadata_ok (collect_fields fs m)"
  "metadata_ok m \<Longrightarrow> metadata_ok (collect_items n vs m)"
proof (induction v m and fs m and n vs m rule: collect_retained_metadata_collect_fields_collect_items.induct,
    goal_cases)
  case (8 k v fs m)
  show ?case
  proof (rule collect_fields_step [OF 8(3,4)])
    fix m' assume "m' = (if is_retained_metadata_key (normalized_key k)
        then (case bounded_metadata_value v of None \<Rightarrow> m | Some b \<Rightarrow> or_insert k b m) else m)" "metadata_ok m'"
    then show "metadata_ok (collect_retained_metadata v m')" using 8(1) by blast
  next
    fix m' m'' assume "m' = (if is_retained_metadata_key (normalized_key k)
        then (case bounded_metadata_value v of None \<Rightarrow> m | Some b \<Rightarrow> or_insert k b m) else m)"
      "m'' = collect_retained_metadata v m'" "\<not> 32 \<le> length m''" "metadata_ok m''"
    then show "metadata_ok (collect_fields fs m'')" using 8(2) by simp
  qed
qed simp_all

text \<open>What is kept of a JSON result is small: at most 32 entries, each under one of the retained keys
  and at most once, and no value holds an object, a string of more than 512 characters or an array of
  more than 32 values.\<close>

theorem retained_metadata_bounded:
  "length (collect_retained_metadata v []) \<le> 32 \<and> distinct (map fst (collect_retained_metadata v [])) \<and>
    (\<forall>(k, b) \<in> set (collect_retained_metadata v []). is_retained_metadata_key (normalized_key k) \<and> flat_value b)"
  using collect_ok(1) [of "[]" v] by (simp add: metadata_ok_def)


section \<open>The view\<close>

lemma chars_count_bounded_head_tail: "chars_count (bounded_head_tail s n) = min n (chars_count s)"
proof -
  consider "chars_count s \<le> n" | "n < chars_count s" "n = 0" | "n < chars_count s" "n \<le> chars_count clip_marker" "n \<noteq> 0"
    | "n < chars_count s" "chars_count clip_marker < n"
    by linarith
  then show ?thesis
  proof cases
    case 4
    then show ?thesis
      by (simp add: bounded_head_tail_def Let_def chars_count_take_chars chars_count_last_chars)
  qed (simp_all add: bounded_head_tail_def chars_count_take_chars, simp add: chars_count_def)
qed

lemma size_clip: "size_of (clip n m) = min n (size_of m)"
  by (simp add: size_of_def clip_def chars_count_bounded_head_tail)

lemma clip_id: "size_of m \<le> n \<Longrightarrow> clip n m = m"
  by (simp add: size_of_def clip_def bounded_head_tail_def)

text \<open>The selection keeps the newest candidates; only the oldest it keeps may be clipped, and it stops
  early only when the budget is spent.\<close>

lemma select_recent_props:
  assumes "select_recent r cs = (ms, n)"
  shows "length ms \<le> length cs \<and> sum_list (map size_of ms) \<le> r \<and>
    (length ms < length cs \<longrightarrow> sum_list (map size_of ms) = r) \<and>
    (\<forall>j. j + 1 < length ms \<longrightarrow> ms ! j = fst (cs ! j)) \<and>
    (\<forall>j < length ms. \<exists>q. ms ! j = clip q (fst (cs ! j)))"
  using assms
proof (induction r cs arbitrary: ms n rule: select_recent.induct)
  case (2 r m clipped older)
  show ?case
  proof (cases "r = 0")
    case True
    then show ?thesis using 2 by simp
  next
    case False
    obtain ms' n' where rest: "select_recent (r - size_of (clip r m)) older = (ms', n')"
      by (cases "select_recent (r - size_of (clip r m)) older")
    then have ms: "ms = clip r m # ms'" using 2(2) False by simp
    note IH = 2(1) [OF False rest]
    have size: "size_of (clip r m) \<le> r" by (simp add: size_clip)
    have "clip r m = m" if "ms' \<noteq> []"
    proof (rule clip_id, rule ccontr)
      assume "\<not> size_of m \<le> r"
      then have "r - size_of (clip r m) = 0" by (simp add: size_clip)
      then have "ms' = []" using rest by (cases older) auto
      then show False using that by simp
    qed
    moreover have "\<exists>q. ms ! j = clip q (fst (((m, clipped) # older) ! j))" if "j < length ms" for j
      using that IH ms by (cases j) auto
    ultimately show ?thesis using IH ms size by (auto simp: nth_Cons split: nat.split)
  qed
qed simp

definition view_prefix :: "view_checkpoint option \<Rightarrow> nat \<Rightarrow> model_message list" where
  "view_prefix checkpoint budget = (case checkpoint of None \<Rightarrow> [] | Some c \<Rightarrow> [clip budget (checkpoint_message c)])"

lemma view_parts:
  obtains recent n where
    "select_recent (vl_max_history_chars limits - sum_list (map size_of (view_prefix checkpoint (vl_max_history_chars limits))))
       (rev (view_candidates transcript current checkpoint limits)) = (recent, n)"
    "mv_messages (build_model_view_with_checkpoint transcript current checkpoint limits) =
       view_prefix checkpoint (vl_max_history_chars limits) @ rev recent"
    "mv_included_items (build_model_view_with_checkpoint transcript current checkpoint limits) = length recent"
    "mv_omitted_items (build_model_view_with_checkpoint transcript current checkpoint limits) =
       length (view_candidates transcript current checkpoint limits) - length recent"
    "mv_character_count (build_model_view_with_checkpoint transcript current checkpoint limits) =
       sum_list (map size_of (view_prefix checkpoint (vl_max_history_chars limits) @ rev recent))"
proof -
  let ?sel = "select_recent (vl_max_history_chars limits - sum_list (map size_of (view_prefix checkpoint (vl_max_history_chars limits))))
       (rev (view_candidates transcript current checkpoint limits))"
  obtain recent n where "?sel = (recent, n)" by (cases ?sel)
  then show ?thesis
    by (intro that [of recent n])
      (simp_all add: build_model_view_with_checkpoint_def Let_def view_prefix_def cong: option.case_cong)
qed

lemma view_prefix_size: "sum_list (map size_of (view_prefix checkpoint budget)) \<le> budget"
  by (simp add: view_prefix_def size_clip split: option.split)

text \<open>C36: The view stays within its number of characters, the checkpoint included, and it is as full as
  it can be: when an item is left out, the budget is used up to the last character.\<close>

theorem view_within_budget:
  "mv_character_count (build_model_view_with_checkpoint transcript current checkpoint limits) \<le> vl_max_history_chars limits \<and>
    (mv_omitted_items (build_model_view_with_checkpoint transcript current checkpoint limits) = 0 \<or>
     mv_character_count (build_model_view_with_checkpoint transcript current checkpoint limits) = vl_max_history_chars limits)"
proof -
  let ?v = "build_model_view_with_checkpoint transcript current checkpoint limits"
  let ?prefix = "view_prefix checkpoint (vl_max_history_chars limits)"
  obtain recent n where v: "select_recent (vl_max_history_chars limits - sum_list (map size_of ?prefix))
       (rev (view_candidates transcript current checkpoint limits)) = (recent, n)"
     "mv_omitted_items ?v = length (view_candidates transcript current checkpoint limits) - length recent"
     "mv_character_count ?v = sum_list (map size_of (?prefix @ rev recent))"
    by (rule view_parts)
  have "sum_list (map size_of (rev recent)) = sum_list (map size_of recent)"
    by (simp add: rev_map [symmetric])
  then show ?thesis
    using select_recent_props [OF v(1)] v(2,3) view_prefix_size [of checkpoint "vl_max_history_chars limits"] by auto
qed

lemma in_map_filter: "y \<in> set (List.map_filter f xs) \<longleftrightarrow> (\<exists>x \<in> set xs. f x = Some y)"
  by (induction xs) (auto simp: List.map_filter_simps split: option.splits)

lemma candidate_item:
  assumes "x \<in> set (view_candidates transcript current checkpoint limits)"
  shows "\<exists>i \<in> set transcript. vi_run_id i \<noteq> Some current \<and>
    (\<forall>c. checkpoint = Some c \<longrightarrow> vc_covered_through_sequence c < vi_sequence i) \<and>
    transcript_message (vl_max_tool_result_chars limits) i = Some x"
  using assms unfolding view_candidates_def in_map_filter set_filter
  by (cases checkpoint) auto

lemma message_not_approval: "transcript_message n i = Some x \<Longrightarrow> vi_kind i \<noteq> Approval_Item"
  by (cases "view_text (vi_payload i)") (auto simp: transcript_message_def spoken_kinds_def tool_kinds_def)

text \<open>C37: The view holds the most recent history: after the checkpoint come the last candidates in their
  order, all but the oldest of them word for word. Candidates are made only from items of other runs
  after the checkpoint, so neither an approval nor the current run reaches the model this way.\<close>

theorem view_most_recent:
  assumes "view = build_model_view_with_checkpoint transcript current checkpoint limits"
    and "candidates = map fst (view_candidates transcript current checkpoint limits)"
    and "recent = drop (length (view_prefix checkpoint (vl_max_history_chars limits))) (mv_messages view)"
  shows "length recent = mv_included_items view \<and> mv_included_items view + mv_omitted_items view = length candidates \<and>
    tl recent = tl (drop (mv_omitted_items view) candidates) \<and>
    (\<forall>m \<in> set candidates. \<exists>i \<in> set transcript. vi_run_id i \<noteq> Some current \<and> vi_kind i \<noteq> Approval_Item \<and>
      (\<forall>c. checkpoint = Some c \<longrightarrow> vc_covered_through_sequence c < vi_sequence i) \<and>
      map_option fst (transcript_message (vl_max_tool_result_chars limits) i) = Some m)"
proof -
  let ?prefix = "view_prefix checkpoint (vl_max_history_chars limits)"
  let ?cs = "view_candidates transcript current checkpoint limits"
  obtain rs n where v: "select_recent (vl_max_history_chars limits - sum_list (map size_of ?prefix)) (rev ?cs) = (rs, n)"
     "mv_messages view = ?prefix @ rev rs" "mv_included_items view = length rs"
     "mv_omitted_items view = length ?cs - length rs"
    unfolding assms(1) by (rule view_parts)
  note p = select_recent_props [OF v(1)]
  have recent: "recent = rev rs" using v(2) assms(3) by simp
  have "tl recent ! j = tl (drop (length ?cs - length rs) candidates) ! j" if j: "j < length rs - 1" for j
  proof -
    have k: "length rs - Suc (Suc j) + 1 < length rs" using j by simp
    have "tl recent ! j = rs ! (length rs - Suc (Suc j))" using j by (simp add: recent nth_tl rev_nth)
    also have "\<dots> = fst (rev ?cs ! (length rs - Suc (Suc j)))" using p k by blast
    also have "\<dots> = fst (?cs ! (length ?cs - length rs + Suc j))"
    proof -
      have "length rs \<le> length ?cs" using p by simp
      then have "length ?cs - Suc (length rs - Suc (Suc j)) = length ?cs - length rs + Suc j"
          "length rs - Suc (Suc j) < length ?cs"
        using j by arith+
      then show ?thesis by (simp only: rev_nth)
    qed
    also have "\<dots> = tl (drop (length ?cs - length rs) candidates) ! j"
    proof -
      have "length rs \<le> length ?cs" using p by simp
      then have "Suc (length ?cs + j - length rs) < length ?cs" "length ?cs - length rs + Suc j = Suc (length ?cs + j - length rs)"
        using j by arith+
      then show ?thesis by (simp add: nth_tl assms(2))
    qed
    finally show ?thesis .
  qed
  then have tl: "tl recent = tl (drop (mv_omitted_items view) candidates)"
    using p v(4) by (intro nth_equalityI) (auto simp: recent assms(2))
  have "\<exists>i \<in> set transcript. vi_run_id i \<noteq> Some current \<and> vi_kind i \<noteq> Approval_Item \<and>
      (\<forall>c. checkpoint = Some c \<longrightarrow> vc_covered_through_sequence c < vi_sequence i) \<and>
      map_option fst (transcript_message (vl_max_tool_result_chars limits) i) = Some m" if "m \<in> set candidates" for m
  proof -
    obtain b where mb: "(m, b) \<in> set ?cs" using \<open>m \<in> set candidates\<close> assms(2) by auto
    from candidate_item [OF mb] obtain i where i: "i \<in> set transcript" "vi_run_id i \<noteq> Some current"
        "\<forall>c. checkpoint = Some c \<longrightarrow> vc_covered_through_sequence c < vi_sequence i"
        "transcript_message (vl_max_tool_result_chars limits) i = Some (m, b)"
      by blast
    then show ?thesis using message_not_approval [OF i(4)] by (metis fst_conv option.map(2))
  qed
  then show ?thesis using tl p v(3,4) by (auto simp: recent assms(2))
qed

theorem view_most_recent_witness:
  "mv_included_items (build_model_view
     [\<lparr>vi_run_id = Some ''old'', vi_sequence = 1, vi_kind = User_Item, vi_payload = User_Payload ''goal''\<rparr>] ''now'' default_limits) +
   mv_omitted_items (build_model_view
     [\<lparr>vi_run_id = Some ''old'', vi_sequence = 1, vi_kind = User_Item, vi_payload = User_Payload ''goal''\<rparr>] ''now'' default_limits) = 1"
  unfolding build_model_view_def
  using view_most_recent [where transcript = "[\<lparr>vi_run_id = Some ''old'', vi_sequence = 1, vi_kind = User_Item,
      vi_payload = User_Payload ''goal''\<rparr>]" and current = "''now''" and checkpoint = None and limits = default_limits,
      OF refl refl refl]
  by (simp add: view_candidates_def transcript_message_def map_filter_simps)

theorem microcompact_frame_witness:
  "\<exists>out stats. microcompact_request \<lparr>from_str = \<lambda>_. None, to_str = \<lambda>_. []\<rparr> (\<lambda>_. (0, Tokenizer_Count)) [user_message ''x''] =
     Inr (out, stats) \<and> length out = 1"
proof -
  have "\<exists>out stats. microcompact_request \<lparr>from_str = \<lambda>_. None, to_str = \<lambda>_. []\<rparr> (\<lambda>_. (0, Tokenizer_Count)) [user_message ''x''] =
      Inr (out, stats)"
    by (simp add: microcompact_request_def repair_tool_pairs_def repair_calls_def has_calls_def user_message_def
        repair_result_def is_orphan_def latest_user_def protected_round_boundary_def compact_message_def
        drop_images_def compactable_def Let_def)
  then obtain out stats where *: "microcompact_request \<lparr>from_str = \<lambda>_. None, to_str = \<lambda>_. []\<rparr> (\<lambda>_. (0, Tokenizer_Count)) [user_message ''x''] =
      Inr (out, stats)" by blast
  from microcompact_frame [OF this] have "length out = 1" by simp
  then show ?thesis using * by blast
qed

end
