(* ===== verification/Spec2Isabelle.thy ===== *)
theory Spec2Isabelle
  imports Policy_Props Tool_Names Patch_Props Input_Props Calendar_Props Schedule_Props
    Schedule_Runtime Schedule_Reconcile Agent_Task_Props Session_Lanes Context_Props
begin

text \<open>
  A verification of the core of hachimi, a desktop assistant that runs language-model agents with
  tools on the user's machine. The Rust workspace has some thirty crates under \<open>src/crates\<close>; the
  development models the parts that decide what an agent may do and that keep the durable record
  of what it did.

  \<^bold>\<open>The program's parts.\<close> A window of the application sends control methods; \<open>hachimi-policy\<close>
  decides them, expands a permission policy into the grants of a run, and gates the effects and
  files of a tool. The agent runtime talks to a model under provider-safe tool names
  (\<open>hachimi-llm\<close>) and applies the patches it sends (\<open>hachimi-workspace\<close>). Everything durable goes
  through the agent store (\<open>hachimi-storage/src/agent_store.rs\<close> and its submodules): sessions with
  one sequence of events and transcript items, runs with a status machine, approvals, side
  effects, step checkpoints, and what happens to all of them when the host restarts. Schedules start
  runs unattended: \<open>hachimi-scheduler\<close> computes when they are due, claims each invocation in the
  store (\<open>schedule.rs\<close>, \<open>schedule_event.rs\<close>), executes it in a background task and settles it.

  \<^bold>\<open>Theories.\<close>
  \<^item> \<open>Prelude\<close>, \<open>Rust_String\<close>: results, machine integers, UTF-8 strings and their library calls.
  \<^item> \<open>Agent_Enums\<close>, \<open>Control\<close>: enums that several parts share; windows, scopes and control methods
    (\<open>control.rs\<close>, \<open>transport.rs\<close>).
  \<^item> \<open>Permissions\<close>, \<open>Policy_Normalize\<close>, \<open>Policy\<close>, \<open>Policy_Glob\<close>, \<open>Policy_Props\<close>: the grant records,
    \<open>normalize_permission_policy\<close>, the expansion and the gates, the glob matcher against its
    language, and the properties. The operating system calls are the fields of the record
    \<open>os_env\<close>, their documented behaviour the hypothesis \<open>os_env_ok\<close>.
  \<^item> \<open>Model_Messages\<close>: the messages of a model request. \<open>Tool_Names\<close>: the alias table (\<open>provider_tool_names.rs\<close>) and the decoder of model events.
  \<^item> \<open>Patch\<close>, \<open>Patch_Props\<close>: the patch parser, its path checks and the application of chunks.
  \<^item> \<open>Table\<close>: SQL statements as list operations, and how a table may evolve.
  \<^item> \<open>Store_Types\<close>, \<open>Store_State\<close>, \<open>Store_Tx\<close>: the enums with their codecs, the rows and the store
    record, transactions with the errors of \<open>error.rs\<close>. A transaction is a function of the store;
    an error carries no store because the database rolls back.
  \<^item> \<open>Store_Runs\<close>, \<open>Store_Effects\<close>, \<open>Store_Recovery\<close>, \<open>Store_Inputs\<close>: the operations of
    \<open>agent_store.rs\<close>, \<open>side_effects.rs\<close>, \<open>recovery.rs\<close>, \<open>user_input.rs\<close>, \<open>active_events.rs\<close>,
    \<open>transcript.rs\<close> and \<open>run_summary.rs\<close>, one definition per method.
  \<^item> \<open>Store_Order\<close>, \<open>Store_Rules\<close>, \<open>Store_Advance\<close>: the well-formedness \<open>store_ok\<close>, the order
    \<open>store_le\<close> of what is never undone, a rule per statement and a lemma per operation.
  \<^item> \<open>Store_Steps\<close>: the store as a transition system; \<open>Store_Frame\<close>: relations that most
    operations leave alone; \<open>Store_Demo\<close>: a concrete execution for the witnesses.
  \<^item> \<open>Store_Props\<close>, \<open>Recovery_Props\<close>, \<open>Decision_Props\<close>, \<open>Input_Props\<close>: the properties of the store.
  \<^item> \<open>Schedule_Types\<close>: the records and enums of \<open>schedule.rs\<close> in the protocol crate.
  \<^item> \<open>Calendar\<close>, \<open>Calendar_Props\<close>: cron expressions and occurrences (\<open>calendar.rs\<close>). The time zone
    database and the arithmetic of civil times are the fields of \<open>calendar_env\<close>.
  \<^item> \<open>Schedule_Store\<close>, \<open>Schedule_Events\<close>: the tables and the operations of the store. The record
    \<open>schedule_db\<close> holds the schedule tables beside the store of the agents.
  \<^item> \<open>Schedule_Steps\<close>, \<open>Schedule_Demo\<close>, \<open>Schedule_Props\<close>: these tables as a transition system, an
    execution for the witnesses, and the properties.
  \<^item> \<open>Schedule_Service\<close>, \<open>Schedule_Launch\<close>: the methods of the service (\<open>service.rs\<close>,
    \<open>service_helpers.rs\<close>, \<open>event.rs\<close>) as functions of its state \<open>scheduler\<close>; a method that fails
    keeps what it has written. \<open>Schedule_Runtime\<close>: the timer with its retries (\<open>runtime.rs\<close>).
  \<^item> \<open>Schedule_Trigger\<close>, \<open>Schedule_Running\<close>, \<open>Schedule_Reconcile\<close>: what is shown of due passes, of
    background tasks under every interleaving of their stretches, and of the start.
  \<^item> \<open>Agent_Tasks\<close>: the task tree of parallel agents (\<open>agent_tasks.rs\<close>). The record \<open>task_db\<close> holds
    its tables beside the store of the agents. \<open>Agent_Task_Steps\<close>: these tables as a transition system;
    \<open>Agent_Task_Lease\<close>: the lease of a task as an abstract machine that they refine;
    \<open>Agent_Task_Demo\<close>, \<open>Agent_Task_Props\<close>: an execution for the witnesses, and the properties.
  \<^item> \<open>Session_Lanes\<close>: the lanes that keep the runs of a session apart (\<open>session_lane.rs\<close>), with every
    access to shared state as a step.
  \<^item> \<open>Context_Budget\<close>, \<open>Model_View\<close>, \<open>Context_Props\<close>: what a model gets to see: the budget and the
    transient compaction of a request (\<open>context_budget.rs\<close>), the bounded view of the transcript
    (\<open>model_view.rs\<close>), and their properties.

  \<^bold>\<open>What the lemmas show.\<close> For the policy: normalisation is idempotent and keeps roots relative,
  plan mode admits no side effect, coverage of one policy by another preserves what it gates, and
  where coverage and plan mode are blind. For tool names: encoding and decoding are inverse, and
  streamed fragments decode to the name that was sent. For patches: printing and parsing are
  inverse, targets stay inside the checkout, ascending chunks are applied as read. For the store:
  every reachable store is well-formed, sequence numbers are never reused, history only grows,
  settled runs stay settled, an approval is decided once and spent within its budget, a side
  effect moves forward and is dispatched at most once and only for the current generation of a
  running run; a restart closes everything open, decides each interrupted run exactly once and
  resumes by itself only what cannot happen twice; the user's decision is taken once; a secret
  answer leaves no trace. For schedules: a cron search gives exactly the matching times in order
  in zones with a constant offset, and where a zone that turns back breaks the order; an invocation
  key is launched at most once, a settled task run stays settled, an event goes to exactly the
  schedules it is for; a due pass drains what was due; no task run is executed twice at a time; how
  one failing schedule stops the service and how a removed schedule strands its task run. For
  parallel agents: the tasks form a forest within its limits, the query for a subtree ends and is
  exact, reservations stay within the budget of the parent, the lease of a task refines an abstract
  machine and fences old holders; a settled task is safe from transitions but not from the
  projection of its run. For the runtime: a lane is serial and a reset fences it, but the drain can
  miss its wake-up; a request is repaired to pairs of calls and results, its compaction touches old
  results and images only and panics on an exactly described kind of result; the view of the
  transcript is the most recent history within its budget.

  \<^bold>\<open>Bounds.\<close> Sequence numbers, generations and counters are \<open>nat\<close>: they are \<open>i64\<close> columns that
  the program increments by one, so their bound is out of reach. Times are \<open>int\<close>. Totals of a
  run summary saturate at \<open>u32\<close> as in the source. The loops of the parsers terminate by the length
  of what is left; the alias search of the tool names starts from the 64-bit ordinal and is proved
  to find a free name within the table size limit. The cron search is bounded by the number of steps
  of the source; the retries of the timer by its list of delays, which is the measure of the
  recursion.

  \<^bold>\<open>Not modelled.\<close> Of the store: plan documents, checkouts, MCP and artifact registration,
  lifecycle and the tables of the other hosts (the columns that runs and restarts touch are
  \<open>host_tables\<close>; its column of task runs stands for \<open>task_rows\<close> where only the store of the agents
  is considered). Of schedules: the claims of idempotent mutations other than their creation and
  the workspace that is removed after a schedule; a method of the service is one step although it
  awaits the store in between, only the waits of background tasks and of the timer are cut. Rows are typed, so decoding errors of a corrupt database do
  not arise; transactions are serial, which the store's single writer gives. Of the workspace
  crate: the file transaction. The other crates are asynchronous orchestration, platform and
  network I/O, or user interface.
\<close>

end
